theory Spec2Isabelle
  imports Main
begin

section \<open>opera-bookmarks: the bookmark tree builder and HTML generator of bm.go\<close>

text \<open>
  A shallow embedding of \<^verbatim>\<open>bm.go\<close>. Go strings are byte sequences and are modelled as
  \<open>string\<close>; \<open>int64\<close> values are modelled as \<open>int\<close> with the two's complement
  wrap-around written out (\<open>wrap64\<close>); a function returning \<open>(T, error)\<close> returns
  \<open>error + T\<close>, with \<open>Inl\<close> for a non-nil error.
\<close>

subsection \<open>Decoded JSON values\<close>

text \<open>
  What \<^verbatim>\<open>encoding/json\<close> decodes into an \<^verbatim>\<open>interface{}\<close>: nil, bool, float64, string,
  \<^verbatim>\<open>[]interface{}\<close> and \<^verbatim>\<open>map[string]interface{}\<close>. The program never looks inside a
  number (kept as the mantissa and the binary exponent of the float64). A Go map is
  modelled as an association list: \<open>map_of\<close> is the lookup \<^verbatim>\<open>node[key]\<close>, and the order
  of the list is the order in which \<^verbatim>\<open>range\<close> happens to visit the entries (Go leaves
  that order unspecified, so a property of the program is one that holds for every order
  of the list).
\<close>

datatype json =
    JNull
  | JBool bool
  | JNumber int int
  | JString string
  | JArray "json list"
  | JObject "(string \<times> json) list"

subsection \<open>Errors\<close>

text \<open>
  The texts of the error messages, kept symbolic: each constructor stands for one format
  string of the source together with its arguments (\<^verbatim>\<open>%q\<close> quoting is not expanded).
\<close>

datatype message =
    TagNotFound string              \<comment> \<open>\<^verbatim>\<open>Tag %q is not found\<close>\<close>
  | TagNotString string             \<comment> \<open>\<^verbatim>\<open>Tag %q is not a string\<close>\<close>
  | NotAnInteger string string      \<comment> \<open>\<^verbatim>\<open>Value for tag %q is not an integer: %q\<close>\<close>
  | UnexpectedNodeType              \<comment> \<open>\<^verbatim>\<open>Unexpected node type\<close>\<close>
  | TypeTagNotString                \<comment> \<open>\<^verbatim>\<open>Type tag is not a string\<close>\<close>
  | UnknownType string              \<comment> \<open>\<^verbatim>\<open>Unknown type %q\<close>\<close>
  | UnexpectedChildrenType          \<comment> \<open>\<^verbatim>\<open>Unexpected "children" type\<close>\<close>
  | InvalidRootItemType             \<comment> \<open>\<^verbatim>\<open>Invalid root item type\<close>\<close>
  | WriteFailed                     \<comment> \<open>the text of an error of the output writer\<close>
  | NodeMessage string message      \<comment> \<open>\<^verbatim>\<open>"Node " + path + ": " + msg\<close>\<close>

text \<open>
  The dynamic types an \<^verbatim>\<open>error\<close> of this program can have: \<^verbatim>\<open>KeyNotFoundError\<close>,
  the string errors of \<^verbatim>\<open>errors.New\<close> and \<^verbatim>\<open>fmt.Errorf\<close>, \<^verbatim>\<open>*ParserError\<close> with its
  fields \<^verbatim>\<open>path\<close> and \<^verbatim>\<open>msg\<close>, and whatever the output writer returns.
\<close>

datatype error =
    KeyNotFoundError string
  | ErrorString message
  | ParserError string message
  | WriteError

fun Error :: "error \<Rightarrow> message" where
  "Error (KeyNotFoundError key) = TagNotFound key"
| "Error (ErrorString m) = m"
| "Error (ParserError path m) = NodeMessage path m"
| "Error WriteError = WriteFailed"

definition mapError :: "string \<Rightarrow> error \<Rightarrow> error" where
  "mapError key err =
     (case err of
        ParserError path m \<Rightarrow>
          (if length path > 0 then ParserError (key @ ''/'' @ path) m
           else ParserError key m)
      | _ \<Rightarrow> ParserError key (Error err))"

subsection \<open>Library functions the program calls\<close>

text \<open>
  \<^verbatim>\<open>int64\<close> arithmetic wraps around; Go's \<^verbatim>\<open>/\<close> and \<^verbatim>\<open>%\<close> truncate towards zero.
\<close>

definition wrap64 :: "int \<Rightarrow> int" where
  "wrap64 x = (x + 2 ^ 63) mod 2 ^ 64 - 2 ^ 63"

definition wrap32 :: "int \<Rightarrow> int" where
  "wrap32 x = (x + 2 ^ 31) mod 2 ^ 32 - 2 ^ 31"

definition quo :: "int \<Rightarrow> int \<Rightarrow> int" where
  "quo a b = sgn a * sgn b * (\<bar>a\<bar> div \<bar>b\<bar>)"

definition rem :: "int \<Rightarrow> int \<Rightarrow> int" where
  "rem a b = a - b * quo a b"

text \<open>
  \<^verbatim>\<open>time.Time\<close> (package time, as of the Go release the program was written for): the
  seconds since January 1 of year 1, 00:00:00 UTC, as an \<^verbatim>\<open>int64\<close>, and the nanoseconds
  within the second, as an \<^verbatim>\<open>int32\<close>. The zero value is the zero \<^verbatim>\<open>Time\<close>.
  \<^verbatim>\<open>
  func (t Time) Add(d Duration) Time {
      t.sec += int64(d / 1e9)
      nsec := t.nsec + int32(d%1e9)
      if nsec >= 1e9 { t.sec++; nsec -= 1e9 }
      else if nsec < 0 { t.sec--; nsec += 1e9 }
      t.nsec = nsec
      return t
  }
  \<close>
\<close>

record Time =
  sec :: int
  nsec :: int

definition zeroTime :: Time where
  "zeroTime = \<lparr>sec = 0, nsec = 0\<rparr>"

definition Time_Add :: "Time \<Rightarrow> int \<Rightarrow> Time" where
  "Time_Add t d =
     (let s = wrap64 (sec t + quo d 1000000000);
          n = wrap32 (nsec t + wrap32 (rem d 1000000000))
      in if n \<ge> 1000000000 then \<lparr>sec = wrap64 (s + 1), nsec = wrap32 (n - 1000000000)\<rparr>
         else if n < 0 then \<lparr>sec = wrap64 (s - 1), nsec = wrap32 (n + 1000000000)\<rparr>
         else \<lparr>sec = s, nsec = n\<rparr>)"

text \<open>
  \<^verbatim>\<open>time.Date(1601, time.January, 1, 0, 0, 0, 0, time.UTC)\<close>: 1600 years, which are four
  cycles of 146097 days, after January 1 of year 1.
\<close>

definition googleEpoch :: Time where
  "googleEpoch = \<lparr>sec = 4 * 146097 * 86400, nsec = 0\<rparr>"

text \<open>
  \<^verbatim>\<open>strconv.ParseUint(s, 10, bitSize)\<close> and \<^verbatim>\<open>strconv.ParseInt(s, 10, bitSize)\<close> (package
  strconv, as the current releases have it). \<^verbatim>\<open>ParseUint\<close> returns a value and an error:
  the empty string is a syntax error; a \<^verbatim>\<open>bitSize\<close> of 0 stands for the size of \<^verbatim>\<open>int\<close>,
  which is 64, and a negative one or one above 64 is a bit-size error
  (\<^verbatim>\<open>if bitSize == 0 { bitSize = IntSize } else if bitSize < 0 || bitSize > 64 { return 0,
  bitSizeError(fnParseUint, s0, bitSize) }\<close>); then the bytes are read in a loop, which
  \<open>digitsLoop\<close> is, with \<^verbatim>\<open>maxVal := uint64(1)<<uint(bitSize) - 1\<close> and the value \<open>n\<close> read so
  far: a byte that is no decimal digit is a syntax error, with the value 0, and a value
  that does not fit is a range error, with the value \<^verbatim>\<open>maxVal\<close>
  (\<^verbatim>\<open>if n >= cutoff { return maxVal, rangeError(fnParseUint, s0) }; n *= uint64(base);
  n1 := n + uint64(d); if n1 < n || n1 > maxVal { return maxVal, rangeError(fnParseUint, s0) };
  n = n1\<close>, the cutoff being \<^verbatim>\<open>maxUint64/10 + 1\<close> and the arithmetic that of \<^verbatim>\<open>uint64\<close>).
  \<^verbatim>\<open>ParseInt\<close> picks off one leading sign and hands the rest and the \<^verbatim>\<open>bitSize\<close> it was
  given to \<^verbatim>\<open>ParseUint\<close>; it returns an error of \<^verbatim>\<open>ParseUint\<close> other than the range error,
  and otherwise compares the value with the cutoff \<open>2 ^ (bitSize - 1)\<close>
  (\<^verbatim>\<open>if err != nil && err.(*NumError).Err != ErrRange { return 0, err }\<close>, then
  \<^verbatim>\<open>if !neg && un >= cutoff\<close> and \<^verbatim>\<open>if neg && un > cutoff\<close> return a range error). Of
  \<^verbatim>\<open>ParseInt\<close> the program uses the value only when the error is nil, so \<open>ParseInt\<close> is
  \<open>None\<close> for a non-nil error.
\<close>

definition isDigit :: "char \<Rightarrow> bool" where
  "isDigit c = (c \<in> set ''0123456789'')"

definition digitVal :: "char \<Rightarrow> int" where
  "digitVal c = of_char c - 48"

datatype NumError = ErrSyntax | ErrRange | ErrBitSize

fun digitsLoop :: "int \<Rightarrow> int \<Rightarrow> string \<Rightarrow> int \<times> NumError option" where
  "digitsLoop maxVal n [] = (n, None)"
| "digitsLoop maxVal n (c # cs) =
     (if \<not> isDigit c then (0, Some ErrSyntax)
      else if n \<ge> (2 ^ 64 - 1) div 10 + 1 then (maxVal, Some ErrRange)
      else
        let n10 = (n * 10) mod 2 ^ 64;
            n1 = (n10 + digitVal c) mod 2 ^ 64
        in if n1 < n10 \<or> n1 > maxVal then (maxVal, Some ErrRange)
           else digitsLoop maxVal n1 cs)"

definition ParseUint :: "string \<Rightarrow> int \<Rightarrow> int \<times> NumError option" where
  "ParseUint s bitSize =
     (if s = [] then (0, Some ErrSyntax)
      else if bitSize \<noteq> 0 \<and> (bitSize < 0 \<or> bitSize > 64) then (0, Some ErrBitSize)
      else
        let bits = (if bitSize = 0 then 64 else bitSize);
            maxVal = 2 ^ nat bits - 1
        in digitsLoop maxVal 0 s)"

definition ParseInt :: "string \<Rightarrow> int \<Rightarrow> int option" where
  "ParseInt s0 bitSize =
     (if s0 = [] then None
      else
        let neg = (hd s0 = CHR ''-'');
            s = (if hd s0 = CHR ''+'' \<or> hd s0 = CHR ''-'' then tl s0 else s0)
        in case ParseUint s bitSize of
             (un, err) \<Rightarrow>
               if err \<noteq> None \<and> err \<noteq> Some ErrRange then None
               else
                 let bits = (if bitSize = 0 then 64 else bitSize);
                     cutoff = 2 ^ nat (bits - 1)
                 in if \<not> neg \<and> un \<ge> cutoff then None
                    else if neg \<and> un > cutoff then None
                    else Some (if neg then - un else un))"

text \<open>\<^verbatim>\<open>strconv.Itoa\<close> on an index of a slice, which is never negative.\<close>

fun Itoa :: "nat \<Rightarrow> string" where
  "Itoa n = (if n < 10 then [''0123456789'' ! n]
             else Itoa (n div 10) @ [''0123456789'' ! (n mod 10)])"

declare Itoa.simps [simp del]

text \<open>
  \<^verbatim>\<open>html.EscapeString\<close> escapes exactly the five bytes \<^verbatim>\<open>&\<close>, \<^verbatim>\<open>'\<close>, \<^verbatim>\<open><\<close>, \<^verbatim>\<open>>\<close>
  and \<^verbatim>\<open>"\<close>, as \<^verbatim>\<open>&amp;\<close>, \<^verbatim>\<open>&#39;\<close>, \<^verbatim>\<open>&lt;\<close>, \<^verbatim>\<open>&gt;\<close> and \<^verbatim>\<open>&#34;\<close>.
\<close>

definition escapeChar :: "char \<Rightarrow> string" where
  "escapeChar c =
     (if c = CHR ''&'' then ''&amp;''
      else if c = CHR 0x27 then ''&#39;''
      else if c = CHR ''<'' then ''&lt;''
      else if c = CHR ''>'' then ''&gt;''
      else if c = CHR 0x22 then ''&#34;''
      else [c])"

definition EscapeString :: "string \<Rightarrow> string" where
  "EscapeString s = concat (map escapeChar s)"

subsection \<open>Data converters\<close>

definition readString :: "string \<Rightarrow> (string \<times> json) list \<Rightarrow> error + string" where
  "readString key data =
     (case map_of data key of
        None \<Rightarrow> Inl (KeyNotFoundError key)
      | Some v \<Rightarrow>
          (case v of
             JString s \<Rightarrow> Inr s
           | _ \<Rightarrow> Inl (ErrorString (TagNotString key))))"

definition readInt :: "string \<Rightarrow> (string \<times> json) list \<Rightarrow> int \<Rightarrow> error + int" where
  "readInt key data bitSize =
     (case readString key data of
        Inl err \<Rightarrow> Inl err
      | Inr s \<Rightarrow>
          (case ParseInt s bitSize of
             None \<Rightarrow> Inl (ErrorString (NotAnInteger key s))
           | Some val \<Rightarrow> Inr val))"

text \<open>
  The loop of \<^verbatim>\<open>readTimeStamp\<close>:
  \<^verbatim>\<open>for ; val >= twoCenturies; val -= twoCenturies { ts = ts.Add(time.Duration(twoCenturies * 1000)) }\<close>.
  It returns the time stamp and what is left of \<^verbatim>\<open>val\<close>. The constant expression
  \<^verbatim>\<open>twoCenturies * 1000\<close> is evaluated exactly by the compiler and fits an \<^verbatim>\<open>int64\<close>.
\<close>

definition twoCenturies :: int where
  "twoCenturies = 200 * 365 * 24 * 60 * 60 * 1000000"

function addCenturies :: "int \<Rightarrow> Time \<Rightarrow> int \<times> Time" where
  "addCenturies val ts =
     (if val \<ge> twoCenturies
      then addCenturies (wrap64 (val - twoCenturies)) (Time_Add ts (twoCenturies * 1000))
      else (val, ts))"
  by pat_completeness auto

termination
proof (relation "measure (\<lambda>(val, ts). nat val)")
  show "wf (measure (\<lambda>(val, ts). nat val))"
    by simp
next
  fix val :: int and ts :: Time
  assume big: "twoCenturies \<le> val"
  have pos: "0 < twoCenturies"
    by (simp add: twoCenturies_def)
  have "wrap64 (val - twoCenturies) < val"
  proof (cases "val < 2 ^ 63")
    case True
    with big pos have "wrap64 (val - twoCenturies) = val - twoCenturies"
      by (simp add: wrap64_def)
    with pos show ?thesis by simp
  next
    case False
    have "wrap64 (val - twoCenturies) < 2 ^ 63"
      unfolding wrap64_def using pos_mod_bound [of "2 ^ 64" "val - twoCenturies + 2 ^ 63"]
      by simp
    with False show ?thesis by simp
  qed
  with big pos show "((wrap64 (val - twoCenturies), Time_Add ts (twoCenturies * 1000)), (val, ts))
      \<in> measure (\<lambda>(val, ts). nat val)"
    by simp
qed

declare addCenturies.simps [simp del]

text \<open>
  What \<^verbatim>\<open>readTimeStamp\<close> computes from \<^verbatim>\<open>val\<close> once \<^verbatim>\<open>readInt\<close> has returned it: the
  loop from \<^verbatim>\<open>googleEpoch\<close>, then \<^verbatim>\<open>ts.Add(time.Duration(val * 1000))\<close> with the
  \<^verbatim>\<open>int64\<close> product.
\<close>

definition decodeTimeStamp :: "int \<Rightarrow> Time" where
  "decodeTimeStamp val =
     (case addCenturies val googleEpoch of
        (val', ts) \<Rightarrow> Time_Add ts (wrap64 (val' * 1000)))"

definition readTimeStamp :: "string \<Rightarrow> (string \<times> json) list \<Rightarrow> error + Time" where
  "readTimeStamp key data =
     (case readInt key data 64 of
        Inl err \<Rightarrow> Inl err
      | Inr val \<Rightarrow> Inr (decodeTimeStamp val))"

subsection \<open>The bookmark tree\<close>

record Node =
  Name :: string
  Key :: string
  Added :: Time
  Modified :: Time

record Link = Node +
  URL :: string

datatype Folder = Folder (folderNode: Node) (Links: "Link list") (Folders: "Folder list")

text \<open>
  \<^verbatim>\<open>Node.read\<close> fills a node that both of its callers have just allocated, and a caller
  drops the node when \<^verbatim>\<open>read\<close> fails: the model returns the filled node or the error. When
  \<^verbatim>\<open>date_modified\<close> is not found, \<^verbatim>\<open>Modified\<close> holds the zero \<^verbatim>\<open>Time\<close> that
  \<^verbatim>\<open>readTimeStamp\<close> returns beside its error.
\<close>

definition Node_read :: "string \<Rightarrow> (string \<times> json) list \<Rightarrow> error + Node" where
  "Node_read key data =
     (case readString ''name'' data of
        Inl err \<Rightarrow> Inl err
      | Inr name \<Rightarrow>
          (case readTimeStamp ''date_added'' data of
             Inl err \<Rightarrow> Inl err
           | Inr added \<Rightarrow>
               (case readTimeStamp ''date_modified'' data of
                  Inr modified \<Rightarrow>
                    Inr \<lparr>Name = name, Key = key, Added = added, Modified = modified\<rparr>
                | Inl err \<Rightarrow>
                    (case err of
                       KeyNotFoundError k \<Rightarrow>
                         Inr \<lparr>Name = name, Key = key, Added = added, Modified = zeroTime\<rparr>
                     | _ \<Rightarrow> Inl err))))"

definition makeLink :: "string \<Rightarrow> (string \<times> json) list \<Rightarrow> error + Link" where
  "makeLink key node =
     (case Node_read key node of
        Inl err \<Rightarrow> Inl (mapError key err)
      | Inr nd \<Rightarrow>
          (case readString ''url'' node of
             Inl err \<Rightarrow> Inl (mapError key err)
           | Inr url \<Rightarrow>
               Inr \<lparr>Name = Name nd, Key = Key nd, Added = Added nd, Modified = Modified nd,
                    URL = url\<rparr>))"

definition addFolder :: "Folder \<Rightarrow> error + Folder \<Rightarrow> error + Folder" where
  "addFolder folder res =
     (case res of
        Inr child \<Rightarrow> Inr (Folder (folderNode folder) (Links folder) (Folders folder @ [child]))
      | Inl err \<Rightarrow> Inl err)"

definition addLink :: "Folder \<Rightarrow> error + Link \<Rightarrow> error + Folder" where
  "addLink folder res =
     (case res of
        Inr child \<Rightarrow> Inr (Folder (folderNode folder) (Links folder @ [child]) (Folders folder))
      | Inl err \<Rightarrow> Inl err)"

subsection \<open>The tree builder\<close>

text \<open>
  \<^verbatim>\<open>makeChildFolder\<close>, \<^verbatim>\<open>makeRootFolder\<close> and the dispatcher \<^verbatim>\<open>add\<close> call each other.
  \<open>childrenLoop\<close> is the loop \<^verbatim>\<open>for i, v := range cc\<close> of \<^verbatim>\<open>makeChildFolder\<close> from
  index \<open>i\<close> on, and \<open>rootLoop\<close> the loop \<^verbatim>\<open>for k, v := range node\<close> of
  \<^verbatim>\<open>makeRootFolder\<close>; both carry the folder built so far, which \<^verbatim>\<open>add\<close> returns with
  the new child appended.
\<close>

lemma map_of_size:
  "map_of m k = Some v \<Longrightarrow> size v < size_list (size_prod (\<lambda>_. 0) size) m"
  by (induction m) (auto split: if_splits)

function makeChildFolder :: "string \<Rightarrow> (string \<times> json) list \<Rightarrow> error + Folder"
  and childrenLoop :: "string \<Rightarrow> Folder \<Rightarrow> nat \<Rightarrow> json list \<Rightarrow> error + Folder"
  and makeRootFolder :: "string \<Rightarrow> (string \<times> json) list \<Rightarrow> error + Folder"
  and rootLoop :: "string \<Rightarrow> Folder \<Rightarrow> (string \<times> json) list \<Rightarrow> error + Folder"
  and add :: "Folder \<Rightarrow> string \<Rightarrow> json \<Rightarrow> error + Folder"
where
  "makeChildFolder key node =
     (case Node_read key node of
        Inl err \<Rightarrow> Inl (mapError key err)
      | Inr nd \<Rightarrow>
          (case map_of node ''children'' of
             None \<Rightarrow> Inr (Folder nd [] [])
           | Some c \<Rightarrow>
               (case c of
                  JArray cc \<Rightarrow> childrenLoop key (Folder nd [] []) 0 cc
                | _ \<Rightarrow> Inl (ParserError key UnexpectedChildrenType))))"
| "childrenLoop key folder i [] = Inr folder"
| "childrenLoop key folder i (v # cc) =
     (case add folder (''#'' @ Itoa i) v of
        Inl err \<Rightarrow> Inl (mapError key err)
      | Inr folder' \<Rightarrow> childrenLoop key folder' (i + 1) cc)"
| "makeRootFolder key node =
     rootLoop key
       (Folder \<lparr>Name = key, Key = key, Added = zeroTime, Modified = zeroTime\<rparr> [] []) node"
| "rootLoop key folder [] = Inr folder"
| "rootLoop key folder ((k, v) # node) =
     (case add folder k v of
        Inl err \<Rightarrow> Inl (mapError key err)
      | Inr folder' \<Rightarrow> rootLoop key folder' node)"
| "add root key item =
     (case item of
        JObject node \<Rightarrow>
          (case map_of node ''type'' of
             Some t \<Rightarrow>
               (case t of
                  JString tt \<Rightarrow>
                    (if tt = ''folder'' then addFolder root (makeChildFolder key node)
                     else if tt = ''url'' then addLink root (makeLink key node)
                     else Inl (ParserError key (UnknownType tt)))
                | _ \<Rightarrow> Inl (ParserError key TypeTagNotString))
           | None \<Rightarrow> addFolder root (makeRootFolder key node))
      | _ \<Rightarrow> Inl (ParserError key UnexpectedNodeType))"
  by pat_completeness auto
termination
  apply (relation "measure (\<lambda>x. case x of
      Inl (Inl (key, node)) \<Rightarrow> 2 * size (JObject node) + 1
    | Inl (Inr (key, folder, i, cc)) \<Rightarrow> 2 * size (JArray cc)
    | Inr (Inl (key, node)) \<Rightarrow> 2 * size (JObject node) + 1
    | Inr (Inr (Inl (key, folder, node))) \<Rightarrow> 2 * size (JObject node)
    | Inr (Inr (Inr (root, key, item))) \<Rightarrow> 2 * size item + 2)")
  apply (auto dest: map_of_size)
  done

declare makeChildFolder.simps [simp del] makeRootFolder.simps [simp del] add.simps [simp del]

definition buildTree :: "string \<Rightarrow> json \<Rightarrow> error + Folder" where
  "buildTree key item =
     (case item of
        JObject node \<Rightarrow> makeRootFolder key node
      | _ \<Rightarrow> Inl (ErrorString InvalidRootItemType))"

subsection \<open>The HTML generator\<close>

text \<open>
  A \<^verbatim>\<open>StringWriter\<close> is modelled by what has been written to it and by the number of
  bytes it still accepts (\<open>None\<close>: any number); a write that does not fit fails. An
  \<^verbatim>\<open>fhtml\<close> takes the writer and returns the error, if any, with the writer as it has
  left it.
\<close>

record StringWriter =
  written :: string
  room :: "nat option"

definition WriteString :: "StringWriter \<Rightarrow> string \<Rightarrow> error option \<times> StringWriter" where
  "WriteString dest text =
     (case room dest of
        None \<Rightarrow> (None, dest\<lparr>written := written dest @ text\<rparr>)
      | Some n \<Rightarrow>
          (if length text \<le> n
           then (None, dest\<lparr>written := written dest @ text, room := Some (n - length text)\<rparr>)
           else (Some WriteError, dest)))"

type_synonym fhtml = "StringWriter \<Rightarrow> error option \<times> StringWriter"

definition htmlNil :: fhtml where
  "htmlNil dest = (None, dest)"

definition htmlRawText :: "string \<Rightarrow> fhtml" where
  "htmlRawText text dest = WriteString dest text"

definition htmlText :: "string \<Rightarrow> fhtml" where
  "htmlText text = htmlRawText (EscapeString text)"

fun htmlList :: "fhtml list \<Rightarrow> fhtml" where
  "htmlList [] dest = (None, dest)"
| "htmlList (f # fns) dest =
     (case f dest of
        (Some err, dest') \<Rightarrow> (Some err, dest')
      | (None, dest') \<Rightarrow> htmlList fns dest')"

definition htmlListArgs :: "fhtml list \<Rightarrow> fhtml" where
  "htmlListArgs fns = htmlList fns"

definition htmlTag :: "string \<Rightarrow> fhtml \<Rightarrow> fhtml" where
  "htmlTag tag fn =
     htmlListArgs [htmlRawText (''<'' @ tag @ ''>''), fn, htmlRawText (''</'' @ tag @ ''>'')]"

definition htmlLink :: "string \<Rightarrow> string \<Rightarrow> fhtml" where
  "htmlLink link text =
     htmlRawText (''<a href='' @ [CHR 0x22] @ EscapeString link @ [CHR 0x22] @ ''>''
                  @ EscapeString text @ ''</a>'')"

definition folderName :: "Folder \<Rightarrow> fhtml" where
  "folderName folder = htmlTag ''h4'' (htmlText (Name (folderNode folder)))"

definition folderLinks :: "Folder \<Rightarrow> fhtml" where
  "folderLinks folder =
     (if length (Links folder) = 0 then htmlNil
      else htmlTag ''dl''
             (htmlList (map (\<lambda>lnk. htmlTag ''dt'' (htmlLink (URL lnk) (Name lnk)))
                            (Links folder))))"

lemma size_Folders:
  "folder \<in> set folders \<Longrightarrow> size_list size (Folders folder) < size_list size folders"
proof (induction folders)
  case Nil
  then show ?case by simp
next
  case (Cons f fs)
  have "size_list size (Folders f) < size f"
    by (cases f) simp
  with Cons show ?case by auto
qed

function folderList :: "Folder list \<Rightarrow> fhtml" where
  "folderList folders =
     (if length folders = 0 then htmlNil
      else htmlTag ''ul''
             (htmlList (map (\<lambda>folder. htmlTag ''li''
                               (htmlListArgs [folderName folder, folderLinks folder,
                                              folderList (Folders folder)]))
                            folders)))"
  by pat_completeness auto
termination
  by (relation "measure (size_list size)") (auto dest: size_Folders)

declare folderList.simps [simp del]

definition htmlHeader :: string where
  "htmlHeader =
     ''<!DOCTYPE HTML><html>'' @ [CHR 0x0A] @
     ''<head>'' @ [CHR 0x0A] @
     ''<meta charset='' @ [CHR 0x22] @ ''utf-8'' @ [CHR 0x22] @
     ''/><title>Bookmarks</title><style> ul { list-style-type: disc; } </style>'' @ [CHR 0x0A] @
     ''</head>'' @ [CHR 0x0A]"

definition foldersToHTML :: "Folder list \<Rightarrow> fhtml" where
  "foldersToHTML folders dest =
     htmlListArgs [htmlRawText htmlHeader,
                   htmlTag ''body'' (folderList folders),
                   htmlRawText (''</html>'' @ [CHR 0x0A])] dest"

text \<open>
  \<^verbatim>\<open>main\<close> between reading the file and writing the output: the tree is built from the
  value of the field \<^verbatim>\<open>roots\<close> under the key \<^verbatim>\<open>"roots"\<close>, and the folders of the root are
  written. An error ends the program (\<^verbatim>\<open>die\<close>).
\<close>

definition main :: "json \<Rightarrow> StringWriter \<Rightarrow> error option \<times> StringWriter" where
  "main data dest =
     (case buildTree ''roots'' data of
        Inl err \<Rightarrow> (Some err, dest)
      | Inr root \<Rightarrow> foldersToHTML (Folders root) dest)"

section \<open>Notions of the specification\<close>

text \<open>
  The instant a \<^verbatim>\<open>Time\<close> stands for, in nanoseconds since January 1 of year 1.
\<close>

definition nanos :: "Time \<Rightarrow> int" where
  "nanos t = sec t * 1000000000 + nsec t"



text \<open>
  The slash-separated sequence of keys, and a sequence of keys without the empty keys at
  its end.
\<close>

fun slashJoin :: "string list \<Rightarrow> string" where
  "slashJoin [] = []"
| "slashJoin [k] = k"
| "slashJoin (k # k' # ks) = k @ ''/'' @ slashJoin (k' # ks)"

definition dropEmptyTail :: "string list \<Rightarrow> string list" where
  "dropEmptyTail ks = rev (dropWhile (\<lambda>k. k = []) (rev ks))"

text \<open>
  The dispatcher accepts the value \<open>v\<close> under the key \<open>key\<close>; whether it does is the same
  for every folder it is asked to add to.
\<close>

definition builds :: "string \<Rightarrow> json \<Rightarrow> bool" where
  "builds key v =
     (case add (Folder \<lparr>Name = [], Key = [], Added = zeroTime, Modified = zeroTime\<rparr> [] []) key v of
        Inl _ \<Rightarrow> False
      | Inr _ \<Rightarrow> True)"

text \<open>
  \<open>descends key item ks n\<close>: the keys \<open>ks\<close> lead from the value \<open>item\<close>, dispatched under
  \<open>key\<close>, to the value \<open>n\<close>, the way the builder goes and no other: from a mapping with
  no type to one of its entries, all the entries before it being accepted; from a
  mapping of type \<^verbatim>\<open>"folder"\<close> whose own fields read to an element of its \<^verbatim>\<open>children\<close>
  array, under the key \<^verbatim>\<open>#i\<close> of its index \<open>i\<close>, all the elements before it being
  accepted. Nothing leads into a link, into a mapping of another type or into a folder
  whose own fields do not read. \<open>descendsRoot\<close> is the same from the root of the
  document, whose entries are visited whether or not it has a type.
\<close>

inductive descends :: "string \<Rightarrow> json \<Rightarrow> string list \<Rightarrow> json \<Rightarrow> bool" where
  here: "descends key item [key] item"
| field: "map_of node ''type'' = None \<Longrightarrow> node = pre @ (k, v) # post \<Longrightarrow>
          list_all (\<lambda>(k', v'). builds k' v') pre \<Longrightarrow> descends k v ks n \<Longrightarrow>
          descends key (JObject node) (key # ks) n"
| child: "map_of node ''type'' = Some (JString ''folder'') \<Longrightarrow> Node_read key node = Inr nd \<Longrightarrow>
          map_of node ''children'' = Some (JArray cc) \<Longrightarrow> cc = pre @ v # post \<Longrightarrow>
          list_all (\<lambda>(j, v'). builds (''#'' @ Itoa j) v') (enumerate 0 pre) \<Longrightarrow>
          descends (''#'' @ Itoa (length pre)) v ks n \<Longrightarrow>
          descends key (JObject node) (key # ks) n"

inductive descendsRoot :: "string \<Rightarrow> json \<Rightarrow> string list \<Rightarrow> json \<Rightarrow> bool" where
  entry: "node = pre @ (k, v) # post \<Longrightarrow> list_all (\<lambda>(k', v'). builds k' v') pre \<Longrightarrow>
          descends k v ks n \<Longrightarrow> descendsRoot key (JObject node) (key # ks) n"

text \<open>
  What is wrong with a value as a node by itself, whatever its children are: it is no
  mapping, its type tag is no string or an unknown one, a field of a link or of a typed
  folder cannot be read, or \<^verbatim>\<open>children\<close> is no array.
\<close>

definition ownError :: "json \<Rightarrow> message option" where
  "ownError item =
     (case item of
        JObject node \<Rightarrow>
          (case map_of node ''type'' of
             None \<Rightarrow> None
           | Some t \<Rightarrow>
               (case t of
                  JString tt \<Rightarrow>
                    if tt = ''folder'' then
                      (case Node_read [] node of
                         Inl e \<Rightarrow> Some (Error e)
                       | Inr _ \<Rightarrow>
                           (case map_of node ''children'' of
                              None \<Rightarrow> None
                            | Some c \<Rightarrow>
                                (case c of
                                   JArray _ \<Rightarrow> None
                                 | _ \<Rightarrow> Some UnexpectedChildrenType)))
                    else if tt = ''url'' then
                      (case Node_read [] node of
                         Inl e \<Rightarrow> Some (Error e)
                       | Inr _ \<Rightarrow>
                           (case readString ''url'' node of
                              Inl e \<Rightarrow> Some (Error e)
                            | Inr _ \<Rightarrow> None))
                    else Some (UnknownType tt)
                | _ \<Rightarrow> Some TypeTagNotString))
      | _ \<Rightarrow> Some UnexpectedNodeType)"

text \<open>
  An error is located below a node when it carries the message of a value that is wrong
  by itself and that the keys lead to, with the slash-separated keys, less the empty keys
  at the end, as its path. The entries and elements before that value being accepted, it
  is the first value the builder comes to that is wrong.
\<close>

definition located :: "string \<Rightarrow> json \<Rightarrow> error \<Rightarrow> bool" where
  "located key item err =
     (\<exists>ks n m. descends key item ks n \<and> ownError n = Some m
        \<and> err = ParserError (slashJoin (dropEmptyTail ks)) m)"

text \<open>
  A writer that accepts any number of bytes, and what an \<^verbatim>\<open>fhtml\<close> writes to such a
  writer, whatever has been written before.
\<close>

definition unlimited :: "string \<Rightarrow> StringWriter" where
  "unlimited buf = \<lparr>written = buf, room = None\<rparr>"

definition writes :: "fhtml \<Rightarrow> string \<Rightarrow> bool" where
  "writes f text = (\<forall>buf. f (unlimited buf) = (None, unlimited (buf @ text)))"

text \<open>
  The text of a folder, in the specification's words: the name in \<^verbatim>\<open><h4>\<close>; then, if
  the folder has links, a \<^verbatim>\<open><dl>\<close> with one \<^verbatim>\<open><dt>\<close> anchor for each link; then, if
  it has subfolders, a \<^verbatim>\<open><ul>\<close> with the text of each subfolder in an \<^verbatim>\<open><li>\<close>.
\<close>

definition linkText :: "Link \<Rightarrow> string" where
  "linkText lnk =
     ''<dt><a href='' @ [CHR 0x22] @ EscapeString (URL lnk) @ [CHR 0x22] @ ''>''
     @ EscapeString (Name lnk) @ ''</a></dt>''"

fun folderText :: "Folder \<Rightarrow> string" where
  "folderText (Folder nd links folders) =
     ''<h4>'' @ EscapeString (Name nd) @ ''</h4>''
     @ (if links = [] then [] else ''<dl>'' @ concat (map linkText links) @ ''</dl>'')
     @ (if folders = [] then []
        else ''<ul>'' @ concat (map (\<lambda>f. ''<li>'' @ folderText f @ ''</li>'') folders) @ ''</ul>'')"

text \<open>
  Escaped text: plain bytes other than the five special ones, and the five entities.
  \<open>unescape\<close> reads the entities back.
\<close>

inductive escaped :: "string \<Rightarrow> bool" where
  empty: "escaped []"
| plain: "c \<notin> {CHR ''&'', CHR ''<'', CHR ''>'', CHR 0x22, CHR 0x27} \<Longrightarrow> escaped s \<Longrightarrow>
          escaped (c # s)"
| entity: "e \<in> {''&amp;'', ''&#39;'', ''&lt;'', ''&gt;'', ''&#34;''} \<Longrightarrow> escaped s \<Longrightarrow>
          escaped (e @ s)"

function unescape :: "string \<Rightarrow> string" where
  "unescape s =
     (case s of
        [] \<Rightarrow> []
      | c # cs \<Rightarrow>
          if c = CHR ''&'' \<and> take 4 cs = ''amp;'' then CHR ''&'' # unescape (drop 4 cs)
          else if c = CHR ''&'' \<and> take 4 cs = ''#39;'' then CHR 0x27 # unescape (drop 4 cs)
          else if c = CHR ''&'' \<and> take 3 cs = ''lt;'' then CHR ''<'' # unescape (drop 3 cs)
          else if c = CHR ''&'' \<and> take 3 cs = ''gt;'' then CHR ''>'' # unescape (drop 3 cs)
          else if c = CHR ''&'' \<and> take 4 cs = ''#34;'' then CHR 0x22 # unescape (drop 4 cs)
          else c # unescape cs)"
  by pat_completeness auto
termination
  by (relation "measure length") auto

declare unescape.simps [simp del]

text \<open>
  The output as a sequence of pieces: a piece is a literal fragment of the generator's
  own template, written as it is, or a string taken from the tree (a name or a URL),
  written escaped. \<open>templatesOf\<close> and \<open>fieldsOf\<close> list the pieces of either kind in the
  order of the sequence.
\<close>

datatype piece = Template string | Field string

fun pieceText :: "piece \<Rightarrow> string" where
  "pieceText (Template t) = t"
| "pieceText (Field s) = EscapeString s"

definition piecesText :: "piece list \<Rightarrow> string" where
  "piecesText ps = concat (map pieceText ps)"

fun templatesOf :: "piece list \<Rightarrow> string list" where
  "templatesOf [] = []"
| "templatesOf (Template t # ps) = t # templatesOf ps"
| "templatesOf (Field s # ps) = templatesOf ps"

fun fieldsOf :: "piece list \<Rightarrow> string list" where
  "fieldsOf [] = []"
| "fieldsOf (Template t # ps) = fieldsOf ps"
| "fieldsOf (Field s # ps) = s # fieldsOf ps"

text \<open>
  The pieces of a link, of the links of a folder, of a folder, of a list of folders and of
  the whole document, in the specification's words: every name and every URL is a field,
  and everything else is one of the seventeen literal fragments of \<open>templates\<close>.
  \<open>folderFields\<close> lists the names and URLs of a folder: its name, then the URL and the
  name of each link, then those of each subfolder.
\<close>

definition linkPieces :: "Link \<Rightarrow> piece list" where
  "linkPieces lnk =
     [Template ''<dt>'', Template (''<a href='' @ [CHR 0x22]), Field (URL lnk),
      Template ([CHR 0x22] @ ''>''), Field (Name lnk), Template ''</a>'', Template ''</dt>'']"

definition linksPieces :: "Link list \<Rightarrow> piece list" where
  "linksPieces links =
     (if links = [] then []
      else Template ''<dl>'' # concat (map linkPieces links) @ [Template ''</dl>''])"

fun folderPieces :: "Folder \<Rightarrow> piece list" where
  "folderPieces (Folder nd links folders) =
     [Template ''<h4>'', Field (Name nd), Template ''</h4>'']
     @ linksPieces links
     @ (if folders = [] then []
        else Template ''<ul>''
             # concat (map (\<lambda>f. Template ''<li>'' # folderPieces f @ [Template ''</li>'']) folders)
             @ [Template ''</ul>''])"

definition listPieces :: "Folder list \<Rightarrow> piece list" where
  "listPieces folders =
     (if folders = [] then []
      else Template ''<ul>''
           # concat (map (\<lambda>f. Template ''<li>'' # folderPieces f @ [Template ''</li>'']) folders)
           @ [Template ''</ul>''])"

definition documentPieces :: "Folder list \<Rightarrow> piece list" where
  "documentPieces folders =
     [Template htmlHeader, Template ''<body>''] @ listPieces folders
     @ [Template ''</body>'', Template (''</html>'' @ [CHR 0x0A])]"

definition templates :: "string list" where
  "templates =
     [htmlHeader, ''<body>'', ''</body>'', ''</html>'' @ [CHR 0x0A], ''<ul>'', ''</ul>'',
      ''<li>'', ''</li>'', ''<h4>'', ''</h4>'', ''<dl>'', ''</dl>'', ''<dt>'', ''</dt>'',
      ''<a href='' @ [CHR 0x22], [CHR 0x22] @ ''>'', ''</a>'']"

fun folderFields :: "Folder \<Rightarrow> string list" where
  "folderFields (Folder nd links folders) =
     Name nd # concat (map (\<lambda>lnk. [URL lnk, Name lnk]) links)
     @ concat (map folderFields folders)"

text \<open>
  What a value held under a key adds to a folder when the dispatcher accepts it: a link,
  or a folder (a typed one, or the unlabeled one of a mapping with no type).
\<close>

definition linkAt :: "string \<Rightarrow> json \<Rightarrow> Link option" where
  "linkAt key v =
     (case v of
        JObject node \<Rightarrow>
          (if map_of node ''type'' = Some (JString ''url'') then
             (case makeLink key node of Inr lnk \<Rightarrow> Some lnk | Inl _ \<Rightarrow> None)
           else None)
      | _ \<Rightarrow> None)"

definition folderAt :: "string \<Rightarrow> json \<Rightarrow> Folder option" where
  "folderAt key v =
     (case v of
        JObject node \<Rightarrow>
          (if map_of node ''type'' = Some (JString ''folder'') then
             (case makeChildFolder key node of Inr child \<Rightarrow> Some child | Inl _ \<Rightarrow> None)
           else if map_of node ''type'' = None then
             (case makeRootFolder key node of Inr child \<Rightarrow> Some child | Inl _ \<Rightarrow> None)
           else None)
      | _ \<Rightarrow> None)"

text \<open>
  The values that the dispatcher takes for a link, and those that carry a type tag.
\<close>

definition isUrl :: "json \<Rightarrow> bool" where
  "isUrl v = (case v of JObject node \<Rightarrow> map_of node ''type'' = Some (JString ''url'') | _ \<Rightarrow> False)"

definition isTyped :: "json \<Rightarrow> bool" where
  "isTyped v = (case v of JObject node \<Rightarrow> map_of node ''type'' \<noteq> None | _ \<Rightarrow> False)"

section \<open>The time stamp decoder\<close>

lemma wrap64_id: "- (2 ^ 63) \<le> x \<Longrightarrow> x < 2 ^ 63 \<Longrightarrow> wrap64 x = x"
  by (simp add: wrap64_def)

lemma wrap32_id: "- (2 ^ 31) \<le> x \<Longrightarrow> x < 2 ^ 31 \<Longrightarrow> wrap32 x = x"
  by (simp add: wrap32_def)

lemma quo_nonneg: "0 \<le> a \<Longrightarrow> 0 < b \<Longrightarrow> quo a b = a div b"
  by (cases "a = 0") (simp_all add: quo_def)

lemma rem_nonneg: "0 \<le> a \<Longrightarrow> 0 < b \<Longrightarrow> rem a b = a mod b"
  by (simp add: rem_def quo_nonneg minus_mult_div_eq_mod)

text \<open>
  \<^verbatim>\<open>Add\<close> is exact, and keeps the time normalised, for a duration that is not negative
  on a time whose seconds are far from the end of the \<^verbatim>\<open>int64\<close> range.
\<close>

lemma Time_Add_exact:
  assumes d: "0 \<le> d" "d < 2 ^ 63"
    and n: "0 \<le> nsec t" "nsec t < 1000000000"
    and s: "0 \<le> sec t" "sec t < 2 ^ 62"
  shows "nanos (Time_Add t d) = nanos t + d"
    and "0 \<le> nsec (Time_Add t d)" and "nsec (Time_Add t d) < 1000000000"
    and "0 \<le> sec (Time_Add t d)"
proof -
  define q where "q = d div 1000000000"
  define m where "m = d mod 1000000000"
  have dq: "d = q * 1000000000 + m"
    by (simp add: q_def m_def)
  have m: "0 \<le> m" "m < 1000000000"
    by (simp_all add: m_def)
  have q: "0 \<le> q" "q < 2 ^ 62"
    using d dq m by simp_all
  have quo: "quo d 1000000000 = q" and rem: "rem d 1000000000 = m"
    using d by (simp_all add: quo_nonneg rem_nonneg q_def m_def)
  have w1: "wrap64 (sec t + q) = sec t + q"
    using s q by (intro wrap64_id) simp_all
  have w2: "wrap32 m = m"
    using m by (intro wrap32_id) simp_all
  have w3: "wrap32 (nsec t + m) = nsec t + m"
    using n m by (intro wrap32_id) simp_all
  have w4: "wrap64 (sec t + q + 1) = sec t + q + 1"
    using s q by (intro wrap64_id) simp_all
  have w5: "wrap32 (nsec t + m - 1000000000) = nsec t + m - 1000000000"
    using n m by (intro wrap32_id) simp_all
  have eq: "Time_Add t d =
      (if nsec t + m \<ge> 1000000000 then \<lparr>sec = sec t + q + 1, nsec = nsec t + m - 1000000000\<rparr>
       else \<lparr>sec = sec t + q, nsec = nsec t + m\<rparr>)"
    using n m by (simp add: Time_Add_def quo rem w1 w2 w3 w4 w5 Let_def)
  have "nanos (Time_Add t d) = nanos t + (q * 1000000000 + m)"
    unfolding eq by (simp add: nanos_def)
  then show "nanos (Time_Add t d) = nanos t + d"
    by (simp only: dq [symmetric])
  show "0 \<le> nsec (Time_Add t d)" using n m by (simp add: eq)
  show "nsec (Time_Add t d) < 1000000000" using n m by (simp add: eq)
  show "0 \<le> sec (Time_Add t d)" using s q by (simp add: eq)
qed

text \<open>The invariant of the loop: the instant plus what is left of \<open>val\<close> stays the same.\<close>

lemma addCenturies_exact:
  assumes "0 \<le> val" "val < 2 ^ 63"
    and "0 \<le> nsec ts" "nsec ts < 1000000000" "0 \<le> sec ts"
    and "nanos ts + 1000 * val < 2 ^ 91"
    and "addCenturies val ts = (r, ts')"
  shows "0 \<le> r \<and> r < twoCenturies \<and> nanos ts' + 1000 * r = nanos ts + 1000 * val
         \<and> 0 \<le> nsec ts' \<and> nsec ts' < 1000000000 \<and> 0 \<le> sec ts'"
  using assms
proof (induction val ts rule: addCenturies.induct)
  case (1 val ts)
  show ?case
  proof (cases "twoCenturies \<le> val")
    case False
    with "1.prems" show ?thesis
      by (simp add: addCenturies.simps [of val ts])
  next
    case True
    have tc: "twoCenturies = 6307200000000000"
      by (simp add: twoCenturies_def)
    have sec_small: "sec ts < 2 ^ 62"
      using "1.prems" by (simp add: nanos_def)
    have w: "wrap64 (val - twoCenturies) = val - twoCenturies"
      using True "1.prems" tc by (intro wrap64_id) simp_all
    note A = Time_Add_exact [of "twoCenturies * 1000" ts]
    have d: "0 \<le> twoCenturies * 1000" "twoCenturies * 1000 < 2 ^ 63"
      by (simp_all add: tc)
    have n': "nanos (Time_Add ts (twoCenturies * 1000)) = nanos ts + twoCenturies * 1000"
      using A(1) d "1.prems" sec_small by simp
    have rec: "addCenturies (val - twoCenturies) (Time_Add ts (twoCenturies * 1000)) = (r, ts')"
      using "1.prems" True w by (simp add: addCenturies.simps [of val ts])
    have "0 \<le> r \<and> r < twoCenturies \<and>
        nanos ts' + 1000 * r = nanos (Time_Add ts (twoCenturies * 1000)) + 1000 * (val -
            twoCenturies)
         \<and> 0 \<le> nsec ts' \<and> nsec ts' < 1000000000 \<and> 0 \<le> sec ts'"
      using "1.IH" [OF True] True "1.prems" w A d sec_small n' rec tc by simp
    then show ?thesis
      by (simp add: n')
  qed
qed

lemma nanos_unique:
  assumes "nanos T = a * 1000000000 + b" "0 \<le> nsec T" "nsec T < 1000000000"
    "0 \<le> b" "b < 1000000000"
  shows "T = \<lparr>sec = a, nsec = b\<rparr>"
proof -
  have eq: "sec T * 1000000000 + nsec T = a * 1000000000 + b"
    using assms(1) by (simp add: nanos_def)
  have "(sec T * 1000000000 + nsec T) div 1000000000 = sec T"
    using assms(2,3) by simp
  moreover have "(a * 1000000000 + b) div 1000000000 = a"
    using assms(4,5) by simp
  ultimately have "sec T = a"
    using eq by simp
  with eq have "sec T = a \<and> nsec T = b"
    by simp
  then show ?thesis by simp
qed

text \<open>The decoder on a value that is not negative, with the facts of its loop.\<close>

lemma decodeTimeStamp_loop:
  assumes "0 \<le> t" "t < 2 ^ 63"
  shows "decodeTimeStamp t =
           \<lparr>sec = sec googleEpoch + t div 1000000, nsec = 1000 * (t mod 1000000)\<rparr>
         \<and> twoCenturies * 1000 < 2 ^ 63
         \<and> 0 \<le> fst (addCenturies t googleEpoch)
         \<and> fst (addCenturies t googleEpoch) < twoCenturies
         \<and> wrap64 (fst (addCenturies t googleEpoch) * 1000)
             = fst (addCenturies t googleEpoch) * 1000"
proof -
  obtain r ts where loop: "addCenturies t googleEpoch = (r, ts)"
    by (cases "addCenturies t googleEpoch")
  have tc: "twoCenturies = 6307200000000000"
    by (simp add: twoCenturies_def)
  have epoch: "nanos googleEpoch = 50491123200000000000" "nsec googleEpoch = 0"
    "sec googleEpoch = 50491123200"
    by (simp_all add: googleEpoch_def nanos_def)
  have inv: "0 \<le> r \<and> r < twoCenturies \<and> nanos ts + 1000 * r = nanos googleEpoch + 1000 * t
         \<and> 0 \<le> nsec ts \<and> nsec ts < 1000000000 \<and> 0 \<le> sec ts"
    using assms epoch by (intro addCenturies_exact [OF _ _ _ _ _ _ loop]) simp_all
  have small: "sec ts < 2 ^ 62"
    using inv assms epoch by (simp add: nanos_def)
  have w: "wrap64 (r * 1000) = r * 1000"
    using inv tc by (intro wrap64_id) simp_all
  have d: "0 \<le> r * 1000" "r * 1000 < 2 ^ 63"
    using inv tc by simp_all
  have res: "decodeTimeStamp t = Time_Add ts (r * 1000)"
    by (simp add: decodeTimeStamp_def loop w)
  note A = Time_Add_exact [OF d, of ts]
  have n: "nanos (decodeTimeStamp t) = nanos googleEpoch + 1000 * t"
    using A(1) inv small by (simp add: res)
  define q where "q = t div 1000000"
  define m where "m = t mod 1000000"
  have "t = q * 1000000 + m"
    by (simp add: q_def m_def)
  then have "1000 * t = q * 1000000000 + 1000 * m"
    by simp
  then have split: "1000 * t = (t div 1000000) * 1000000000 + 1000 * (t mod 1000000)"
    by (simp only: q_def m_def)
  have n': "nanos (decodeTimeStamp t) =
      (sec googleEpoch + t div 1000000) * 1000000000 + 1000 * (t mod 1000000)"
    using n split epoch by (simp add: algebra_simps)
  have "decodeTimeStamp t =
      \<lparr>sec = sec googleEpoch + t div 1000000, nsec = 1000 * (t mod 1000000)\<rparr>"
    using A(2,3) inv small by (intro nanos_unique [OF n']) (simp_all add: res)
  then show ?thesis
    using inv w tc by (simp add: loop)
qed

lemma decodeTimeStamp_value:
  assumes "0 \<le> t" "t < 2 ^ 63"
  shows "decodeTimeStamp t = \<lparr>sec = 50491123200 + t div 1000000, nsec = 1000 * (t mod 1000000)\<rparr>"
  using decodeTimeStamp_loop [OF assms] by (simp add: googleEpoch_def)

text \<open>
  C2. For every \<open>t\<close> from 0 to the largest \<^verbatim>\<open>int64\<close>, the decoder returns the instant
  \<open>t\<close> microseconds after 1601-01-01 00:00:00 UTC, as the exact sum has it: \<open>t div 10^6\<close>
  seconds and \<open>t mod 10^6\<close> microseconds after the epoch. Nothing overflows on the way:
  the chunk in nanoseconds fits an \<^verbatim>\<open>int64\<close>, and what the loop leaves of \<open>t\<close> is below
  one chunk, so that its product with 1000 is the exact one.
\<close>

theorem decodeTimeStamp_exact:
  assumes "0 \<le> t" "t < 2 ^ 63"
  shows "decodeTimeStamp t =
           \<lparr>sec = sec googleEpoch + t div 1000000, nsec = 1000 * (t mod 1000000)\<rparr>
         \<and> twoCenturies * 1000 < 2 ^ 63
         \<and> 0 \<le> fst (addCenturies t googleEpoch)
         \<and> fst (addCenturies t googleEpoch) < twoCenturies
         \<and> wrap64 (fst (addCenturies t googleEpoch) * 1000)
             = fst (addCenturies t googleEpoch) * 1000"
  using assms by (rule decodeTimeStamp_loop)

text \<open>
  At 9300000000000000 microseconds, nearly 295 years, the product with 1000 no longer
  fits an \<^verbatim>\<open>int64\<close>; the decoder returns 9300000000 seconds after the epoch.
\<close>

theorem decodeTimeStamp_exact_witness:
  "(0::int) \<le> 9300000000000000 \<and> (9300000000000000::int) < 2 ^ 63
   \<and> decodeTimeStamp 9300000000000000 = \<lparr>sec = 59791123200, nsec = 0\<rparr>
   \<and> wrap64 (9300000000000000 * 1000) \<noteq> 9300000000000000 * 1000"
  using decodeTimeStamp_exact [of 9300000000000000]
  by (simp add: googleEpoch_def wrap64_def)

section \<open>The data converters\<close>






















section \<open>The tree builder\<close>

text \<open>Facts for running the readers on a concrete mapping.\<close>

lemmas read_eval = readTimeStamp_def readInt_def readString_def ParseInt_def ParseUint_def
  isDigit_def digitVal_def decodeTimeStamp_value Let_def

text \<open>
  C8. The dispatcher \<^verbatim>\<open>add\<close>, on every key and value: a value that is not a mapping fails
  with the unexpected-node-type error at that key; a \<^verbatim>\<open>type\<close> that is not a string fails
  with the type-tag error; the type \<^verbatim>\<open>"folder"\<close> builds a folder with
  \<^verbatim>\<open>makeChildFolder\<close> and appends it to the folders, the type \<^verbatim>\<open>"url"\<close> builds a link
  with \<^verbatim>\<open>makeLink\<close> and appends it to the links, either one's error being returned as it
  is; any other type fails with the unknown-type error that carries the tag.
\<close>

theorem add_dispatch:
  "((\<forall>node. item \<noteq> JObject node) \<longrightarrow>
      add root key item = Inl (ParserError key UnexpectedNodeType))
 \<and> (map_of node ''type'' = Some t \<and> (\<forall>tt. t \<noteq> JString tt) \<longrightarrow>
      add root key (JObject node) = Inl (ParserError key TypeTagNotString))
 \<and> (map_of node ''type'' = Some (JString ''folder'') \<and> makeChildFolder key node = Inr child \<longrightarrow>
      add root key (JObject node)
        = Inr (Folder (folderNode root) (Links root) (Folders root @ [child])))
 \<and> (map_of node ''type'' = Some (JString ''folder'') \<and> makeChildFolder key node = Inl err \<longrightarrow>
      add root key (JObject node) = Inl err)
 \<and> (map_of node ''type'' = Some (JString ''url'') \<and> makeLink key node = Inr lnk \<longrightarrow>
      add root key (JObject node)
        = Inr (Folder (folderNode root) (Links root @ [lnk]) (Folders root)))
 \<and> (map_of node ''type'' = Some (JString ''url'') \<and> makeLink key node = Inl err \<longrightarrow>
      add root key (JObject node) = Inl err)
 \<and> (map_of node ''type'' = Some (JString tt) \<and> tt \<noteq> ''folder'' \<and> tt \<noteq> ''url'' \<longrightarrow>
      add root key (JObject node) = Inl (ParserError key (UnknownType tt)))"
proof -
  have a: "(\<forall>node. item \<noteq> JObject node) \<longrightarrow>
      add root key item = Inl (ParserError key UnexpectedNodeType)"
    by (cases item) (simp_all add: add.simps)
  have b: "map_of node ''type'' = Some t \<and> (\<forall>tt. t \<noteq> JString tt) \<longrightarrow>
      add root key (JObject node) = Inl (ParserError key TypeTagNotString)"
    by (cases t) (simp_all add: add.simps)
  show ?thesis
    using a b by (simp add: add.simps addFolder_def addLink_def)
qed

theorem add_dispatch_witness:
  "add (Folder \<lparr>Name = ''r'', Key = ''r'', Added = zeroTime, Modified = zeroTime\<rparr> [] []) ''#2''
      (JString ''x'') = Inl (ParserError ''#2'' UnexpectedNodeType)
 \<and> add (Folder \<lparr>Name = ''r'', Key = ''r'', Added = zeroTime, Modified = zeroTime\<rparr> [] []) ''#0''
     (JObject [(''type'', JNull)]) = Inl (ParserError ''#0'' TypeTagNotString)
 \<and> add (Folder \<lparr>Name = ''r'', Key = ''r'', Added = zeroTime, Modified = zeroTime\<rparr> [] []) ''#0''
     (JObject [(''type'', JString ''folder''), (''name'', JString ''F''), (''date_added'', JString
     ''0'')]) = Inr (Folder (folderNode (Folder \<lparr>Name = ''r'', Key = ''r'', Added = zeroTime,
     Modified = zeroTime\<rparr> [] [])) [] [Folder \<lparr>Name = ''F'', Key = ''#0'', Added = \<lparr>sec =
     50491123200, nsec = 0\<rparr>, Modified = zeroTime\<rparr> [] []])
 \<and> add (Folder \<lparr>Name = ''r'', Key = ''r'', Added = zeroTime, Modified = zeroTime\<rparr> [] []) ''#0''
     (JObject [(''type'', JString ''folder'')]) = Inl (ParserError ''#0'' (TagNotFound ''name''))
 \<and> add (Folder \<lparr>Name = ''r'', Key = ''r'', Added = zeroTime, Modified = zeroTime\<rparr> [] []) ''#0''
     (JObject [(''type'', JString ''url''), (''name'', JString ''L''), (''date_added'', JString
     ''0''), (''url'', JString ''u'')]) = Inr (Folder (folderNode (Folder \<lparr>Name = ''r'', Key =
     ''r'', Added = zeroTime, Modified = zeroTime\<rparr> [] [])) [\<lparr>Name = ''L'', Key = ''#0'', Added =
     \<lparr>sec = 50491123200, nsec = 0\<rparr>, Modified = zeroTime, URL = ''u''\<rparr>] [])
 \<and> add (Folder \<lparr>Name = ''r'', Key = ''r'', Added = zeroTime, Modified = zeroTime\<rparr> [] []) ''#0''
     (JObject [(''type'', JString ''url'')]) = Inl (ParserError ''#0'' (TagNotFound ''name''))
 \<and> add (Folder \<lparr>Name = ''r'', Key = ''r'', Added = zeroTime, Modified = zeroTime\<rparr> [] []) ''#0''
     (JObject [(''type'', JString ''separator'')]) = Inl (ParserError ''#0'' (UnknownType
     ''separator''))"
proof -
  let ?R = "Folder \<lparr>Name = ''r'', Key = ''r'', Added = zeroTime, Modified = zeroTime\<rparr> [] []"
  let ?NF = "[(''type'', JString ''folder''), (''name'', JString ''F''), (''date_added'', JString
      ''0'')]"
  let ?NL = "[(''type'', JString ''url''), (''name'', JString ''L''), (''date_added'', JString
      ''0''), (''url'', JString ''u'')]"
  let ?F = "Folder \<lparr>Name = ''F'', Key = ''#0'', Added = \<lparr>sec = 50491123200, nsec = 0\<rparr>, Modified =
      zeroTime\<rparr> [] []"
  let ?L = "\<lparr>Name = ''L'', Key = ''#0'', Added = \<lparr>sec = 50491123200, nsec = 0\<rparr>, Modified = zeroTime,
      URL = ''u''\<rparr>"
  have c1: "add ?R ''#2'' (JString ''x'') = Inl (ParserError ''#2'' UnexpectedNodeType)"
    using add_dispatch [where root = ?R and item = "JString ''x''" and key = "''#2''", THEN
        conjunct1]
    by (simp)
  have c2: "add ?R ''#0'' (JObject [(''type'', JNull)]) = Inl (ParserError ''#0'' TypeTagNotString)"
    using add_dispatch [where root = ?R and node = "[(''type'', JNull)]" and t = JNull and key =
        "''#0''", THEN conjunct2, THEN conjunct1]
    by (simp)
  have c3: "add ?R ''#0'' (JObject ?NF) = Inr (Folder (folderNode ?R) [] [?F])"
    using add_dispatch [where root = ?R and node = ?NF and key = "''#0''" and child = ?F, THEN
        conjunct2, THEN conjunct2, THEN conjunct1]
    by (simp add: makeChildFolder.simps Node_read_def read_eval)
  have c4: "add ?R ''#0'' (JObject [(''type'', JString ''folder'')]) = Inl (ParserError ''#0''
      (TagNotFound ''name''))"
    using add_dispatch [where root = ?R and node = "[(''type'', JString ''folder'')]" and key =
        "''#0''" and err = "ParserError ''#0'' (TagNotFound ''name'')", THEN conjunct2, THEN
        conjunct2, THEN conjunct2, THEN conjunct1]
    by (simp add: makeChildFolder.simps Node_read_def mapError_def read_eval)
  have c5: "add ?R ''#0'' (JObject ?NL) = Inr (Folder (folderNode ?R) [?L] [])"
    using add_dispatch [where root = ?R and node = ?NL and key = "''#0''" and lnk = ?L, THEN
        conjunct2, THEN conjunct2, THEN conjunct2, THEN conjunct2, THEN conjunct1]
    by (simp add: makeLink_def Node_read_def read_eval)
  have c6: "add ?R ''#0'' (JObject [(''type'', JString ''url'')]) = Inl (ParserError ''#0''
      (TagNotFound ''name''))"
    using add_dispatch [where root = ?R and node = "[(''type'', JString ''url'')]" and key =
        "''#0''" and err = "ParserError ''#0'' (TagNotFound ''name'')", THEN conjunct2, THEN
        conjunct2, THEN conjunct2, THEN conjunct2, THEN conjunct2, THEN conjunct1]
    by (simp add: makeLink_def Node_read_def mapError_def read_eval)
  have c7: "add ?R ''#0'' (JObject [(''type'', JString ''separator'')]) = Inl (ParserError ''#0''
      (UnknownType ''separator''))"
    using add_dispatch [where root = ?R and node = "[(''type'', JString ''separator'')]" and key =
        "''#0''" and tt = "''separator''", THEN conjunct2, THEN conjunct2, THEN conjunct2, THEN
        conjunct2, THEN conjunct2, THEN conjunct2]
    by (simp)
  from c1 c2 c3 c4 c5 c6 c7 show ?thesis
    by simp
qed

text \<open>What \<^verbatim>\<open>readTimeStamp\<close> returns, by what the mapping holds under the key.\<close>

lemma readTimeStamp_absent:
  "map_of data key = None \<Longrightarrow> readTimeStamp key data = Inl (KeyNotFoundError key)"
  by (simp add: readTimeStamp_def readInt_def readString_def)

lemma readTimeStamp_not_string:
  "map_of data key = Some v \<Longrightarrow> (\<forall>s. v \<noteq> JString s) \<Longrightarrow>
   readTimeStamp key data = Inl (ErrorString (TagNotString key))"
  by (cases v) (simp_all add: readTimeStamp_def readInt_def readString_def)

lemma readTimeStamp_string:
  "map_of data key = Some (JString s) \<Longrightarrow>
   readTimeStamp key data =
     (case ParseInt s 64 of
        None \<Rightarrow> Inl (ErrorString (NotAnInteger key s))
      | Some t \<Rightarrow> Inr (decodeTimeStamp t))"
  by (simp add: readTimeStamp_def readInt_def readString_def split: option.splits)

text \<open>
  C4. For the mapping of a link or of a typed folder whose \<^verbatim>\<open>name\<close> is a string: when
  \<^verbatim>\<open>date_added\<close> is absent, reading the common fields fails with the key-not-found error
  for \<^verbatim>\<open>date_added\<close>, which \<^verbatim>\<open>makeLink\<close> and \<^verbatim>\<open>makeChildFolder\<close> return with the node's own
  key as its path. When \<^verbatim>\<open>date_added\<close> is well-formed: an absent \<^verbatim>\<open>date_modified\<close> is no
  error, and the modified time is left the zero \<^verbatim>\<open>Time\<close>; a \<^verbatim>\<open>date_modified\<close> that is not a
  string, or is a string that is no 64-bit integer, makes reading fail, again with the
  node's key as the path; a well-formed one is decoded.
\<close>

theorem Node_read_dates:
  assumes "readString ''name'' data = Inr name"
  shows
  "(map_of data ''date_added'' = None \<longrightarrow>
      Node_read key data = Inl (KeyNotFoundError ''date_added'')
    \<and> makeLink key data = Inl (ParserError key (TagNotFound ''date_added''))
    \<and> makeChildFolder key data = Inl (ParserError key (TagNotFound ''date_added'')))
 \<and> (readTimeStamp ''date_added'' data = Inr added \<longrightarrow>
      (map_of data ''date_modified'' = None \<longrightarrow>
         Node_read key data = Inr \<lparr>Name = name, Key = key, Added = added, Modified = zeroTime\<rparr>
       \<and> (readString ''url'' data = Inr url \<longrightarrow>
            makeLink key data =
              Inr \<lparr>Name = name, Key = key, Added = added, Modified = zeroTime, URL = url\<rparr>)
       \<and> (map_of data ''children'' = None \<longrightarrow>
            makeChildFolder key data =
              Inr (Folder \<lparr>Name = name, Key = key, Added = added, Modified = zeroTime\<rparr> [] [])))
    \<and> (map_of data ''date_modified'' = Some v \<and> (\<forall>s. v \<noteq> JString s) \<longrightarrow>
         Node_read key data = Inl (ErrorString (TagNotString ''date_modified''))
       \<and> makeLink key data = Inl (ParserError key (TagNotString ''date_modified''))
       \<and> makeChildFolder key data = Inl (ParserError key (TagNotString ''date_modified'')))
    \<and> (map_of data ''date_modified'' = Some (JString s) \<and> ParseInt s 64 = None \<longrightarrow>
         Node_read key data = Inl (ErrorString (NotAnInteger ''date_modified'' s))
       \<and> makeLink key data = Inl (ParserError key (NotAnInteger ''date_modified'' s))
       \<and> makeChildFolder key data = Inl (ParserError key (NotAnInteger ''date_modified'' s)))
    \<and> (map_of data ''date_modified'' = Some (JString s) \<and> ParseInt s 64 = Some t \<longrightarrow>
         Node_read key data =
           Inr \<lparr>Name = name, Key = key, Added = added, Modified = decodeTimeStamp t\<rparr>))"
proof -
  have a: "map_of data ''date_added'' = None \<Longrightarrow>
      Node_read key data = Inl (KeyNotFoundError ''date_added'')"
    using assms by (simp add: Node_read_def readTimeStamp_absent)
  have b: "readTimeStamp ''date_added'' data = Inr added \<Longrightarrow>
      map_of data ''date_modified'' = None \<Longrightarrow>
      Node_read key data = Inr \<lparr>Name = name, Key = key, Added = added, Modified = zeroTime\<rparr>"
    using assms by (simp add: Node_read_def readTimeStamp_absent)
  have c: "readTimeStamp ''date_added'' data = Inr added \<Longrightarrow>
      map_of data ''date_modified'' = Some v \<Longrightarrow> (\<forall>s. v \<noteq> JString s) \<Longrightarrow>
      Node_read key data = Inl (ErrorString (TagNotString ''date_modified''))"
    using assms by (simp add: Node_read_def readTimeStamp_not_string)
  have d: "readTimeStamp ''date_added'' data = Inr added \<Longrightarrow>
      map_of data ''date_modified'' = Some (JString s) \<Longrightarrow> ParseInt s 64 = None \<Longrightarrow>
      Node_read key data = Inl (ErrorString (NotAnInteger ''date_modified'' s))"
    using assms by (simp add: Node_read_def readTimeStamp_string)
  have e: "readTimeStamp ''date_added'' data = Inr added \<Longrightarrow>
      map_of data ''date_modified'' = Some (JString s) \<Longrightarrow> ParseInt s 64 = Some t \<Longrightarrow>
      Node_read key data =
        Inr \<lparr>Name = name, Key = key, Added = added, Modified = decodeTimeStamp t\<rparr>"
    using assms by (simp add: Node_read_def readTimeStamp_string)
  show ?thesis
    using a b c d e
    by (auto simp: makeLink_def makeChildFolder.simps mapError_def)
qed

theorem Node_read_dates_witness:
  "makeLink ''#0'' [(''type'', JString ''url''), (''name'', JString ''Example''), (''url'', JString
      ''https://example.com'')] = Inl (ParserError ''#0'' (TagNotFound ''date_added''))
 \<and> makeLink ''#0'' [(''type'', JString ''url''), (''name'', JString ''Example''), (''url'', JString
     ''https://example.com''), (''date_added'', JString ''13000000000000000'')] = Inr \<lparr>Name =
     ''Example'', Key = ''#0'', Added = \<lparr>sec = 63491123200, nsec = 0\<rparr>, Modified = zeroTime, URL =
     ''https://example.com''\<rparr>
 \<and> makeLink ''#0'' [(''type'', JString ''url''), (''name'', JString ''Example''), (''url'', JString
     ''https://example.com''), (''date_added'', JString ''13000000000000000''), (''date_modified'',
     JString ''yesterday'')] = Inl (ParserError ''#0'' (NotAnInteger ''date_modified''
     ''yesterday''))
 \<and> makeLink ''#0'' [(''type'', JString ''url''), (''name'', JString ''Example''), (''url'', JString
     ''https://example.com''), (''date_added'', JString ''13000000000000000''), (''date_modified'',
     JNull)] = Inl (ParserError ''#0'' (TagNotString ''date_modified''))
 \<and> Node_read ''#0'' [(''type'', JString ''folder''), (''name'', JString ''Example''),
     (''date_added'', JString ''13000000000000000''), (''date_modified'', JString ''0'')] = Inr
     \<lparr>Name = ''Example'', Key = ''#0'', Added = \<lparr>sec = 63491123200, nsec = 0\<rparr>, Modified = \<lparr>sec =
     50491123200, nsec = 0\<rparr>\<rparr>"
proof -
  let ?T = "\<lparr>sec = 63491123200, nsec = 0\<rparr>"
  have n1: "readString ''name'' [(''type'', JString ''url''), (''name'', JString ''Example''),
      (''url'', JString ''https://example.com'')] = Inr ''Example''"
    by (simp add: readString_def)
  have c1: "makeLink ''#0'' [(''type'', JString ''url''), (''name'', JString ''Example''), (''url'',
      JString ''https://example.com'')] = Inl (ParserError ''#0'' (TagNotFound ''date_added''))"
    by (rule Node_read_dates [OF n1, where key = "''#0''", THEN conjunct1, THEN mp, THEN conjunct2,
        THEN conjunct1]) (simp_all add: read_eval)
  have n2: "readString ''name'' [(''type'', JString ''url''), (''name'', JString ''Example''),
      (''url'', JString ''https://example.com''), (''date_added'', JString ''13000000000000000'')] =
      Inr ''Example''"
    by (simp add: readString_def)
  have c2: "makeLink ''#0'' [(''type'', JString ''url''), (''name'', JString ''Example''), (''url'',
      JString ''https://example.com''), (''date_added'', JString ''13000000000000000'')] = Inr \<lparr>Name
      = ''Example'', Key = ''#0'', Added = \<lparr>sec = 63491123200, nsec = 0\<rparr>, Modified = zeroTime, URL =
      ''https://example.com''\<rparr>"
    by (rule Node_read_dates [OF n2, where key = "''#0''" and added = ?T and url =
        "''https://example.com''", THEN conjunct2, THEN mp, THEN conjunct1, THEN mp, THEN conjunct2,
        THEN conjunct1, THEN mp]) (simp_all add: read_eval)
  have n3: "readString ''name'' [(''type'', JString ''url''), (''name'', JString ''Example''),
      (''url'', JString ''https://example.com''), (''date_added'', JString ''13000000000000000''),
      (''date_modified'', JString ''yesterday'')] = Inr ''Example''"
    by (simp add: readString_def)
  have c3: "makeLink ''#0'' [(''type'', JString ''url''), (''name'', JString ''Example''), (''url'',
      JString ''https://example.com''), (''date_added'', JString ''13000000000000000''),
      (''date_modified'', JString ''yesterday'')] = Inl (ParserError ''#0'' (NotAnInteger
      ''date_modified'' ''yesterday''))"
    by (rule Node_read_dates [OF n3, where key = "''#0''" and added = ?T and s = "''yesterday''",
        THEN conjunct2, THEN mp, THEN conjunct2, THEN conjunct2, THEN conjunct1, THEN mp, THEN
        conjunct2, THEN conjunct1]) (simp_all add: read_eval)
  have n4: "readString ''name'' [(''type'', JString ''url''), (''name'', JString ''Example''),
      (''url'', JString ''https://example.com''), (''date_added'', JString ''13000000000000000''),
      (''date_modified'', JNull)] = Inr ''Example''"
    by (simp add: readString_def)
  have c4: "makeLink ''#0'' [(''type'', JString ''url''), (''name'', JString ''Example''), (''url'',
      JString ''https://example.com''), (''date_added'', JString ''13000000000000000''),
      (''date_modified'', JNull)] = Inl (ParserError ''#0'' (TagNotString ''date_modified''))"
    by (rule Node_read_dates [OF n4, where key = "''#0''" and added = ?T and v = JNull, THEN
        conjunct2, THEN mp, THEN conjunct2, THEN conjunct1, THEN mp, THEN conjunct2, THEN
        conjunct1]) (simp_all add: read_eval)
  have n5: "readString ''name'' [(''type'', JString ''folder''), (''name'', JString ''Example''),
      (''date_added'', JString ''13000000000000000''), (''date_modified'', JString ''0'')] = Inr
      ''Example''"
    by (simp add: readString_def)
  have c5: "Node_read ''#0'' [(''type'', JString ''folder''), (''name'', JString ''Example''),
      (''date_added'', JString ''13000000000000000''), (''date_modified'', JString ''0'')] = Inr
      \<lparr>Name = ''Example'', Key = ''#0'', Added = \<lparr>sec = 63491123200, nsec = 0\<rparr>, Modified = \<lparr>sec =
      50491123200, nsec = 0\<rparr>\<rparr>"
    using Node_read_dates [OF n5, where key = "''#0''" and added = ?T and s = "''0''" and t = 0,
        THEN conjunct2, THEN mp, THEN conjunct2, THEN conjunct2, THEN conjunct2, THEN mp]
    by (simp add: read_eval)
  from c1 c2 c3 c4 c5 show ?thesis
    by simp
qed

subsection \<open>Paths of errors\<close>

lemma slashJoin_Cons: "ks \<noteq> [] \<Longrightarrow> slashJoin (k # ks) = k @ ''/'' @ slashJoin ks"
  by (cases ks) simp_all

lemma dropEmptyTail_Cons:
  "dropEmptyTail (k # ks) =
     (if dropEmptyTail ks = [] then (if k = [] then [] else [k]) else k # dropEmptyTail ks)"
  by (simp add: dropEmptyTail_def dropWhile_append)

lemma dropEmptyTail_Nil: "dropEmptyTail [] = []"
  by (simp add: dropEmptyTail_def)

lemma dropEmptyTail_last: "dropEmptyTail ks \<noteq> [] \<Longrightarrow> last (dropEmptyTail ks) \<noteq> []"
  by (induction ks) (auto simp: dropEmptyTail_Cons dropEmptyTail_Nil split: if_splits)

lemma slashJoin_nonempty: "ks \<noteq> [] \<Longrightarrow> last ks \<noteq> [] \<Longrightarrow> slashJoin ks \<noteq> []"
  by (induction ks rule: slashJoin.induct) auto

lemma dropEmptyTail_id:
  assumes "ks \<noteq> []" "last ks \<noteq> []"
  shows "dropEmptyTail ks = ks"
proof -
  obtain x xs where r: "rev ks = x # xs"
    using assms(1) by (cases "rev ks") simp_all
  have "hd (rev ks) = last ks"
    using assms(1) by (simp add: hd_rev)
  with r assms(2) have "x \<noteq> []"
    by simp
  with r have "dropWhile (\<lambda>k. k = []) (rev ks) = rev ks"
    by simp
  then show ?thesis
    by (simp add: dropEmptyTail_def)
qed

lemma mapError_path:
  "mapError key (ParserError (slashJoin (dropEmptyTail ks)) m)
     = ParserError (slashJoin (dropEmptyTail (key # ks))) m"
proof (cases "dropEmptyTail ks = []")
  case True
  then show ?thesis
    by (simp add: mapError_def dropEmptyTail_Cons)
next
  case False
  then have "slashJoin (dropEmptyTail ks) \<noteq> []"
    by (simp add: slashJoin_nonempty dropEmptyTail_last)
  with False show ?thesis
    by (simp add: mapError_def dropEmptyTail_Cons slashJoin_Cons)
qed

lemma path_single: "slashJoin (dropEmptyTail [key]) = key"
  by (simp add: dropEmptyTail_Cons dropEmptyTail_Nil)

lemma readString_error:
  "readString k data = Inl e \<Longrightarrow> mapError key e = ParserError key (Error e)"
  by (auto simp: readString_def mapError_def split: option.splits json.splits)

lemma readTimeStamp_error:
  "readTimeStamp k data = Inl e \<Longrightarrow> mapError key e = ParserError key (Error e)"
  by (auto simp: readTimeStamp_def readInt_def mapError_def
      split: sum.splits option.splits dest: readString_error)

lemma Node_read_error:
  "Node_read k data = Inl e \<Longrightarrow> mapError key e = ParserError key (Error e)"
  by (auto simp: Node_read_def split: sum.splits error.splits
      dest: readString_error readTimeStamp_error)

lemma Node_read_key:
  "Node_read k data = Inl e \<Longrightarrow> Node_read k' data = Inl e"
  by (auto simp: Node_read_def split: sum.splits error.splits)

lemma Node_read_key_Inr:
  "Node_read k data = Inr nd \<Longrightarrow> \<exists>nd'. Node_read k' data = Inr nd'"
  by (auto simp: Node_read_def split: sum.splits error.splits)

text \<open>
  Whether the dispatcher accepts a value does not depend on the folder it adds to.
\<close>

lemma add_Inr:
  assumes "add root key v = Inr f"
  shows "add root' key v =
           Inr (Folder (folderNode root')
                  (Links root' @ (case linkAt key v of None \<Rightarrow> [] | Some l \<Rightarrow> [l]))
                  (Folders root' @ (case folderAt key v of None \<Rightarrow> [] | Some c \<Rightarrow> [c])))"
proof (cases v)
  case (JObject node)
  show ?thesis
  proof (cases "map_of node ''type''")
    case None
    with assms JObject show ?thesis
      by (cases root')
         (auto simp: add.simps linkAt_def folderAt_def addFolder_def split: sum.splits)
  next
    case (Some t)
    with assms JObject show ?thesis
      by (cases root'; cases t)
         (auto simp: add.simps linkAt_def folderAt_def addFolder_def addLink_def
           split: sum.splits if_splits)
  qed
qed (use assms in \<open>simp_all add: add.simps\<close>)

lemma builds_add: "builds key v \<longleftrightarrow> (\<exists>f. add root key v = Inr f)"
proof
  assume "builds key v"
  then obtain f where
    "add (Folder \<lparr>Name = [], Key = [], Added = zeroTime, Modified = zeroTime\<rparr> [] []) key v = Inr f"
    by (auto simp: builds_def split: sum.splits)
  from add_Inr [OF this, of root] show "\<exists>f. add root key v = Inr f"
    by blast
next
  assume "\<exists>f. add root key v = Inr f"
  then obtain f where "add root key v = Inr f" ..
  from add_Inr [OF this,
      of "Folder \<lparr>Name = [], Key = [], Added = zeroTime, Modified = zeroTime\<rparr> [] []"]
  show "builds key v"
    by (simp add: builds_def)
qed

lemma located_here:
  "ownError item = Some m \<Longrightarrow> located key item (ParserError key m)"
  unfolding located_def using descends.here [of key item] by (metis path_single)

lemma makeLink_error:
  assumes "makeLink key node = Inl err" "map_of node ''type'' = Some (JString ''url'')"
  shows "located key (JObject node) err"
proof -
  have "\<exists>m. ownError (JObject node) = Some m \<and> err = ParserError key m"
  proof (cases "Node_read key node")
    case (Inl e)
    then have "Node_read [] node = Inl e"
      by (rule Node_read_key)
    with Inl assms show ?thesis
      by (simp add: makeLink_def ownError_def Node_read_error)
  next
    case (Inr nd)
    then obtain nd' where "Node_read [] node = Inr nd'"
      using Node_read_key_Inr by blast
    with Inr assms show ?thesis
      by (auto simp: makeLink_def ownError_def split: sum.splits dest: readString_error)
  qed
  then show ?thesis
    by (auto simp: located_here)
qed

text \<open>
  From the error to the value: an error of the builder is located below the node
  dispatched.
\<close>

lemma builder_errors:
  "makeChildFolder key node = Inl err \<Longrightarrow> map_of node ''type'' = Some (JString ''folder'') \<Longrightarrow>
     located key (JObject node) err"
  "childrenLoop key folder i cc = Inl err \<Longrightarrow>
     \<exists>pre v post ks n m. cc = pre @ v # post
        \<and> list_all (\<lambda>(j, v'). builds (''#'' @ Itoa j) v') (enumerate i pre)
        \<and> descends (''#'' @ Itoa (i + length pre)) v ks n
        \<and> ownError n = Some m \<and> err = ParserError (slashJoin (dropEmptyTail (key # ks))) m"
  "makeRootFolder key node' = Inl err \<Longrightarrow>
     \<exists>pre k v post ks n m. node' = pre @ (k, v) # post
        \<and> list_all (\<lambda>(k', v'). builds k' v') pre \<and> descends k v ks n
        \<and> ownError n = Some m \<and> err = ParserError (slashJoin (dropEmptyTail (key # ks))) m"
  "rootLoop key folder' node'' = Inl err \<Longrightarrow>
     \<exists>pre k v post ks n m. node'' = pre @ (k, v) # post
        \<and> list_all (\<lambda>(k', v'). builds k' v') pre \<and> descends k v ks n
        \<and> ownError n = Some m \<and> err = ParserError (slashJoin (dropEmptyTail (key # ks))) m"
  "add root key item = Inl err \<Longrightarrow> located key item err"
proof (induction key node and key folder i cc and key node' and key folder' node''
    and root key item
    arbitrary: err and err and err and err and err
    rule: makeChildFolder_childrenLoop_makeRootFolder_rootLoop_add.induct)
  case (1 key node)
  show ?case
  proof (cases "Node_read key node")
    case (Inl e)
    then have "Node_read [] node = Inl e"
      by (rule Node_read_key)
    then have "ownError (JObject node) = Some (Error e)"
      using "1.prems"(2) by (simp add: ownError_def)
    moreover have "err = ParserError key (Error e)"
      using "1.prems"(1) Inl by (simp add: makeChildFolder.simps Node_read_error)
    ultimately show ?thesis
      by (simp add: located_here)
  next
    case (Inr nd)
    then obtain nd' where nd': "Node_read [] node = Inr nd'"
      using Node_read_key_Inr by blast
    show ?thesis
    proof (cases "map_of node ''children''")
      case None
      with Inr "1.prems"(1) show ?thesis
        by (simp add: makeChildFolder.simps)
    next
      case (Some c)
      show ?thesis
      proof (cases "\<exists>cc. c = JArray cc")
        case False
        then have "err = ParserError key UnexpectedChildrenType"
          using Inr Some "1.prems"(1) by (cases c) (simp_all add: makeChildFolder.simps)
        moreover have "ownError (JObject node) = Some UnexpectedChildrenType"
          using False nd' Some "1.prems"(2) by (cases c) (simp_all add: ownError_def)
        ultimately show ?thesis
          by (simp add: located_here)
      next
        case True
        then obtain cc where c: "c = JArray cc"
          by blast
        have "childrenLoop key (Folder nd [] []) 0 cc = Inl err"
          using Inr Some c "1.prems"(1) by (simp add: makeChildFolder.simps)
        from "1.IH" [OF Inr Some c this]
        obtain pre v post ks n m where cc: "cc = pre @ v # post"
          and p: "list_all (\<lambda>(j, v'). builds (''#'' @ Itoa j) v') (enumerate 0 pre)"
          and d: "descends (''#'' @ Itoa (length pre)) v ks n"
          and o: "ownError n = Some m"
          and e: "err = ParserError (slashJoin (dropEmptyTail (key # ks))) m"
          by auto
        have ch: "map_of node ''children'' = Some (JArray cc)"
          using Some c by simp
        have "descends key (JObject node) (key # ks) n"
          using "1.prems"(2) Inr ch cc p d by (rule descends.child)
        with o e show ?thesis
          unfolding located_def by blast
      qed
    qed
  qed
next
  case (2 key folder i)
  then show ?case by simp
next
  case (3 key folder i v cc)
  show ?case
  proof (cases "add folder (''#'' @ Itoa i) v")
    case (Inl e)
    then have err: "err = mapError key e"
      using "3.prems" by simp
    from "3.IH"(1) [OF Inl] obtain ks n m where
      d: "descends (''#'' @ Itoa i) v ks n" and o: "ownError n = Some m"
      and e: "e = ParserError (slashJoin (dropEmptyTail ks)) m"
      unfolding located_def by blast
    have "err = ParserError (slashJoin (dropEmptyTail (key # ks))) m"
      using err e by (simp add: mapError_path)
    with d o show ?thesis
      by (intro exI [of _ "[]"] exI [of _ v] exI [of _ cc] exI [of _ ks] exI [of _ n]
          exI [of _ m]) simp
  next
    case (Inr b)
    then have "childrenLoop key b (i + 1) cc = Inl err"
      using "3.prems" by simp
    from "3.IH"(2) [OF Inr this] obtain pre w post ks n m where
      cc: "cc = pre @ w # post"
      and p: "list_all (\<lambda>(j, v'). builds (''#'' @ Itoa j) v') (enumerate (i + 1) pre)"
      and d: "descends (''#'' @ Itoa (i + 1 + length pre)) w ks n"
      and o: "ownError n = Some m"
      and e: "err = ParserError (slashJoin (dropEmptyTail (key # ks))) m"
      by blast
    have "builds (''#'' @ Itoa i) v"
      using Inr builds_add [of "''#'' @ Itoa i" v folder] by simp
    with p have "list_all (\<lambda>(j, v'). builds (''#'' @ Itoa j) v') (enumerate i (v # pre))"
      by simp
    moreover have "descends (''#'' @ Itoa (i + length (v # pre))) w ks n"
      using d by simp
    moreover have "v # cc = (v # pre) @ w # post"
      using cc by simp
    ultimately show ?thesis
      using o e by blast
  qed
next
  case (4 key node)
  then show ?case
    by (simp add: makeRootFolder.simps)
next
  case (5 key folder)
  then show ?case by simp
next
  case (6 key folder k v node)
  show ?case
  proof (cases "add folder k v")
    case (Inl e)
    then have err: "err = mapError key e"
      using "6.prems" by simp
    from "6.IH"(1) [OF Inl] obtain ks n m where
      d: "descends k v ks n" and o: "ownError n = Some m"
      and e: "e = ParserError (slashJoin (dropEmptyTail ks)) m"
      unfolding located_def by blast
    have "err = ParserError (slashJoin (dropEmptyTail (key # ks))) m"
      using err e by (simp add: mapError_path)
    with d o show ?thesis
      by (intro exI [of _ "[]"] exI [of _ k] exI [of _ v] exI [of _ node] exI [of _ ks]
          exI [of _ n] exI [of _ m]) simp
  next
    case (Inr b)
    then have "rootLoop key b node = Inl err"
      using "6.prems" by simp
    from "6.IH"(2) [OF Inr this] obtain pre k' v' post ks n m where
      node: "node = pre @ (k', v') # post"
      and p: "list_all (\<lambda>(k', v'). builds k' v') pre"
      and *: "descends k' v' ks n" "ownError n = Some m"
      "err = ParserError (slashJoin (dropEmptyTail (key # ks))) m"
      by blast
    have "builds k v"
      using Inr builds_add [of k v folder] by simp
    with p have "list_all (\<lambda>(k', v'). builds k' v') ((k, v) # pre)"
      by simp
    moreover have "(k, v) # node = ((k, v) # pre) @ (k', v') # post"
      using node by simp
    ultimately show ?thesis
      using * by blast
  qed
next
  case (7 root key item)
  show ?case
  proof (cases "\<exists>node. item = JObject node")
    case False
    then have "err = ParserError key UnexpectedNodeType" "ownError item = Some UnexpectedNodeType"
      using "7.prems" by (cases item; simp add: add.simps ownError_def)+
    then show ?thesis
      by (simp add: located_here)
  next
    case True
    then obtain node where item: "item = JObject node"
      by blast
    show ?thesis
    proof (cases "map_of node ''type''")
      case None
      then have "makeRootFolder key node = Inl err"
        using "7.prems" item by (simp add: add.simps addFolder_def split: sum.splits)
      from "7.IH"(1) [OF item None this] obtain pre k v post ks n m where
        node: "node = pre @ (k, v) # post" and p: "list_all (\<lambda>(k', v'). builds k' v') pre"
        and d: "descends k v ks n" and o: "ownError n = Some m"
        and e: "err = ParserError (slashJoin (dropEmptyTail (key # ks))) m"
        by blast
      have "descends key (JObject node) (key # ks) n"
        using None node p d by (rule descends.field)
      with o e show ?thesis
        unfolding located_def item by blast
    next
      case (Some t)
      show ?thesis
      proof (cases "\<exists>tt. t = JString tt")
        case False
        then have "err = ParserError key TypeTagNotString"
          "ownError item = Some TypeTagNotString"
          using "7.prems" item Some by (cases t; simp add: add.simps ownError_def)+
        then show ?thesis
          by (simp add: located_here)
      next
        case True
        then obtain tt where t: "t = JString tt"
          by blast
        consider "tt = ''folder''" | "tt = ''url''" | "tt \<noteq> ''folder''" "tt \<noteq> ''url''"
          by blast
        then show ?thesis
        proof cases
          case 1
          then have "makeChildFolder key node = Inl err"
            using "7.prems" item Some t by (simp add: add.simps addFolder_def split: sum.splits)
          from "7.IH"(2) [OF item Some t 1 this] Some t 1 item show ?thesis
            by simp
        next
          case 2
          then have "makeLink key node = Inl err"
            using "7.prems" item Some t by (simp add: add.simps addLink_def split: sum.splits)
          with Some t 2 item show ?thesis
            by (simp add: makeLink_error)
        next
          case 3
          then have "err = ParserError key (UnknownType tt)"
            "ownError item = Some (UnknownType tt)"
            using "7.prems" item Some t by (simp_all add: add.simps ownError_def)
          then show ?thesis
            by (simp add: located_here)
        qed
      qed
    qed
  qed
qed

text \<open>
  From the value to the error: a value that is wrong by itself fails with its message at
  its key, and the loops fail with the error of the first entry that fails.
\<close>

lemma ownError_add:
  assumes "ownError item = Some m"
  shows "add root key item = Inl (ParserError key m)"
proof (cases "\<exists>node. item = JObject node")
  case False
  then show ?thesis
    using assms by (cases item) (simp_all add: add.simps ownError_def)
next
  case True
  then obtain node where item: "item = JObject node"
    by blast
  show ?thesis
  proof (cases "map_of node ''type''")
    case None
    then show ?thesis
      using assms item by (simp add: ownError_def)
  next
    case (Some t)
    show ?thesis
    proof (cases "\<exists>tt. t = JString tt")
      case False
      then show ?thesis
        using assms item Some by (cases t) (simp_all add: add.simps ownError_def)
    next
      case True
      then obtain tt where t: "t = JString tt"
        by blast
      consider "tt = ''folder''" | "tt = ''url''" | "tt \<noteq> ''folder''" "tt \<noteq> ''url''"
        by blast
      then show ?thesis
      proof cases
        case 1
        show ?thesis
        proof (cases "Node_read [] node")
          case (Inl e)
          then have "Node_read key node = Inl e"
            by (rule Node_read_key)
          moreover have "m = Error e"
            using assms item Some t 1 Inl by (simp add: ownError_def)
          ultimately show ?thesis
            using item Some t 1
            by (simp add: add.simps makeChildFolder.simps addFolder_def Node_read_error)
        next
          case (Inr nd0)
          then obtain nd where nd: "Node_read key node = Inr nd"
            using Node_read_key_Inr by blast
          from assms item Some t 1 Inr obtain c where c: "map_of node ''children'' = Some c"
            "\<forall>cc. c \<noteq> JArray cc" "m = UnexpectedChildrenType"
            by (auto simp: ownError_def split: option.splits json.splits)
          then show ?thesis
            using item Some t 1 nd
            by (cases c) (simp_all add: add.simps makeChildFolder.simps addFolder_def)
        qed
      next
        case 2
        show ?thesis
        proof (cases "Node_read [] node")
          case (Inl e)
          then have "Node_read key node = Inl e"
            by (rule Node_read_key)
          moreover have "m = Error e"
            using assms item Some t 2 Inl by (simp add: ownError_def)
          ultimately show ?thesis
            using item Some t 2
            by (simp add: add.simps makeLink_def addLink_def Node_read_error)
        next
          case (Inr nd0)
          then obtain nd where nd: "Node_read key node = Inr nd"
            using Node_read_key_Inr by blast
          from assms item Some t 2 Inr obtain e where e: "readString ''url'' node = Inl e"
            "m = Error e"
            by (auto simp: ownError_def split: sum.splits)
          then show ?thesis
            using item Some t 2 nd
            by (simp add: add.simps makeLink_def addLink_def readString_error)
        qed
      next
        case 3
        then show ?thesis
          using assms item Some t by (simp add: add.simps ownError_def)
      qed
    qed
  qed
qed

lemma rootLoop_fail:
  assumes "list_all (\<lambda>(k', v'). builds k' v') pre" "\<And>r. add r k v = Inl e"
  shows "rootLoop key folder (pre @ (k, v) # post) = Inl (mapError key e)"
  using assms(1)
proof (induction pre arbitrary: folder)
  case Nil
  then show ?case
    by (simp add: assms(2))
next
  case (Cons kv pre)
  obtain k' v' where kv: "kv = (k', v')"
    by (cases kv)
  with Cons.prems have "builds k' v'" and rest: "list_all (\<lambda>(k', v'). builds k' v') pre"
    by simp_all
  then obtain b where "add folder k' v' = Inr b"
    using builds_add [of k' v' folder] by blast
  then show ?case
    using Cons.IH [OF rest, of b] by (simp add: kv)
qed

lemma childrenLoop_fail:
  assumes "list_all (\<lambda>(j, v'). builds (''#'' @ Itoa j) v') (enumerate i pre)"
    and "\<And>r. add r (''#'' @ Itoa (i + length pre)) v = Inl e"
  shows "childrenLoop key folder i (pre @ v # post) = Inl (mapError key e)"
  using assms
proof (induction pre arbitrary: folder i)
  case Nil
  then show ?case
    by simp
next
  case (Cons w pre)
  from Cons.prems(1) have "builds (''#'' @ Itoa i) w"
    and rest: "list_all (\<lambda>(j, v'). builds (''#'' @ Itoa j) v') (enumerate (Suc i) pre)"
    by simp_all
  then obtain b where b: "add folder (''#'' @ Itoa i) w = Inr b"
    using builds_add [of "''#'' @ Itoa i" w folder] by blast
  have "add r (''#'' @ Itoa (Suc i + length pre)) v = Inl e" for r
    using Cons.prems(2) [of r] by simp
  from Cons.IH [OF rest this, of b] b show ?case
    by simp
qed

lemma descends_error:
  "descends key item ks n \<Longrightarrow> ownError n = Some m \<Longrightarrow>
   add root key item = Inl (ParserError (slashJoin (dropEmptyTail ks)) m)"
proof (induction arbitrary: root rule: descends.induct)
  case (here key item)
  then show ?case
    by (simp add: ownError_add path_single)
next
  case (field node pre k v post ks n key)
  have "add r k v = Inl (ParserError (slashJoin (dropEmptyTail ks)) m)" for r
    using field.IH [OF field.prems] .
  then have "rootLoop key folder (pre @ (k, v) # post)
      = Inl (mapError key (ParserError (slashJoin (dropEmptyTail ks)) m))" for folder
    using field.hyps(3) by (intro rootLoop_fail)
  then have "makeRootFolder key node
      = Inl (ParserError (slashJoin (dropEmptyTail (key # ks))) m)"
    unfolding field.hyps(2) by (simp add: makeRootFolder.simps mapError_path)
  then show ?case
    using field.hyps(1) by (simp add: add.simps addFolder_def)
next
  case (child node key nd cc pre v post ks n)
  have "add r (''#'' @ Itoa (0 + length pre)) v
      = Inl (ParserError (slashJoin (dropEmptyTail ks)) m)" for r
    using child.IH [OF child.prems] by simp
  then have "childrenLoop key folder 0 (pre @ v # post)
      = Inl (mapError key (ParserError (slashJoin (dropEmptyTail ks)) m))" for folder
    using child.hyps(5) by (intro childrenLoop_fail)
  then have "childrenLoop key (Folder nd [] []) 0 cc
      = Inl (ParserError (slashJoin (dropEmptyTail (key # ks))) m)"
    unfolding child.hyps(4) by (simp add: mapError_path)
  then have "makeChildFolder key node
      = Inl (ParserError (slashJoin (dropEmptyTail (key # ks))) m)"
    using child.hyps(2,3) by (simp add: makeChildFolder.simps)
  then show ?case
    using child.hyps(1) by (simp add: add.simps addFolder_def)
qed

lemma descends_nonempty: "descends key item ks n \<Longrightarrow> ks \<noteq> [] \<and> hd ks = key"
  by (induction rule: descends.induct) simp_all

lemma add_error_iff:
  "add root key item = Inl err \<longleftrightarrow>
     (\<exists>ks n m. descends key item ks n \<and> ownError n = Some m
        \<and> err = ParserError (slashJoin (dropEmptyTail ks)) m
        \<and> (last ks \<noteq> [] \<longrightarrow> err = ParserError (slashJoin ks) m))"
proof
  assume "add root key item = Inl err"
  then obtain ks n m where d: "descends key item ks n" and o: "ownError n = Some m"
    and e: "err = ParserError (slashJoin (dropEmptyTail ks)) m"
    using builder_errors(5) unfolding located_def by blast
  have "last ks \<noteq> [] \<Longrightarrow> dropEmptyTail ks = ks"
    using descends_nonempty [OF d] by (simp add: dropEmptyTail_id)
  with d o e show "\<exists>ks n m. descends key item ks n \<and> ownError n = Some m
        \<and> err = ParserError (slashJoin (dropEmptyTail ks)) m
        \<and> (last ks \<noteq> [] \<longrightarrow> err = ParserError (slashJoin ks) m)"
    by (intro exI [of _ ks] exI [of _ n] exI [of _ m]) auto
next
  assume "\<exists>ks n m. descends key item ks n \<and> ownError n = Some m
        \<and> err = ParserError (slashJoin (dropEmptyTail ks)) m
        \<and> (last ks \<noteq> [] \<longrightarrow> err = ParserError (slashJoin ks) m)"
  then show "add root key item = Inl err"
    by (auto simp: descends_error)
qed

lemma buildTree_error_iff:
  "buildTree key item = Inl err \<longleftrightarrow>
     (\<forall>node. item \<noteq> JObject node) \<and> err = ErrorString InvalidRootItemType
     \<or> (\<exists>ks n m. descendsRoot key item ks n \<and> 2 \<le> length ks \<and> ownError n = Some m
        \<and> err = ParserError (slashJoin (dropEmptyTail ks)) m
        \<and> (last ks \<noteq> [] \<longrightarrow> err = ParserError (slashJoin ks) m))"
proof (cases "\<exists>node. item = JObject node")
  case False
  then have "buildTree key item = Inl (ErrorString InvalidRootItemType)"
    by (cases item) (simp_all add: buildTree_def)
  moreover have "\<not> descendsRoot key item ks n" for ks n
    using False by (auto elim: descendsRoot.cases)
  ultimately show ?thesis
    using False by auto
next
  case True
  then obtain node where item: "item = JObject node"
    by blast
  show ?thesis
  proof
    assume "buildTree key item = Inl err"
    then have "makeRootFolder key node = Inl err"
      using item by (simp add: buildTree_def)
    then obtain pre k v post ks n m where node: "node = pre @ (k, v) # post"
      and p: "list_all (\<lambda>(k', v'). builds k' v') pre" and d: "descends k v ks n"
      and o: "ownError n = Some m"
      and e: "err = ParserError (slashJoin (dropEmptyTail (key # ks))) m"
      using builder_errors(3) by blast
    have d': "descendsRoot key item (key # ks) n"
      unfolding item using node p d by (rule descendsRoot.entry)
    have ne: "ks \<noteq> []"
      using descends_nonempty [OF d] by simp
    then have len: "2 \<le> length (key # ks)"
      by (cases ks) simp_all
    have "last (key # ks) \<noteq> [] \<Longrightarrow> dropEmptyTail (key # ks) = key # ks"
      by (simp add: dropEmptyTail_id)
    with d' len o e
    show "(\<forall>node. item \<noteq> JObject node) \<and> err = ErrorString InvalidRootItemType
     \<or> (\<exists>ks n m. descendsRoot key item ks n \<and> 2 \<le> length ks \<and> ownError n = Some m
        \<and> err = ParserError (slashJoin (dropEmptyTail ks)) m
        \<and> (last ks \<noteq> [] \<longrightarrow> err = ParserError (slashJoin ks) m))"
      by (intro disjI2 exI [of _ "key # ks"] exI [of _ n] exI [of _ m]) auto
  next
    assume "(\<forall>node. item \<noteq> JObject node) \<and> err = ErrorString InvalidRootItemType
     \<or> (\<exists>ks n m. descendsRoot key item ks n \<and> 2 \<le> length ks \<and> ownError n = Some m
        \<and> err = ParserError (slashJoin (dropEmptyTail ks)) m
        \<and> (last ks \<noteq> [] \<longrightarrow> err = ParserError (slashJoin ks) m))"
    then obtain ks n m where d: "descendsRoot key item ks n" and o: "ownError n = Some m"
      and e: "err = ParserError (slashJoin (dropEmptyTail ks)) m"
      using item by blast
    from d item obtain pre k v post ks' where node: "node = pre @ (k, v) # post"
      and p: "list_all (\<lambda>(k', v'). builds k' v') pre" and d': "descends k v ks' n"
      and ks: "ks = key # ks'"
      by (auto elim: descendsRoot.cases)
    have "add r k v = Inl (ParserError (slashJoin (dropEmptyTail ks')) m)" for r
      using d' o by (rule descends_error)
    then have "rootLoop key folder (pre @ (k, v) # post)
        = Inl (mapError key (ParserError (slashJoin (dropEmptyTail ks')) m))" for folder
      using p by (intro rootLoop_fail)
    then show "buildTree key item = Inl err"
      using item node e ks by (simp add: buildTree_def makeRootFolder.simps mapError_path)
  qed
qed

lemma childrenLoop_append:
  "childrenLoop key folder i (xs @ ys) =
     (case childrenLoop key folder i xs of
        Inl err \<Rightarrow> Inl err
      | Inr folder' \<Rightarrow> childrenLoop key folder' (i + length xs) ys)"
  by (induction xs arbitrary: folder i) (simp_all split: sum.splits)

lemma childrenLoop_not_object:
  assumes "i < length cc" "\<forall>m. cc ! i \<noteq> JObject m"
    and "childrenLoop key folder 0 (take i cc) = Inr f"
  shows "childrenLoop key folder 0 cc
           = Inl (ParserError (key @ ''/#'' @ Itoa i) UnexpectedNodeType)"
proof -
  have cc: "cc = take i cc @ cc ! i # drop (Suc i) cc"
    using assms(1) by (simp add: id_take_nth_drop)
  have "add f (''#'' @ Itoa i) (cc ! i) = Inl (ParserError (''#'' @ Itoa i) UnexpectedNodeType)"
    using assms(2) by (cases "cc ! i") (simp_all add: add.simps)
  then have last: "childrenLoop key f i (cc ! i # drop (Suc i) cc)
      = Inl (ParserError (key @ ''/#'' @ Itoa i) UnexpectedNodeType)"
    by (simp add: mapError_def)
  have len: "0 + length (take i cc) = i"
    using assms(1) by simp
  have "childrenLoop key folder 0 (take i cc @ cc ! i # drop (Suc i) cc)
      = childrenLoop key f (0 + length (take i cc)) (cc ! i # drop (Suc i) cc)"
    by (simp only: childrenLoop_append assms(3) sum.case)
  then have "childrenLoop key folder 0 cc = childrenLoop key f i (cc ! i # drop (Suc i) cc)"
    by (simp only: cc [symmetric] len)
  with last show ?thesis
    by (simp only:)
qed

text \<open>
  C3, as the code has it. The dispatcher fails with an error exactly when that error is
  a \<^verbatim>\<open>ParserError\<close> that carries the message of the first value the builder comes to that
  is wrong by itself, the keys \<open>ks\<close> leading to it from the node dispatched, outermost
  key first: its path is the slash-separated sequence of these keys less the empty keys
  at the end (a key put in front of an empty path replaces it, with no slash), so it is
  the slash-separated sequence of all of them whenever the key of the failing value is
  not empty. The same holds of \<^verbatim>\<open>buildTree\<close>, which visits the entries of the root
  whatever its type and whose only other error is the one for a root that is no mapping.
  In a typed folder whose own fields read and whose children before index \<open>i\<close> build, a
  child at index \<open>i\<close> that is no mapping fails with the unexpected-node-type error on the
  path of the folder's key, a slash and \<^verbatim>\<open>#i\<close>.
\<close>

theorem error_paths:
  "(add root key item = Inl err \<longleftrightarrow>
      (\<exists>ks n m. descends key item ks n \<and> ownError n = Some m
         \<and> err = ParserError (slashJoin (dropEmptyTail ks)) m
         \<and> (last ks \<noteq> [] \<longrightarrow> err = ParserError (slashJoin ks) m)))
 \<and> (buildTree key item = Inl err \<longleftrightarrow>
      (\<forall>node. item \<noteq> JObject node) \<and> err = ErrorString InvalidRootItemType
      \<or> (\<exists>ks n m. descendsRoot key item ks n \<and> 2 \<le> length ks \<and> ownError n = Some m
         \<and> err = ParserError (slashJoin (dropEmptyTail ks)) m
         \<and> (last ks \<noteq> [] \<longrightarrow> err = ParserError (slashJoin ks) m)))
 \<and> (Node_read key node = Inr nd \<and> map_of node ''children'' = Some (JArray cc)
      \<and> i < length cc \<and> (\<forall>m. cc ! i \<noteq> JObject m)
      \<and> childrenLoop key (Folder nd [] []) 0 (take i cc) = Inr f \<longrightarrow>
      makeChildFolder key node = Inl (ParserError (key @ ''/#'' @ Itoa i) UnexpectedNodeType))"
proof -
  have c: "Node_read key node = Inr nd \<and> map_of node ''children'' = Some (JArray cc)
      \<and> i < length cc \<and> (\<forall>m. cc ! i \<noteq> JObject m)
      \<and> childrenLoop key (Folder nd [] []) 0 (take i cc) = Inr f \<longrightarrow>
      makeChildFolder key node = Inl (ParserError (key @ ''/#'' @ Itoa i) UnexpectedNodeType)"
    by (intro impI, elim conjE) (simp add: makeChildFolder.simps childrenLoop_not_object)
  show ?thesis
    using add_error_iff [of root key item err] buildTree_error_iff [of key item err] c
    by (intro conjI)
qed

theorem error_paths_witness:
  "add (Folder \<lparr>Name = ''r'', Key = ''r'', Added = zeroTime, Modified = zeroTime\<rparr> [] []) ''#0''
      JNull = Inl (ParserError ''#0'' UnexpectedNodeType)
 \<and> (\<exists>ks n m. descends ''#0'' JNull ks n \<and> ownError n = Some m
        \<and> ParserError ''#0'' UnexpectedNodeType = ParserError (slashJoin (dropEmptyTail ks)) m
        \<and> (last ks \<noteq> [] \<longrightarrow>
             ParserError ''#0'' UnexpectedNodeType = ParserError (slashJoin ks) m))
 \<and> buildTree ''roots'' (JObject [(''bookmark_bar'', JObject [(''x'', JObject [(''type'', JString
     ''folder''), (''name'', JString ''F''), (''date_added'', JString ''0''), (''children'', JArray
     [JNull])])])])
       = Inl (ParserError ''roots/bookmark_bar/x/#0'' UnexpectedNodeType)
 \<and> (\<exists>ks n m. descendsRoot ''roots'' (JObject [(''bookmark_bar'', JObject [(''x'', JObject
     [(''type'', JString ''folder''), (''name'', JString ''F''), (''date_added'', JString ''0''),
     (''children'', JArray [JNull])])])]) ks n \<and> 2 \<le> length ks \<and> ownError n = Some m
        \<and> ParserError ''roots/bookmark_bar/x/#0'' UnexpectedNodeType
            = ParserError (slashJoin (dropEmptyTail ks)) m
        \<and> (last ks \<noteq> [] \<longrightarrow>
             ParserError ''roots/bookmark_bar/x/#0'' UnexpectedNodeType
             = ParserError (slashJoin ks) m))
 \<and> descends ''f'' (JObject [(''type'', JString ''folder''), (''name'', JString ''F''),
     (''date_added'', JString ''0''), (''children'', JArray [JObject [(''type'', JString ''url''),
     (''name'', JString ''A''), (''url'', JString ''u''), (''date_added'', JString ''0'')],
     JObject [(''type'', JString ''url''), (''name'', JString ''B'')], JString ''x''])])
     [''f'', ''#1''] (JObject [(''type'', JString ''url''), (''name'', JString ''B'')])
 \<and> add (Folder \<lparr>Name = ''r'', Key = ''r'', Added = zeroTime, Modified = zeroTime\<rparr> [] []) ''f''
     (JObject [(''type'', JString ''folder''), (''name'', JString ''F''),
     (''date_added'', JString ''0''), (''children'', JArray [JObject [(''type'', JString ''url''),
     (''name'', JString ''A''), (''url'', JString ''u''), (''date_added'', JString ''0'')],
     JObject [(''type'', JString ''url''), (''name'', JString ''B'')], JString ''x''])])
       = Inl (ParserError ''f/#1'' (Error (KeyNotFoundError ''date_added'')))
 \<and> makeChildFolder ''f'' [(''type'', JString ''folder''), (''name'', JString ''F''),
     (''date_added'', JString ''0''), (''children'', JArray [JObject [(''type'', JString ''url''),
     (''name'', JString ''A''), (''url'', JString ''u''), (''date_added'', JString ''0'')], JObject
     [(''type'', JString ''url''), (''name'', JString ''A''), (''url'', JString ''u''),
     (''date_added'', JString ''0'')], JString ''x''])]
       = Inl (ParserError ''f/#2'' UnexpectedNodeType)"
proof -
  let ?R = "Folder \<lparr>Name = ''r'', Key = ''r'', Added = zeroTime, Modified = zeroTime\<rparr> [] []"
  let ?doc = "JObject [(''bookmark_bar'', JObject [(''x'', JObject [(''type'', JString ''folder''),
      (''name'', JString ''F''), (''date_added'', JString ''0''), (''children'', JArray
      [JNull])])])]"
  let ?node = "[(''type'', JString ''folder''), (''name'', JString ''F''), (''date_added'', JString
      ''0''), (''children'', JArray [JObject [(''type'', JString ''url''), (''name'', JString
      ''A''), (''url'', JString ''u''), (''date_added'', JString ''0'')], JObject [(''type'',
      JString ''url''), (''name'', JString ''A''), (''url'', JString ''u''), (''date_added'',
      JString ''0'')], JString ''x''])]"
  let ?A = "JObject [(''type'', JString ''url''), (''name'', JString ''A''), (''url'', JString
      ''u''), (''date_added'', JString ''0'')]"
  let ?B = "JObject [(''type'', JString ''url''), (''name'', JString ''B'')]"
  let ?node1 = "[(''type'', JString ''folder''), (''name'', JString ''F''),
      (''date_added'', JString ''0''), (''children'', JArray [?A, ?B, JString ''x''])]"
  let ?e = "ParserError ''#0'' UnexpectedNodeType"
  let ?e' = "ParserError ''roots/bookmark_bar/x/#0'' UnexpectedNodeType"
  let ?e1 = "ParserError ''f/#1'' (Error (KeyNotFoundError ''date_added''))"
  have a: "add ?R ''#0'' JNull = Inl ?e"
    by (simp add: add.simps)
  have a': "\<exists>ks n m. descends ''#0'' JNull ks n \<and> ownError n = Some m
        \<and> ?e = ParserError (slashJoin (dropEmptyTail ks)) m
        \<and> (last ks \<noteq> [] \<longrightarrow> ?e = ParserError (slashJoin ks) m)"
    by (rule error_paths [where root = ?R and key = "''#0''" and item = JNull and err = ?e,
        THEN conjunct1, THEN iffD1, OF a])
  have b: "buildTree ''roots'' ?doc = Inl ?e'"
    by (simp add: buildTree_def makeRootFolder.simps add.simps makeChildFolder.simps
        Node_read_def mapError_def addFolder_def Itoa.simps read_eval)
  have b': "\<exists>ks n m. descendsRoot ''roots'' ?doc ks n \<and> 2 \<le> length ks \<and> ownError n = Some m
        \<and> ?e' = ParserError (slashJoin (dropEmptyTail ks)) m
        \<and> (last ks \<noteq> [] \<longrightarrow> ?e' = ParserError (slashJoin ks) m)"
    using error_paths [where key = "''roots''" and item = ?doc and err = ?e',
        THEN conjunct2, THEN conjunct1, THEN iffD1, OF b]
    by simp
  have bA: "builds ''#0'' ?A"
    by (simp add: builds_def add.simps makeLink_def Node_read_def addLink_def read_eval)
  have oB: "ownError ?B = Some (Error (KeyNotFoundError ''date_added''))"
    by (simp add: ownError_def Node_read_def read_eval)
  have "descends (''#'' @ Itoa (length [?A])) ?B [''#1''] ?B"
    using descends.here [of "''#1''" ?B] by (simp add: Itoa.simps)
  then have d: "descends ''f'' (JObject ?node1) [''f'', ''#1''] ?B"
    by (rule descends.child [where cc = "[?A, ?B, JString ''x'']" and post = "[JString ''x'']"
          and nd = "\<lparr>Name = ''F'', Key = ''f'', Added = \<lparr>sec = 50491123200, nsec = 0\<rparr>,
            Modified = zeroTime\<rparr>", rotated 5])
       (simp_all add: bA Itoa.simps Node_read_def read_eval)
  have d': "add ?R ''f'' (JObject ?node1) = Inl ?e1"
  proof (rule error_paths [where root = ?R and key = "''f''" and item = "JObject ?node1"
        and err = ?e1, THEN conjunct1, THEN iffD2])
    show "\<exists>ks n m. descends ''f'' (JObject ?node1) ks n \<and> ownError n = Some m
        \<and> ?e1 = ParserError (slashJoin (dropEmptyTail ks)) m
        \<and> (last ks \<noteq> [] \<longrightarrow> ?e1 = ParserError (slashJoin ks) m)"
      using d oB
      by (intro exI [of _ "[''f'', ''#1'']"] exI [of _ ?B]
          exI [of _ "Error (KeyNotFoundError ''date_added'')"])
         (simp add: dropEmptyTail_def)
  qed
  have c: "makeChildFolder ''f'' ?node = Inl (ParserError (''f'' @ ''/#'' @ Itoa 2)
      UnexpectedNodeType)"
    by (rule error_paths [where key = "''f''" and node = ?node and nd = "\<lparr>Name = ''F'', Key = ''f'',
        Added = \<lparr>sec = 50491123200, nsec = 0\<rparr>, Modified = zeroTime\<rparr>"
          and cc = "[JObject [(''type'', JString ''url''), (''name'', JString ''A''), (''url'',
              JString ''u''), (''date_added'', JString ''0'')], JObject [(''type'', JString
              ''url''), (''name'', JString ''A''), (''url'', JString ''u''), (''date_added'',
              JString ''0'')], JString ''x'']"
          and i = 2 and f = "Folder \<lparr>Name = ''F'', Key = ''f'', Added = \<lparr>sec = 50491123200, nsec =
              0\<rparr>, Modified = zeroTime\<rparr> [\<lparr>Name = ''A'', Key = ''#0'', Added = \<lparr>sec = 50491123200,
              nsec = 0\<rparr>, Modified = zeroTime, URL = ''u''\<rparr>, \<lparr>Name = ''A'', Key = ''#1'', Added =
              \<lparr>sec = 50491123200, nsec = 0\<rparr>, Modified = zeroTime, URL = ''u''\<rparr>] []",
          THEN conjunct2, THEN conjunct2, THEN mp])
       (simp add: Node_read_def add.simps makeLink_def addLink_def Itoa.simps read_eval)
  from a a' b b' d d' c show ?thesis
    by (simp add: Itoa.simps)
qed

text \<open>
  Where the claim as stated fails: under an empty key the path has neither the key nor
  its slash, and a child at index 2 that is no mapping is not reached when the child at
  index 0 fails.
\<close>

theorem error_paths_counterexample:
  "buildTree ''roots'' (JObject [([], JNull)]) = Inl (ParserError ''roots'' UnexpectedNodeType)
 \<and> descendsRoot ''roots'' (JObject [([], JNull)]) [''roots'', []] JNull
 \<and> ownError JNull = Some UnexpectedNodeType
 \<and> slashJoin [''roots'', []] = ''roots/''
 \<and> makeChildFolder ''f''
       [(''type'', JString ''folder''), (''name'', JString ''F''), (''date_added'', JString ''0''),
        (''children'', JArray [JNull, JNull, JNull])]
     = Inl (ParserError ''f/#0'' UnexpectedNodeType)"
proof -
  have "descends [] JNull [[]] JNull"
    by (rule descends.here)
  then have "descendsRoot ''roots'' (JObject [([], JNull)]) [''roots'', []] JNull"
    by (rule descendsRoot.entry [where pre = "[]" and post = "[]", rotated 2]) simp_all
  then show ?thesis
    by (simp add: buildTree_def makeRootFolder.simps add.simps makeChildFolder.simps
        Node_read_def mapError_def ownError_def Itoa.simps read_eval)
qed

section \<open>The HTML generator\<close>

lemma folderText_eq:
  "folderText folder =
     ''<h4>'' @ EscapeString (Name (folderNode folder)) @ ''</h4>''
     @ (if Links folder = [] then []
        else ''<dl>'' @ concat (map linkText (Links folder)) @ ''</dl>'')
     @ (if Folders folder = [] then []
        else ''<ul>'' @ concat (map (\<lambda>f. ''<li>'' @ folderText f @ ''</li>'') (Folders folder))
             @ ''</ul>'')"
  by (cases folder) simp

lemma writes_htmlNil: "writes htmlNil []"
  by (simp add: writes_def htmlNil_def)

lemma writes_htmlRawText: "writes (htmlRawText text) text"
  by (simp add: writes_def htmlRawText_def WriteString_def unlimited_def)

lemma writes_htmlText: "writes (htmlText text) (EscapeString text)"
  by (simp add: htmlText_def writes_htmlRawText)

lemma writes_htmlList_Nil: "writes (htmlList []) []"
  by (simp add: writes_def)

lemma writes_htmlList_Cons:
  "writes f a \<Longrightarrow> writes (htmlList fns) b \<Longrightarrow> writes (htmlList (f # fns)) (a @ b)"
  by (simp add: writes_def)

lemma writes_htmlList_map:
  "(\<And>x. x \<in> set xs \<Longrightarrow> writes (h x) (t x)) \<Longrightarrow>
   writes (htmlList (map h xs)) (concat (map t xs))"
  by (induction xs) (simp_all add: writes_htmlList_Nil writes_htmlList_Cons)

lemma writes_htmlTag:
  assumes "writes fn a"
  shows "writes (htmlTag tag fn) (''<'' @ tag @ ''>'' @ a @ ''</'' @ tag @ ''>'')"
proof -
  have "writes (htmlList [htmlRawText (''<'' @ tag @ ''>''), fn, htmlRawText (''</'' @ tag @
      ''>'')])
      ((''<'' @ tag @ ''>'') @ a @ (''</'' @ tag @ ''>'') @ [])"
    by (intro writes_htmlList_Cons writes_htmlList_Nil writes_htmlRawText assms)
  then show ?thesis
    by (simp add: htmlTag_def htmlListArgs_def)
qed

lemma writes_htmlLink:
  "writes (htmlLink link text)
     (''<a href='' @ [CHR 0x22] @ EscapeString link @ [CHR 0x22] @ ''>''
      @ EscapeString text @ ''</a>'')"
  by (simp add: htmlLink_def writes_htmlRawText)

lemma writes_folderName:
  "writes (folderName folder) (''<h4>'' @ EscapeString (Name (folderNode folder)) @ ''</h4>'')"
  using writes_htmlTag [OF writes_htmlText, of "''h4''"] by (simp add: folderName_def)

lemma writes_link:
  "writes (htmlTag ''dt'' (htmlLink (URL lnk) (Name lnk))) (linkText lnk)"
  using writes_htmlTag [OF writes_htmlLink, of "''dt''" "URL lnk" "Name lnk"]
  by (simp add: linkText_def)

lemma writes_folderLinks:
  "writes (folderLinks folder)
     (if Links folder = [] then []
      else ''<dl>'' @ concat (map linkText (Links folder)) @ ''</dl>'')"
proof (cases "Links folder = []")
  case True
  then show ?thesis
    by (simp add: folderLinks_def writes_htmlNil)
next
  case False
  have "writes (htmlList (map (\<lambda>lnk. htmlTag ''dt'' (htmlLink (URL lnk) (Name lnk))) (Links
      folder)))
      (concat (map linkText (Links folder)))"
    by (rule writes_htmlList_map) (rule writes_link)
  from writes_htmlTag [OF this, of "''dl''"] False show ?thesis
    by (simp add: folderLinks_def)
qed

lemma writes_folderList:
  "writes (folderList folders)
     (if folders = [] then []
      else ''<ul>'' @ concat (map (\<lambda>f. ''<li>'' @ folderText f @ ''</li>'') folders) @ ''</ul>'')"
proof (induction folders rule: folderList.induct)
  case (1 folders)
  show ?case
  proof (cases "folders = []")
    case True
    then show ?thesis
      by (simp add: folderList.simps [of "[]"] writes_htmlNil)
  next
    case False
    have item: "writes (htmlTag ''li'' (htmlListArgs [folderName folder, folderLinks folder,
                   folderList (Folders folder)]))
        (''<li>'' @ folderText folder @ ''</li>'')" if "folder \<in> set folders" for folder
    proof -
      have sub: "writes (folderList (Folders folder))
          (if Folders folder = [] then []
           else ''<ul>'' @ concat (map (\<lambda>f. ''<li>'' @ folderText f @ ''</li>'') (Folders folder))
                @ ''</ul>'')"
        using "1.IH" [OF _ that] False by simp
      have "writes (htmlList [folderName folder, folderLinks folder, folderList (Folders folder)])
          ((''<h4>'' @ EscapeString (Name (folderNode folder)) @ ''</h4>'')
           @ (if Links folder = [] then []
              else ''<dl>'' @ concat (map linkText (Links folder)) @ ''</dl>'')
           @ (if Folders folder = [] then []
              else ''<ul>'' @ concat (map (\<lambda>f. ''<li>'' @ folderText f @ ''</li>'') (Folders
                  folder))
                   @ ''</ul>'')
           @ [])"
        by (intro writes_htmlList_Cons writes_htmlList_Nil writes_folderName writes_folderLinks sub)
      then have "writes (htmlListArgs [folderName folder, folderLinks folder,
                   folderList (Folders folder)]) (folderText folder)"
        by (simp add: htmlListArgs_def folderText_eq [of folder])
      from writes_htmlTag [OF this, of "''li''"] show ?thesis
        by simp
    qed
    have "writes (htmlList (map (\<lambda>folder. htmlTag ''li''
                     (htmlListArgs [folderName folder, folderLinks folder,
                                    folderList (Folders folder)])) folders))
        (concat (map (\<lambda>f. ''<li>'' @ folderText f @ ''</li>'') folders))"
      by (rule writes_htmlList_map) (rule item)
    from writes_htmlTag [OF this, of "''ul''"] False show ?thesis
      by (simp add: folderList.simps [of folders])
  qed
qed

lemma escaped_escapeChar: "escaped s \<Longrightarrow> escaped (escapeChar c @ s)"
proof -
  assume s: "escaped s"
  consider "c = CHR ''&''" | "c = CHR 0x27" | "c = CHR ''<''" | "c = CHR ''>''" | "c = CHR 0x22"
    | "c \<notin> {CHR ''&'', CHR ''<'', CHR ''>'', CHR 0x22, CHR 0x27}"
    by blast
  then show ?thesis
  proof cases
    case 1
    with s escaped.entity [of "''&amp;''" s] show ?thesis
      by (simp add: escapeChar_def)
  next
    case 2
    with s escaped.entity [of "''&#39;''" s] show ?thesis
      by (simp add: escapeChar_def)
  next
    case 3
    with s escaped.entity [of "''&lt;''" s] show ?thesis
      by (simp add: escapeChar_def)
  next
    case 4
    with s escaped.entity [of "''&gt;''" s] show ?thesis
      by (simp add: escapeChar_def)
  next
    case 5
    with s escaped.entity [of "''&#34;''" s] show ?thesis
      by (simp add: escapeChar_def)
  next
    case 6
    then have "escapeChar c = [c]"
      by (simp add: escapeChar_def)
    with 6 s show ?thesis
      by (simp add: escaped.plain)
  qed
qed

lemma escaped_EscapeString: "escaped (EscapeString s)"
  by (induction s) (simp_all add: EscapeString_def escaped.empty escaped_escapeChar)

lemma escaped_no_special:
  "escaped s \<Longrightarrow> set s \<inter> {CHR ''<'', CHR ''>'', CHR 0x22, CHR 0x27} = {}"
  by (induction rule: escaped.induct) auto

lemma unescape_escapeChar: "unescape (escapeChar c @ s) = c # unescape s"
  by (subst unescape.simps) (simp add: escapeChar_def)

lemma unescape_EscapeString: "unescape (EscapeString s) = s"
  by (induction s) (simp_all add: EscapeString_def unescape_escapeChar unescape.simps [of "[]"])

lemma writes_folder:
  "writes (htmlListArgs [folderName folder, folderLinks folder, folderList (Folders folder)])
     (folderText folder)"
proof -
  have "writes (htmlList [folderName folder, folderLinks folder, folderList (Folders folder)])
      ((''<h4>'' @ EscapeString (Name (folderNode folder)) @ ''</h4>'')
       @ (if Links folder = [] then []
          else ''<dl>'' @ concat (map linkText (Links folder)) @ ''</dl>'')
       @ (if Folders folder = [] then []
          else ''<ul>'' @ concat (map (\<lambda>f. ''<li>'' @ folderText f @ ''</li>'') (Folders folder))
               @ ''</ul>'')
       @ [])"
    by (intro writes_htmlList_Cons writes_htmlList_Nil writes_folderName writes_folderLinks
        writes_folderList)
  then show ?thesis
    by (simp add: htmlListArgs_def folderText_eq [of folder])
qed

text \<open>
  C7. What is written for a folder is its text as the specification has it, in this
  order: the escaped name in \<^verbatim>\<open><h4>\<close>; then, only if the folder has a link, a \<^verbatim>\<open><dl>\<close>
  with one \<^verbatim>\<open><dt>\<close> anchor for each link; then, only if it has a subfolder, a \<^verbatim>\<open><ul>\<close>
  with each subfolder, written the same way, in an \<^verbatim>\<open><li>\<close>. An empty list of links
  and an empty list of folders write nothing, and a folder with neither writes its
  heading only.
\<close>

theorem folder_rendering:
  "writes (htmlListArgs [folderName folder, folderLinks folder, folderList (Folders folder)])
     (folderText folder)
 \<and> folderText folder =
       ''<h4>'' @ EscapeString (Name (folderNode folder)) @ ''</h4>''
       @ (if Links folder = [] then []
          else ''<dl>'' @ concat (map linkText (Links folder)) @ ''</dl>'')
       @ (if Folders folder = [] then []
          else ''<ul>'' @ concat (map (\<lambda>f. ''<li>'' @ folderText f @ ''</li>'') (Folders folder))
               @ ''</ul>'')
 \<and> writes (folderName folder) (''<h4>'' @ EscapeString (Name (folderNode folder)) @ ''</h4>'')
 \<and> writes (folderLinks folder)
       (if Links folder = [] then []
        else ''<dl>'' @ concat (map linkText (Links folder)) @ ''</dl>'')
 \<and> writes (folderList folders)
       (if folders = [] then []
        else ''<ul>'' @ concat (map (\<lambda>f. ''<li>'' @ folderText f @ ''</li>'') folders) @ ''</ul>'')
 \<and> (Links folder = [] \<longrightarrow> writes (folderLinks folder) [])
 \<and> (folders = [] \<longrightarrow> writes (folderList folders) [])
 \<and> (Links folder = [] \<and> Folders folder = [] \<longrightarrow>
      writes (htmlListArgs [folderName folder, folderLinks folder, folderList (Folders folder)])
        (''<h4>'' @ EscapeString (Name (folderNode folder)) @ ''</h4>''))"
proof -
  have a: "Links folder = [] \<longrightarrow> writes (folderLinks folder) []"
    using writes_folderLinks [of folder] by (cases "Links folder = []") simp_all
  have b: "folders = [] \<longrightarrow> writes (folderList folders) []"
    using writes_folderList [of folders] by (cases "folders = []") simp_all
  have c: "Links folder = [] \<and> Folders folder = [] \<longrightarrow>
      writes (htmlListArgs [folderName folder, folderLinks folder, folderList (Folders folder)])
        (''<h4>'' @ EscapeString (Name (folderNode folder)) @ ''</h4>'')"
  proof (intro impI, elim conjE)
    assume "Links folder = []" "Folders folder = []"
    with writes_folder [of folder]
    show "writes (htmlListArgs [folderName folder, folderLinks folder,
                     folderList (Folders folder)])
        (''<h4>'' @ EscapeString (Name (folderNode folder)) @ ''</h4>'')"
      by (simp add: folderText_eq [of folder])
  qed
  from a b c show ?thesis
    using writes_folder [of folder] folderText_eq [of folder] writes_folderName [of folder]
      writes_folderLinks [of folder] writes_folderList [of folders]
    by (intro conjI)
qed

theorem folder_rendering_witness:
  "writes (htmlListArgs [folderName (Folder \<lparr>Name = ''A&B'', Key = ''#1'', Added = zeroTime,
      Modified = zeroTime\<rparr> [] []), folderLinks (Folder \<lparr>Name = ''A&B'', Key = ''#1'', Added =
      zeroTime, Modified = zeroTime\<rparr> [] []),
        folderList (Folders (Folder \<lparr>Name = ''A&B'', Key = ''#1'', Added = zeroTime, Modified =
            zeroTime\<rparr> [] []))])
     ''<h4>A&amp;B</h4>''
 \<and> writes (folderLinks (Folder \<lparr>Name = ''A&B'', Key = ''#1'', Added = zeroTime, Modified = zeroTime\<rparr>
     [] [])) []
 \<and> writes (folderList (Folders (Folder \<lparr>Name = ''A&B'', Key = ''#1'', Added = zeroTime, Modified =
     zeroTime\<rparr> [] []))) []
 \<and> writes (htmlListArgs [folderName (Folder \<lparr>Name = ''F'', Key = ''f'', Added = zeroTime, Modified =
     zeroTime\<rparr> [\<lparr>Name = ''<L>'', Key = ''#0'', Added = zeroTime, Modified = zeroTime, URL = ''u'' @
     [CHR 0x22, CHR 0x27]\<rparr>] [Folder \<lparr>Name = ''A&B'', Key = ''#1'', Added = zeroTime, Modified =
     zeroTime\<rparr> [] []]),
        folderLinks (Folder \<lparr>Name = ''F'', Key = ''f'', Added = zeroTime, Modified = zeroTime\<rparr>
            [\<lparr>Name = ''<L>'', Key = ''#0'', Added = zeroTime, Modified = zeroTime, URL = ''u'' @
            [CHR 0x22, CHR 0x27]\<rparr>] [Folder \<lparr>Name = ''A&B'', Key = ''#1'', Added = zeroTime, Modified
            = zeroTime\<rparr> [] []]),
        folderList (Folders (Folder \<lparr>Name = ''F'', Key = ''f'', Added = zeroTime, Modified =
            zeroTime\<rparr> [\<lparr>Name = ''<L>'', Key = ''#0'', Added = zeroTime, Modified = zeroTime, URL =
            ''u'' @ [CHR 0x22, CHR 0x27]\<rparr>] [Folder \<lparr>Name = ''A&B'', Key = ''#1'', Added = zeroTime,
            Modified = zeroTime\<rparr> [] []]))])
     (''<h4>F</h4><dl><dt><a href='' @ [CHR 0x22] @ ''u&#34;&#39;'' @ [CHR 0x22] @
         ''>&lt;L&gt;</a></dt></dl><ul><li><h4>A&amp;B</h4></li></ul>'')"
proof -
  let ?F0 = "Folder \<lparr>Name = ''A&B'', Key = ''#1'', Added = zeroTime, Modified = zeroTime\<rparr> [] []"
  let ?F1 = "Folder \<lparr>Name = ''F'', Key = ''f'', Added = zeroTime, Modified = zeroTime\<rparr> [\<lparr>Name =
      ''<L>'', Key = ''#0'', Added = zeroTime, Modified = zeroTime, URL = ''u'' @ [CHR 0x22, CHR
      0x27]\<rparr>] [Folder \<lparr>Name = ''A&B'', Key = ''#1'', Added = zeroTime, Modified = zeroTime\<rparr> [] []]"
  have a: "writes (htmlListArgs [folderName ?F0, folderLinks ?F0, folderList (Folders ?F0)])
      ''<h4>A&amp;B</h4>''"
    using folder_rendering [where folder = ?F0 and folders = "[]", THEN conjunct2, THEN conjunct2,
        THEN conjunct2, THEN conjunct2, THEN conjunct2, THEN conjunct2, THEN conjunct2]
    by (simp add: EscapeString_def escapeChar_def)
  have b: "writes (folderLinks ?F0) []"
    using folder_rendering [where folder = ?F0 and folders = "[]", THEN conjunct2, THEN conjunct2,
        THEN conjunct2, THEN conjunct2, THEN conjunct2, THEN conjunct1]
    by simp
  have c: "writes (folderList (Folders ?F0)) []"
    using folder_rendering [where folder = ?F0 and folders = "[]", THEN conjunct2, THEN conjunct2,
        THEN conjunct2, THEN conjunct2, THEN conjunct2, THEN conjunct2, THEN conjunct1]
    by simp
  have d: "writes (htmlListArgs [folderName ?F1, folderLinks ?F1, folderList (Folders ?F1)])
      (''<h4>F</h4><dl><dt><a href='' @ [CHR 0x22] @ ''u&#34;&#39;'' @ [CHR 0x22] @
          ''>&lt;L&gt;</a></dt></dl><ul><li><h4>A&amp;B</h4></li></ul>'')"
    using folder_rendering [where folder = ?F1 and folders = "[]", THEN conjunct1]
    by (simp add: linkText_def EscapeString_def escapeChar_def)
  from a b c d show ?thesis
    by (intro conjI)
qed

lemma writes_foldersToHTML:
  "writes (foldersToHTML folders)
     (htmlHeader @ ''<body>''
      @ (if folders = [] then []
         else ''<ul>'' @ concat (map (\<lambda>f. ''<li>'' @ folderText f @ ''</li>'') folders) @ ''</ul>'')
      @ ''</body>'' @ ''</html>'' @ [CHR 0x0A])"
proof -
  have eq: "foldersToHTML folders =
      htmlList [htmlRawText htmlHeader, htmlTag ''body'' (folderList folders),
                htmlRawText (''</html>'' @ [CHR 0x0A])]"
    by (rule ext) (simp add: foldersToHTML_def htmlListArgs_def)
  have "writes (htmlList [htmlRawText htmlHeader, htmlTag ''body'' (folderList folders),
                htmlRawText (''</html>'' @ [CHR 0x0A])])
      (htmlHeader
       @ (''<'' @ ''body'' @ ''>''
          @ (if folders = [] then []
             else ''<ul>'' @ concat (map (\<lambda>f. ''<li>'' @ folderText f @ ''</li>'') folders)
                  @ ''</ul>'')
          @ ''</'' @ ''body'' @ ''>'')
       @ (''</html>'' @ [CHR 0x0A]) @ [])"
    by (intro writes_htmlList_Cons writes_htmlList_Nil writes_htmlRawText writes_htmlTag
        writes_folderList)
  then show ?thesis
    by (simp add: eq)
qed

lemma piecesText_simps:
  "piecesText [] = []" "piecesText (p # ps) = pieceText p @ piecesText ps"
  "piecesText (ps @ qs) = piecesText ps @ piecesText qs"
  "piecesText (concat pss) = concat (map piecesText pss)"
  by (induction pss) (simp_all add: piecesText_def)

lemma templatesOf_append: "templatesOf (ps @ qs) = templatesOf ps @ templatesOf qs"
  by (induction ps rule: templatesOf.induct) simp_all

lemma templatesOf_concat: "templatesOf (concat pss) = concat (map templatesOf pss)"
  by (induction pss) (simp_all add: templatesOf_append)

lemma fieldsOf_append: "fieldsOf (ps @ qs) = fieldsOf ps @ fieldsOf qs"
  by (induction ps rule: fieldsOf.induct) simp_all

lemma fieldsOf_concat: "fieldsOf (concat pss) = concat (map fieldsOf pss)"
  by (induction pss) (simp_all add: fieldsOf_append)

lemma piecesText_link: "piecesText (linkPieces lnk) = linkText lnk"
  by (simp add: piecesText_simps linkPieces_def linkText_def)

lemma piecesText_links:
  "piecesText (linksPieces links) =
     (if links = [] then [] else ''<dl>'' @ concat (map linkText links) @ ''</dl>'')"
  by (simp add: piecesText_simps linksPieces_def piecesText_link comp_def)

lemma piecesText_folder: "piecesText (folderPieces folder) = folderText folder"
proof (induction folder)
  case (Folder nd links folders)
  then show ?case
    by (simp add: piecesText_simps piecesText_links comp_def cong: map_cong)
qed

lemma piecesText_list:
  "piecesText (listPieces folders) =
     (if folders = [] then []
      else ''<ul>'' @ concat (map (\<lambda>f. ''<li>'' @ folderText f @ ''</li>'') folders) @ ''</ul>'')"
  by (simp add: piecesText_simps listPieces_def piecesText_folder comp_def)

lemma piecesText_document:
  "piecesText (documentPieces folders) =
     htmlHeader @ ''<body>''
      @ (if folders = [] then []
         else ''<ul>'' @ concat (map (\<lambda>f. ''<li>'' @ folderText f @ ''</li>'') folders) @ ''</ul>'')
      @ ''</body>'' @ ''</html>'' @ [CHR 0x0A]"
  by (simp add: piecesText_simps(1-3) documentPieces_def piecesText_list)

lemma templatesOf_links: "set (templatesOf (linksPieces links)) \<subseteq> set templates"
  by (auto simp: linksPieces_def templatesOf_append templatesOf_concat linkPieces_def templates_def)

lemma templatesOf_folder: "set (templatesOf (folderPieces folder)) \<subseteq> set templates"
proof (induction folder)
  case (Folder nd links folders)
  have "set (templatesOf (linksPieces links)) \<subseteq> set templates"
    by (rule templatesOf_links)
  moreover have "''<h4>'' \<in> set templates" "''</h4>'' \<in> set templates" "''<ul>'' \<in> set templates"
    "''</ul>'' \<in> set templates" "''<li>'' \<in> set templates" "''</li>'' \<in> set templates"
    by (simp_all add: templates_def)
  ultimately show ?case
    using Folder by (auto simp: templatesOf_append templatesOf_concat)
qed

lemma templatesOf_document: "set (templatesOf (documentPieces folders)) \<subseteq> set templates"
proof -
  have "htmlHeader \<in> set templates" "''<body>'' \<in> set templates" "''</body>'' \<in> set templates"
    "''</html>'' @ [CHR 0x0A] \<in> set templates"  "''<ul>'' \<in> set templates"
    "''</ul>'' \<in> set templates" "''<li>'' \<in> set templates" "''</li>'' \<in> set templates"
    by (simp_all add: templates_def)
  then show ?thesis
    using templatesOf_folder
    by (auto simp: documentPieces_def listPieces_def templatesOf_append templatesOf_concat)
qed

lemma fieldsOf_links:
  "fieldsOf (linksPieces links) = concat (map (\<lambda>lnk. [URL lnk, Name lnk]) links)"
  by (simp add: linksPieces_def fieldsOf_append fieldsOf_concat linkPieces_def comp_def)

lemma fieldsOf_folder: "fieldsOf (folderPieces folder) = folderFields folder"
proof (induction folder)
  case (Folder nd links folders)
  then show ?case
    by (simp add: fieldsOf_append fieldsOf_concat fieldsOf_links comp_def cong: map_cong)
qed

lemma fieldsOf_document:
  "fieldsOf (documentPieces folders) = concat (map folderFields folders)"
  by (simp add: documentPieces_def listPieces_def fieldsOf_append fieldsOf_concat
      fieldsOf_folder comp_def)


lemma writes_document:
  "writes (foldersToHTML folders) (piecesText (documentPieces folders))"
  using writes_foldersToHTML [of folders] by (simp only: piecesText_document)

lemma main_pieces:
  "buildTree ''roots'' data = Inr root \<Longrightarrow>
   main data (unlimited buf)
     = (None, unlimited (buf @ piecesText (documentPieces (Folders root))))"
  using writes_document [of "Folders root"] by (simp add: main_def writes_def)

text \<open>
  C5. The escaped form of a string is made of plain bytes other than \<^verbatim>\<open>&\<close>, \<^verbatim>\<open><\<close>,
  \<^verbatim>\<open>>\<close>, \<^verbatim>\<open>"\<close>, \<^verbatim>\<open>'\<close> and of the five entities, so the last four bytes do not
  occur in it and every \<^verbatim>\<open>&\<close> starts an entity; reading the entities back gives the
  string. A name and a URL reach the output only in that form: what \<^verbatim>\<open>folderLinks\<close>,
  \<^verbatim>\<open>folderList\<close>, the writer of a folder and \<^verbatim>\<open>foldersToHTML\<close> write, and so what the
  program writes for a document that builds, is the text of a sequence of pieces in which
  every piece written as it is is one of the literal fragments of the template, and the
  pieces written escaped are the names and URLs of the folders, each in its place: the
  name of a folder in its heading, the URL of a link in the \<^verbatim>\<open>href\<close> of its anchor and
  its name in the text of the anchor.
\<close>

theorem escaping:
  "escaped (EscapeString s)
 \<and> set (EscapeString s) \<inter> {CHR ''<'', CHR ''>'', CHR 0x22, CHR 0x27} = {}
 \<and> unescape (EscapeString s) = s
 \<and> writes (htmlText s) (EscapeString s)
 \<and> writes (htmlLink link s)
       (''<a href='' @ [CHR 0x22] @ EscapeString link @ [CHR 0x22] @ ''>''
        @ EscapeString s @ ''</a>'')
 \<and> writes (folderName folder) (''<h4>'' @ EscapeString (Name (folderNode folder)) @ ''</h4>'')
 \<and> writes (htmlTag ''dt'' (htmlLink (URL (lnk :: Link)) (Name lnk)))
       (''<dt><a href='' @ [CHR 0x22] @ EscapeString (URL lnk) @ [CHR 0x22] @ ''>''
        @ EscapeString (Name lnk) @ ''</a></dt>'')
 \<and> writes (folderLinks folder) (piecesText (linksPieces (Links folder)))
 \<and> writes (folderList folders) (piecesText (listPieces folders))
 \<and> writes (htmlListArgs [folderName folder, folderLinks folder, folderList (Folders folder)])
       (piecesText (folderPieces folder))
 \<and> writes (foldersToHTML folders) (piecesText (documentPieces folders))
 \<and> (buildTree ''roots'' data = Inr root \<longrightarrow>
       main data (unlimited buf)
         = (None, unlimited (buf @ piecesText (documentPieces (Folders root)))))
 \<and> set (templatesOf (documentPieces folders)) \<subseteq> set templates
 \<and> fieldsOf (documentPieces folders) = concat (map folderFields folders)"
proof -
  have a: "writes (folderLinks folder) (piecesText (linksPieces (Links folder)))"
    using writes_folderLinks [of folder] by (simp only: piecesText_links)
  have b: "writes (folderList folders) (piecesText (listPieces folders))"
    using writes_folderList [of folders] by (simp only: piecesText_list)
  have c: "writes (htmlListArgs [folderName folder, folderLinks folder,
      folderList (Folders folder)]) (piecesText (folderPieces folder))"
    using writes_folder [of folder] by (simp only: piecesText_folder)
  have d: "buildTree ''roots'' data = Inr root \<longrightarrow>
       main data (unlimited buf)
         = (None, unlimited (buf @ piecesText (documentPieces (Folders root))))"
    by (intro impI) (rule main_pieces)
  have e: "writes (htmlTag ''dt'' (htmlLink (URL lnk) (Name lnk)))
       (''<dt><a href='' @ [CHR 0x22] @ EscapeString (URL lnk) @ [CHR 0x22] @ ''>''
        @ EscapeString (Name lnk) @ ''</a></dt>'')"
    using writes_link [of lnk] by (simp only: linkText_def)
  show ?thesis
    using escaped_EscapeString [of s] escaped_no_special [OF escaped_EscapeString, of s]
      unescape_EscapeString [of s] writes_htmlText [of s] writes_htmlLink [of link s]
      writes_folderName [of folder] e a b c writes_document [of folders] d
      templatesOf_document [of folders] fieldsOf_document [of folders]
    by (intro conjI)
qed

theorem escaping_witness:
  "EscapeString (''<a&b>'' @ [CHR 0x22, CHR 0x27]) = ''&lt;a&amp;b&gt;&#34;&#39;''
 \<and> escaped ''&lt;a&amp;b&gt;&#34;&#39;''
 \<and> unescape ''&lt;a&amp;b&gt;&#34;&#39;'' = ''<a&b>'' @ [CHR 0x22, CHR 0x27]
 \<and> writes (htmlText (''<a&b>'' @ [CHR 0x22, CHR 0x27])) ''&lt;a&amp;b&gt;&#34;&#39;''
 \<and> writes (folderLinks (Folder \<lparr>Name = ''R&D'', Key = ''bar'', Added = zeroTime,
         Modified = zeroTime\<rparr>
       [\<lparr>Name = ''<b>'', Key = ''#0'', Added = zeroTime, Modified = zeroTime,
         URL = ''x?a='' @ [CHR 0x22] @ ''1'' @ [CHR 0x27] @ ''&c''\<rparr>] []))
     (''<dl><dt><a href='' @ [CHR 0x22] @ ''x?a=&#34;1&#39;&amp;c'' @ [CHR 0x22]
      @ ''>&lt;b&gt;</a></dt></dl>'')
 \<and> writes (folderList [Folder \<lparr>Name = ''R&D'', Key = ''bar'', Added = zeroTime,
         Modified = zeroTime\<rparr>
       [\<lparr>Name = ''<b>'', Key = ''#0'', Added = zeroTime, Modified = zeroTime,
         URL = ''x?a='' @ [CHR 0x22] @ ''1'' @ [CHR 0x27] @ ''&c''\<rparr>] []])
     (''<ul><li><h4>R&amp;D</h4><dl><dt><a href='' @ [CHR 0x22] @ ''x?a=&#34;1&#39;&amp;c''
      @ [CHR 0x22] @ ''>&lt;b&gt;</a></dt></dl></li></ul>'')
 \<and> main (JObject [(''bar'', JObject [(''type'', JString ''folder''), (''name'', JString ''R&D''),
        (''date_added'', JString ''0''), (''children'', JArray [JObject [(''type'', JString ''url''),
        (''name'', JString ''<b>''),
        (''url'', JString (''x?a='' @ [CHR 0x22] @ ''1'' @ [CHR 0x27] @ ''&c'')),
        (''date_added'', JString ''0'')]])])]) (unlimited [])
     = (None, unlimited (htmlHeader @ ''<body><ul><li><h4>R&amp;D</h4><dl><dt><a href=''
         @ [CHR 0x22] @ ''x?a=&#34;1&#39;&amp;c'' @ [CHR 0x22]
         @ ''>&lt;b&gt;</a></dt></dl></li></ul></body></html>'' @ [CHR 0x0A]))
 \<and> fieldsOf (documentPieces [Folder \<lparr>Name = ''R&D'', Key = ''bar'', Added = zeroTime,
         Modified = zeroTime\<rparr>
       [\<lparr>Name = ''<b>'', Key = ''#0'', Added = zeroTime, Modified = zeroTime,
         URL = ''x?a='' @ [CHR 0x22] @ ''1'' @ [CHR 0x27] @ ''&c''\<rparr>] []])
     = [''R&D'', ''x?a='' @ [CHR 0x22] @ ''1'' @ [CHR 0x27] @ ''&c'', ''<b>'']"
proof -
  let ?L = "\<lparr>Name = ''<b>'', Key = ''#0'', Added = zeroTime, Modified = zeroTime,
      URL = ''x?a='' @ [CHR 0x22] @ ''1'' @ [CHR 0x27] @ ''&c''\<rparr>"
  let ?F = "Folder \<lparr>Name = ''R&D'', Key = ''bar'', Added = zeroTime, Modified = zeroTime\<rparr> [?L] []"
  let ?doc = "JObject [(''bar'', JObject [(''type'', JString ''folder''), (''name'', JString ''R&D''),
        (''date_added'', JString ''0''), (''children'', JArray [JObject [(''type'', JString ''url''),
        (''name'', JString ''<b>''),
        (''url'', JString (''x?a='' @ [CHR 0x22] @ ''1'' @ [CHR 0x27] @ ''&c'')),
        (''date_added'', JString ''0'')]])])]"
  let ?root = "Folder \<lparr>Name = ''roots'', Key = ''roots'', Added = zeroTime, Modified = zeroTime\<rparr> []
      [Folder \<lparr>Name = ''R&D'', Key = ''bar'', Added = \<lparr>sec = 50491123200, nsec = 0\<rparr>,
         Modified = zeroTime\<rparr>
       [\<lparr>Name = ''<b>'', Key = ''#0'', Added = \<lparr>sec = 50491123200, nsec = 0\<rparr>,
         Modified = zeroTime, URL = ''x?a='' @ [CHR 0x22] @ ''1'' @ [CHR 0x27] @ ''&c''\<rparr>] []]"
  have e: "EscapeString (''<a&b>'' @ [CHR 0x22, CHR 0x27]) = ''&lt;a&amp;b&gt;&#34;&#39;''"
    by (simp add: EscapeString_def escapeChar_def)
  note E = escaping [where s = "''<a&b>'' @ [CHR 0x22, CHR 0x27]"]
  have a: "escaped ''&lt;a&amp;b&gt;&#34;&#39;''"
    using E [THEN conjunct1] unfolding e .
  have b: "unescape ''&lt;a&amp;b&gt;&#34;&#39;'' = ''<a&b>'' @ [CHR 0x22, CHR 0x27]"
    using E [THEN conjunct2, THEN conjunct2, THEN conjunct1] unfolding e .
  have c: "writes (htmlText (''<a&b>'' @ [CHR 0x22, CHR 0x27])) ''&lt;a&amp;b&gt;&#34;&#39;''"
    using E [THEN conjunct2, THEN conjunct2, THEN conjunct2, THEN conjunct1] unfolding e .
  note pieces_eval = piecesText_def linksPieces_def listPieces_def documentPieces_def
    linkPieces_def EscapeString_def escapeChar_def
  have d: "writes (folderLinks ?F)
     (''<dl><dt><a href='' @ [CHR 0x22] @ ''x?a=&#34;1&#39;&amp;c'' @ [CHR 0x22]
      @ ''>&lt;b&gt;</a></dt></dl>'')"
    using escaping [where folder = ?F, THEN conjunct2, THEN conjunct2, THEN conjunct2,
        THEN conjunct2, THEN conjunct2, THEN conjunct2, THEN conjunct2, THEN conjunct1]
    by (simp add: pieces_eval)
  have f: "writes (folderList [?F])
     (''<ul><li><h4>R&amp;D</h4><dl><dt><a href='' @ [CHR 0x22] @ ''x?a=&#34;1&#39;&amp;c''
      @ [CHR 0x22] @ ''>&lt;b&gt;</a></dt></dl></li></ul>'')"
    using escaping [where folders = "[?F]", THEN conjunct2, THEN conjunct2, THEN conjunct2,
        THEN conjunct2, THEN conjunct2, THEN conjunct2, THEN conjunct2, THEN conjunct2,
        THEN conjunct1]
    by (simp add: pieces_eval)
  have bt: "buildTree ''roots'' ?doc = Inr ?root"
    by (simp add: buildTree_def makeRootFolder.simps add.simps makeChildFolder.simps
        Node_read_def mapError_def addFolder_def addLink_def makeLink_def Itoa.simps read_eval)
  have g: "main ?doc (unlimited [])
     = (None, unlimited ([] @ piecesText (documentPieces (Folders ?root))))"
    by (rule escaping [where data = ?doc and root = ?root and buf = "[]", THEN conjunct2,
          THEN conjunct2, THEN conjunct2, THEN conjunct2, THEN conjunct2, THEN conjunct2,
          THEN conjunct2, THEN conjunct2, THEN conjunct2, THEN conjunct2, THEN conjunct2,
          THEN conjunct1, THEN mp]) (rule bt)
  have h: "fieldsOf (documentPieces [?F])
     = [''R&D'', ''x?a='' @ [CHR 0x22] @ ''1'' @ [CHR 0x27] @ ''&c'', ''<b>'']"
    using escaping [where folders = "[?F]", THEN conjunct2, THEN conjunct2, THEN conjunct2,
        THEN conjunct2, THEN conjunct2, THEN conjunct2, THEN conjunct2, THEN conjunct2,
        THEN conjunct2, THEN conjunct2, THEN conjunct2, THEN conjunct2, THEN conjunct2]
    by simp
  from e a b c d f g h show ?thesis
    by (simp add: pieces_eval)
qed

section \<open>From the document to the text\<close>

text \<open>
  When the dispatcher accepts a value, what it appends does not depend on the folder it
  appends to; so each loop, when it succeeds, appends in the order of its list what each
  entry adds.
\<close>

lemma childrenLoop_Inr:
  assumes "childrenLoop key folder i cc = Inr f"
  shows "childrenLoop key' folder' i cc =
           Inr (Folder (folderNode folder')
                  (Links folder' @ List.map_filter (\<lambda>(j, v). linkAt (''#'' @ Itoa j) v) (enumerate i
                      cc))
                  (Folders folder' @ List.map_filter (\<lambda>(j, v). folderAt (''#'' @ Itoa j) v)
                      (enumerate i cc)))"
  using assms
proof (induction cc arbitrary: folder folder' i)
  case Nil
  then show ?case
    by (cases folder') (simp add: map_filter_simps)
next
  case (Cons v cc)
  from Cons.prems obtain b where b: "add folder (''#'' @ Itoa i) v = Inr b"
    and rest: "childrenLoop key b (Suc i) cc = Inr f"
    by (auto split: sum.splits)
  let ?b' = "Folder (folderNode folder')
      (Links folder' @ (case linkAt (''#'' @ Itoa i) v of None \<Rightarrow> [] | Some l \<Rightarrow> [l]))
      (Folders folder' @ (case folderAt (''#'' @ Itoa i) v of None \<Rightarrow> [] | Some c \<Rightarrow> [c]))"
  have b': "add folder' (''#'' @ Itoa i) v = Inr ?b'"
    using b by (rule add_Inr)
  have "childrenLoop key' ?b' (Suc i) cc =
      Inr (Folder (folderNode ?b')
             (Links ?b' @ List.map_filter (\<lambda>(j, v). linkAt (''#'' @ Itoa j) v) (enumerate (Suc i)
                 cc))
             (Folders ?b' @ List.map_filter (\<lambda>(j, v). folderAt (''#'' @ Itoa j) v) (enumerate (Suc
                 i) cc)))"
    using rest by (rule Cons.IH)
  with b' show ?case
    by (simp add: map_filter_simps split: option.splits)
qed

lemma rootLoop_Inr:
  assumes "rootLoop key folder node = Inr f"
  shows "rootLoop key' folder' node =
           Inr (Folder (folderNode folder')
                  (Links folder' @ List.map_filter (\<lambda>(k, v). linkAt k v) node)
                  (Folders folder' @ List.map_filter (\<lambda>(k, v). folderAt k v) node))"
  using assms
proof (induction node arbitrary: folder folder')
  case Nil
  then show ?case
    by (cases folder') (simp add: map_filter_simps)
next
  case (Cons kv node)
  obtain k v where kv: "kv = (k, v)"
    by (cases kv)
  from Cons.prems kv obtain b where b: "add folder k v = Inr b"
    and rest: "rootLoop key b node = Inr f"
    by (auto split: sum.splits)
  let ?b' = "Folder (folderNode folder')
      (Links folder' @ (case linkAt k v of None \<Rightarrow> [] | Some l \<Rightarrow> [l]))
      (Folders folder' @ (case folderAt k v of None \<Rightarrow> [] | Some c \<Rightarrow> [c]))"
  have b': "add folder' k v = Inr ?b'"
    using b by (rule add_Inr)
  have "rootLoop key' ?b' node =
      Inr (Folder (folderNode ?b')
             (Links ?b' @ List.map_filter (\<lambda>(k, v). linkAt k v) node)
             (Folders ?b' @ List.map_filter (\<lambda>(k, v). folderAt k v) node))"
    using rest by (rule Cons.IH)
  with b' kv show ?case
    by (simp add: map_filter_simps split: option.splits)
qed

lemma makeChildFolder_children:
  assumes "makeChildFolder key node = Inr f" "map_of node ''children'' = Some (JArray cc)"
  shows "Links f = List.map_filter (\<lambda>(j, v). linkAt (''#'' @ Itoa j) v) (enumerate 0 cc)"
    and "Folders f = List.map_filter (\<lambda>(j, v). folderAt (''#'' @ Itoa j) v) (enumerate 0 cc)"
    and "Node_read key node = Inr (folderNode f)"
proof -
  from assms obtain nd where nd: "Node_read key node = Inr nd"
    and loop: "childrenLoop key (Folder nd [] []) 0 cc = Inr f"
    by (auto simp: makeChildFolder.simps split: sum.splits)
  from childrenLoop_Inr [OF loop, of key "Folder nd [] []"] loop
  have f: "f = Folder nd
      (List.map_filter (\<lambda>(j, v). linkAt (''#'' @ Itoa j) v) (enumerate 0 cc))
      (List.map_filter (\<lambda>(j, v). folderAt (''#'' @ Itoa j) v) (enumerate 0 cc))"
    by simp
  show "Links f = List.map_filter (\<lambda>(j, v). linkAt (''#'' @ Itoa j) v) (enumerate 0 cc)"
    by (subst f) simp
  show "Folders f = List.map_filter (\<lambda>(j, v). folderAt (''#'' @ Itoa j) v) (enumerate 0 cc)"
    by (subst f) simp
  show "Node_read key node = Inr (folderNode f)"
    using nd by (subst f) simp
qed

lemma makeRootFolder_entries:
  assumes "makeRootFolder key node = Inr f"
  shows "Links f = List.map_filter (\<lambda>(k, v). linkAt k v) node"
    and "Folders f = List.map_filter (\<lambda>(k, v). folderAt k v) node"
    and "folderNode f = \<lparr>Name = key, Key = key, Added = zeroTime, Modified = zeroTime\<rparr>"
proof -
  let ?r = "Folder \<lparr>Name = key, Key = key, Added = zeroTime, Modified = zeroTime\<rparr> [] []"
  from assms have loop: "rootLoop key ?r node = Inr f"
    by (simp add: makeRootFolder.simps)
  from rootLoop_Inr [OF loop, of key ?r] loop
  have f: "f = Folder \<lparr>Name = key, Key = key, Added = zeroTime, Modified = zeroTime\<rparr>
      (List.map_filter (\<lambda>(k, v). linkAt k v) node)
      (List.map_filter (\<lambda>(k, v). folderAt k v) node)"
    by simp
  show "Links f = List.map_filter (\<lambda>(k, v). linkAt k v) node"
    by (subst f) simp
  show "Folders f = List.map_filter (\<lambda>(k, v). folderAt k v) node"
    by (subst f) simp
  show "folderNode f = \<lparr>Name = key, Key = key, Added = zeroTime, Modified = zeroTime\<rparr>"
    by (subst f) simp
qed

lemma concat_map_precedes:
  assumes "i < j" "j < length xs"
  shows "\<exists>pre mid post. concat (map t xs) = pre @ t (xs ! i) @ mid @ t (xs ! j) @ post"
proof -
  have i: "i < length xs"
    using assms by simp
  have 1: "xs = take i xs @ xs ! i # drop (Suc i) xs"
    using i by (simp add: id_take_nth_drop)
  have j': "j - Suc i < length (drop (Suc i) xs)"
    using assms by simp
  have "drop (Suc i) xs ! (j - Suc i) = xs ! j"
    using assms by simp
  with id_take_nth_drop [OF j']
  have 2: "drop (Suc i) xs =
      take (j - Suc i) (drop (Suc i) xs) @ xs ! j # drop (Suc (j - Suc i)) (drop (Suc i) xs)"
    by simp
  have "concat (map t xs) =
      concat (map t (take i xs)) @ t (xs ! i) @ concat (map t (drop (Suc i) xs))"
    by (subst 1) simp
  also have "concat (map t (drop (Suc i) xs)) =
      concat (map t (take (j - Suc i) (drop (Suc i) xs))) @ t (xs ! j)
      @ concat (map t (drop (Suc (j - Suc i)) (drop (Suc i) xs)))"
    by (subst 2) simp
  finally show ?thesis
    by blast
qed

text \<open>
  C6. The links of a folder built from a \<^verbatim>\<open>children\<close> array are what the elements of the
  array add as links, taken in the order of the array, and so are its folders (for the
  unlabeled folder of a mapping with no type: in the order in which its entries are
  visited). The generator writes the links, and the folders, in the order of the lists
  of the tree: of two links of a folder, the entry of the one that is earlier in the list
  is written before the entry of the other.
\<close>

theorem order_preserved:
  "(makeChildFolder key node = Inr f \<and> map_of node ''children'' = Some (JArray cc) \<longrightarrow>
      Links f = List.map_filter (\<lambda>(j, v). linkAt (''#'' @ Itoa j) v) (enumerate 0 cc)
    \<and> Folders f = List.map_filter (\<lambda>(j, v). folderAt (''#'' @ Itoa j) v) (enumerate 0 cc))
 \<and> (makeRootFolder key node = Inr f \<longrightarrow>
      Links f = List.map_filter (\<lambda>(k, v). linkAt k v) node
    \<and> Folders f = List.map_filter (\<lambda>(k, v). folderAt k v) node)
 \<and> writes (folderLinks f)
       (if Links f = [] then [] else ''<dl>'' @ concat (map linkText (Links f)) @ ''</dl>'')
 \<and> writes (folderList fs)
       (if fs = [] then []
        else ''<ul>'' @ concat (map (\<lambda>f. ''<li>'' @ folderText f @ ''</li>'') fs) @ ''</ul>'')
 \<and> (i < j \<and> j < length (Links f) \<longrightarrow>
      (\<exists>pre mid post. concat (map linkText (Links f))
         = pre @ linkText (Links f ! i) @ mid @ linkText (Links f ! j) @ post))
 \<and> (i < j \<and> j < length fs \<longrightarrow>
      (\<exists>pre mid post. concat (map (\<lambda>f. ''<li>'' @ folderText f @ ''</li>'') fs)
         = pre @ (''<li>'' @ folderText (fs ! i) @ ''</li>'') @ mid
           @ (''<li>'' @ folderText (fs ! j) @ ''</li>'') @ post))"
  using makeChildFolder_children(1,2) [of key node f cc] makeRootFolder_entries(1,2) [of key node f]
    writes_folderLinks [of f] writes_folderList [of fs]
    concat_map_precedes [of i j "Links f" linkText]
    concat_map_precedes [of i j fs "\<lambda>f. ''<li>'' @ folderText f @ ''</li>''"]
  by blast

theorem order_preserved_witness:
  "makeChildFolder ''f'' [(''type'', JString ''folder''), (''name'', JString ''F''),
      (''date_added'', JString ''0''), (''children'', JArray [JObject [(''type'', JString ''url''),
      (''name'', JString ''A''), (''url'', JString ''a''), (''date_added'', JString ''0'')], JObject
      [(''type'', JString ''folder''), (''name'', JString ''B''), (''date_added'', JString ''0'')],
      JObject [(''type'', JString ''url''), (''name'', JString ''C''), (''url'', JString ''c''),
      (''date_added'', JString ''0'')]])]
     = Inr (Folder \<lparr>Name = ''F'', Key = ''f'', Added = \<lparr>sec = 50491123200, nsec = 0\<rparr>, Modified =
         zeroTime\<rparr> [\<lparr>Name = ''A'', Key = ''#0'', Added = \<lparr>sec = 50491123200, nsec = 0\<rparr>, Modified =
         zeroTime, URL = ''a''\<rparr>, \<lparr>Name = ''C'', Key = ''#2'', Added = \<lparr>sec = 50491123200, nsec = 0\<rparr>,
         Modified = zeroTime, URL = ''c''\<rparr>] [Folder \<lparr>Name = ''B'', Key = ''#1'', Added = \<lparr>sec =
         50491123200, nsec = 0\<rparr>, Modified = zeroTime\<rparr> [] []])
 \<and> List.map_filter (\<lambda>(j, v). linkAt (''#'' @ Itoa j) v) (enumerate 0 [JObject [(''type'', JString
     ''url''), (''name'', JString ''A''), (''url'', JString ''a''), (''date_added'', JString
     ''0'')], JObject [(''type'', JString ''folder''), (''name'', JString ''B''), (''date_added'',
     JString ''0'')], JObject [(''type'', JString ''url''), (''name'', JString ''C''), (''url'',
     JString ''c''), (''date_added'', JString ''0'')]])
     = [\<lparr>Name = ''A'', Key = ''#0'', Added = \<lparr>sec = 50491123200, nsec = 0\<rparr>, Modified = zeroTime, URL
         = ''a''\<rparr>, \<lparr>Name = ''C'', Key = ''#2'', Added = \<lparr>sec = 50491123200, nsec = 0\<rparr>, Modified =
         zeroTime, URL = ''c''\<rparr>]
 \<and> List.map_filter (\<lambda>(j, v). folderAt (''#'' @ Itoa j) v) (enumerate 0 [JObject [(''type'', JString
     ''url''), (''name'', JString ''A''), (''url'', JString ''a''), (''date_added'', JString
     ''0'')], JObject [(''type'', JString ''folder''), (''name'', JString ''B''), (''date_added'',
     JString ''0'')], JObject [(''type'', JString ''url''), (''name'', JString ''C''), (''url'',
     JString ''c''), (''date_added'', JString ''0'')]])
     = [Folder \<lparr>Name = ''B'', Key = ''#1'', Added = \<lparr>sec = 50491123200, nsec = 0\<rparr>, Modified =
         zeroTime\<rparr> [] []]
 \<and> writes (folderLinks (Folder \<lparr>Name = ''F'', Key = ''f'', Added = \<lparr>sec = 50491123200, nsec = 0\<rparr>,
     Modified = zeroTime\<rparr> [\<lparr>Name = ''A'', Key = ''#0'', Added = \<lparr>sec = 50491123200, nsec = 0\<rparr>,
     Modified = zeroTime, URL = ''a''\<rparr>, \<lparr>Name = ''C'', Key = ''#2'', Added = \<lparr>sec = 50491123200,
     nsec = 0\<rparr>, Modified = zeroTime, URL = ''c''\<rparr>] [Folder \<lparr>Name = ''B'', Key = ''#1'', Added = \<lparr>sec
     = 50491123200, nsec = 0\<rparr>, Modified = zeroTime\<rparr> [] []]))
     (''<dl><dt><a href='' @ [CHR 0x22] @ ''a'' @ [CHR 0x22] @ ''>A</a></dt><dt><a href='' @ [CHR
         0x22] @ ''c'' @ [CHR 0x22] @ ''>C</a></dt></dl>'')
 \<and> (\<exists>pre mid post. concat (map linkText [\<lparr>Name = ''A'', Key = ''#0'', Added = \<lparr>sec = 50491123200,
     nsec = 0\<rparr>, Modified = zeroTime, URL = ''a''\<rparr>, \<lparr>Name = ''C'', Key = ''#2'', Added = \<lparr>sec =
     50491123200, nsec = 0\<rparr>, Modified = zeroTime, URL = ''c''\<rparr>])
       = pre @ linkText (\<lparr>Name = ''A'', Key = ''#0'', Added = \<lparr>sec = 50491123200, nsec = 0\<rparr>,
           Modified = zeroTime, URL = ''a''\<rparr>) @ mid @ linkText (\<lparr>Name = ''C'', Key = ''#2'', Added =
           \<lparr>sec = 50491123200, nsec = 0\<rparr>, Modified = zeroTime, URL = ''c''\<rparr>) @ post)"
proof -
  let ?node = "[(''type'', JString ''folder''), (''name'', JString ''F''), (''date_added'', JString
      ''0''), (''children'', JArray [JObject [(''type'', JString ''url''), (''name'', JString
      ''A''), (''url'', JString ''a''), (''date_added'', JString ''0'')], JObject [(''type'',
      JString ''folder''), (''name'', JString ''B''), (''date_added'', JString ''0'')], JObject
      [(''type'', JString ''url''), (''name'', JString ''C''), (''url'', JString ''c''),
      (''date_added'', JString ''0'')]])]"
  let ?cc = "[JObject [(''type'', JString ''url''), (''name'', JString ''A''), (''url'', JString
      ''a''), (''date_added'', JString ''0'')], JObject [(''type'', JString ''folder''), (''name'',
      JString ''B''), (''date_added'', JString ''0'')], JObject [(''type'', JString ''url''),
      (''name'', JString ''C''), (''url'', JString ''c''), (''date_added'', JString ''0'')]]"
  let ?F = "Folder \<lparr>Name = ''F'', Key = ''f'', Added = \<lparr>sec = 50491123200, nsec = 0\<rparr>, Modified =
      zeroTime\<rparr> [\<lparr>Name = ''A'', Key = ''#0'', Added = \<lparr>sec = 50491123200, nsec = 0\<rparr>, Modified =
      zeroTime, URL = ''a''\<rparr>, \<lparr>Name = ''C'', Key = ''#2'', Added = \<lparr>sec = 50491123200, nsec = 0\<rparr>,
      Modified = zeroTime, URL = ''c''\<rparr>] [Folder \<lparr>Name = ''B'', Key = ''#1'', Added = \<lparr>sec =
      50491123200, nsec = 0\<rparr>, Modified = zeroTime\<rparr> [] []]"
  have p: "makeChildFolder ''f'' ?node = Inr ?F"
    by (simp add: makeChildFolder.simps add.simps makeLink_def Node_read_def addLink_def
        addFolder_def Itoa.simps read_eval)
  have c: "map_of ?node ''children'' = Some (JArray ?cc)"
    by simp
  note O = order_preserved [where key = "''f''" and node = ?node and f = ?F and cc = ?cc
      and fs = "[]" and i = 0 and j = 1]
  from O [THEN conjunct1, THEN mp, OF conjI [OF p c]]
  have l: "List.map_filter (\<lambda>(j, v). linkAt (''#'' @ Itoa j) v) (enumerate 0 ?cc)
      = [\<lparr>Name = ''A'', Key = ''#0'', Added = \<lparr>sec = 50491123200, nsec = 0\<rparr>, Modified = zeroTime,
          URL = ''a''\<rparr>, \<lparr>Name = ''C'', Key = ''#2'', Added = \<lparr>sec = 50491123200, nsec = 0\<rparr>, Modified
          = zeroTime, URL = ''c''\<rparr>]"
    and f: "List.map_filter (\<lambda>(j, v). folderAt (''#'' @ Itoa j) v) (enumerate 0 ?cc)
      = [Folder \<lparr>Name = ''B'', Key = ''#1'', Added = \<lparr>sec = 50491123200, nsec = 0\<rparr>, Modified =
          zeroTime\<rparr> [] []]"
    by simp_all
  have w: "writes (folderLinks ?F) (''<dl><dt><a href='' @ [CHR 0x22] @ ''a'' @ [CHR 0x22] @
      ''>A</a></dt><dt><a href='' @ [CHR 0x22] @ ''c'' @ [CHR 0x22] @ ''>C</a></dt></dl>'')"
    using O [THEN conjunct2, THEN conjunct2, THEN conjunct1]
    by (simp add: linkText_def EscapeString_def escapeChar_def)
  have e: "\<exists>pre mid post. concat (map linkText [\<lparr>Name = ''A'', Key = ''#0'', Added = \<lparr>sec =
      50491123200, nsec = 0\<rparr>, Modified = zeroTime, URL = ''a''\<rparr>, \<lparr>Name = ''C'', Key = ''#2'', Added
      = \<lparr>sec = 50491123200, nsec = 0\<rparr>, Modified = zeroTime, URL = ''c''\<rparr>])
       = pre @ linkText (\<lparr>Name = ''A'', Key = ''#0'', Added = \<lparr>sec = 50491123200, nsec = 0\<rparr>,
           Modified = zeroTime, URL = ''a''\<rparr>) @ mid @ linkText (\<lparr>Name = ''C'', Key = ''#2'', Added =
           \<lparr>sec = 50491123200, nsec = 0\<rparr>, Modified = zeroTime, URL = ''c''\<rparr>) @ post"
    using O [THEN conjunct2, THEN conjunct2, THEN conjunct2, THEN conjunct2, THEN conjunct1]
    by simp
  from p l f w e show ?thesis
    by (intro conjI)
qed

text \<open>
  The key under which a node is built is kept in its \<^verbatim>\<open>Key\<close> and, in a link or a typed
  folder, nowhere else; the text of a node does not show it.
\<close>

lemma Node_read_rekey:
  "Node_read key node = Inr nd \<Longrightarrow> Node_read key' node = Inr (nd\<lparr>Key := key'\<rparr>)"
  by (auto simp: Node_read_def split: sum.splits error.splits)

lemma Node_read_Key: "Node_read key node = Inr nd \<Longrightarrow> Key nd = key"
  by (auto simp: Node_read_def split: sum.splits error.splits)

lemma Node_read_Name: "Node_read key node = Inr nd \<Longrightarrow> readString ''name'' node = Inr (Name nd)"
  by (auto simp: Node_read_def split: sum.splits error.splits)

lemma makeLink_Inr:
  assumes "makeLink key node = Inr l"
  obtains nd url where "Node_read key node = Inr nd" "readString ''url'' node = Inr url"
    "l = \<lparr>Name = Name nd, Key = Key nd, Added = Added nd, Modified = Modified nd, URL = url\<rparr>"
  using assms by (auto simp: makeLink_def split: sum.splits)

lemma makeLink_rekey:
  assumes "makeLink key node = Inr l"
  shows "makeLink key' node = Inr (l\<lparr>Key := key'\<rparr>)"
proof -
  from assms obtain nd url where nd: "Node_read key node = Inr nd"
    and url: "readString ''url'' node = Inr url"
    and l: "l = \<lparr>Name = Name nd, Key = Key nd, Added = Added nd, Modified = Modified nd,
                URL = url\<rparr>"
    by (rule makeLink_Inr)
  from nd have "Node_read key' node = Inr (nd\<lparr>Key := key'\<rparr>)"
    by (rule Node_read_rekey)
  with url l show ?thesis
    by (simp add: makeLink_def)
qed

lemma makeLink_Key: "makeLink key node = Inr l \<Longrightarrow> Key l = key"
  by (auto simp: makeLink_def split: sum.splits dest: Node_read_Key)

lemma makeChildFolder_node:
  assumes "makeChildFolder key node = Inr f"
  shows "Node_read key node = Inr (folderNode f)"
proof -
  from assms obtain nd where nd: "Node_read key node = Inr nd"
    by (auto simp: makeChildFolder.simps split: sum.splits)
  show ?thesis
  proof (cases "map_of node ''children''")
    case None
    with assms nd show ?thesis
      by (auto simp: makeChildFolder.simps)
  next
    case (Some c)
    with assms nd obtain cc where "c = JArray cc"
      by (cases c) (auto simp: makeChildFolder.simps)
    with Some assms show ?thesis
      by (simp add: makeChildFolder_children(3))
  qed
qed

lemma makeChildFolder_rekey:
  assumes "makeChildFolder key node = Inr f"
  shows "makeChildFolder key' node
           = Inr (Folder ((folderNode f)\<lparr>Key := key'\<rparr>) (Links f) (Folders f))"
proof -
  from assms obtain nd where nd: "Node_read key node = Inr nd"
    by (auto simp: makeChildFolder.simps split: sum.splits)
  then have nd': "Node_read key' node = Inr (nd\<lparr>Key := key'\<rparr>)"
    by (rule Node_read_rekey)
  have fn: "folderNode f = nd"
    using makeChildFolder_node [OF assms] nd by simp
  show ?thesis
  proof (cases "map_of node ''children''")
    case None
    with assms nd nd' show ?thesis
      by (auto simp: makeChildFolder.simps)
  next
    case (Some c)
    with assms nd obtain cc where c: "c = JArray cc"
      by (cases c) (auto simp: makeChildFolder.simps)
    from assms nd Some c have loop: "childrenLoop key (Folder nd [] []) 0 cc = Inr f"
      by (simp add: makeChildFolder.simps)
    from childrenLoop_Inr [OF loop, of key' "Folder (nd\<lparr>Key := key'\<rparr>) [] []"]
      makeChildFolder_children(1,2) [OF assms, of cc] Some c nd' fn
    show ?thesis
      by (simp add: makeChildFolder.simps)
  qed
qed

lemma linkAt_SomeE:
  assumes "linkAt k v = Some l"
  obtains node where "v = JObject node" "map_of node ''type'' = Some (JString ''url'')"
    "makeLink k node = Inr l"
  using assms by (cases v) (auto simp: linkAt_def split: if_splits sum.splits)

lemma folderAt_SomeE:
  assumes "folderAt k v = Some c"
  obtains node where "v = JObject node" "map_of node ''type'' = Some (JString ''folder'')"
      "makeChildFolder k node = Inr c"
    | node where "v = JObject node" "map_of node ''type'' = None" "makeRootFolder k node = Inr c"
  using assms by (cases v) (auto simp: folderAt_def split: if_splits sum.splits)

lemma linkAt_Key: "linkAt k v = Some l \<Longrightarrow> Key l = k"
  by (erule linkAt_SomeE) (rule makeLink_Key)

lemma folderAt_Key:
  assumes "folderAt k v = Some c"
  shows "Key (folderNode c) = k"
  using assms
proof (cases rule: folderAt_SomeE)
  case (1 node)
  then show ?thesis
    using Node_read_Key [OF makeChildFolder_node] by simp
next
  case (2 node)
  then show ?thesis
    by (simp add: makeRootFolder_entries(3))
qed

lemma linkAt_rekey:
  assumes "linkAt k v = Some l"
  shows "linkAt k' v = Some (l\<lparr>Key := k'\<rparr>)"
  using assms
proof (cases rule: linkAt_SomeE)
  case (1 node)
  from makeLink_rekey [OF 1(3), of k'] 1(1,2) show ?thesis
    by (simp add: linkAt_def)
qed

lemma folderAt_rekey:
  assumes "folderAt k v = Some c" "isTyped v"
  shows "folderAt k' v = Some (Folder ((folderNode c)\<lparr>Key := k'\<rparr>) (Links c) (Folders c))"
  using assms(1)
proof (cases rule: folderAt_SomeE)
  case (1 node)
  from makeChildFolder_rekey [OF 1(3), of k'] 1(1,2) show ?thesis
    by (simp add: folderAt_def)
next
  case (2 node)
  with assms(2) show ?thesis
    by (simp add: isTyped_def)
qed

lemma linkAt_not_url: "\<not> isUrl v \<Longrightarrow> linkAt k v = None"
  by (cases v) (simp_all add: linkAt_def isUrl_def)

lemma folderAt_url: "isUrl v \<Longrightarrow> folderAt k v = None"
  by (cases v) (simp_all add: folderAt_def isUrl_def)

lemma linkText_rekey: "linkText (l\<lparr>Key := k\<rparr>) = linkText l"
  by (simp add: linkText_def)

lemma folderText_rekey:
  "folderText (Folder ((folderNode f)\<lparr>Key := k\<rparr>) (Links f) (Folders f)) = folderText f"
  by (cases f) simp

lemma linkText_linkAt:
  "map_option linkText (linkAt k v) = map_option linkText (linkAt k' v)"
proof (cases "linkAt k v")
  case None
  have "linkAt k' v = None"
  proof (cases "linkAt k' v")
    case (Some l)
    from linkAt_rekey [OF Some, of k] None show ?thesis
      by simp
  qed simp
  with None show ?thesis
    by simp
next
  case (Some l)
  from linkAt_rekey [OF Some, of k'] Some show ?thesis
    by (simp add: linkText_rekey)
qed

lemma folderText_folderAt:
  assumes "isTyped v"
  shows "map_option folderText (folderAt k v) = map_option folderText (folderAt k' v)"
proof (cases "folderAt k v")
  case None
  have "folderAt k' v = None"
  proof (cases "folderAt k' v")
    case (Some c)
    from folderAt_rekey [OF Some assms, of k] None show ?thesis
      by simp
  qed simp
  with None show ?thesis
    by simp
next
  case (Some c)
  from folderAt_rekey [OF Some assms, of k'] Some show ?thesis
    by (simp only: option.map folderText_rekey)
qed

lemma link_texts:
  "map linkText (List.map_filter (\<lambda>(j, v). linkAt (''#'' @ Itoa j) v) (enumerate i cc))
     = List.map_filter (\<lambda>v. map_option linkText (linkAt [] v)) (filter isUrl cc)"
proof (induction cc arbitrary: i)
  case Nil
  then show ?case
    by (simp add: map_filter_simps)
next
  case (Cons v cc)
  show ?case
  proof (cases "isUrl v")
    case False
    then have "linkAt (''#'' @ Itoa i) v = None"
      by (rule linkAt_not_url)
    with False Cons.IH [of "Suc i"] show ?thesis
      by (simp add: map_filter_simps)
  next
    case True
    from linkText_linkAt [of "''#'' @ Itoa i" v "[]"] True Cons.IH [of "Suc i"] show ?thesis
      by (cases "linkAt (''#'' @ Itoa i) v"; cases "linkAt [] v")
         (simp_all add: map_filter_simps)
  qed
qed

lemma folder_texts:
  assumes "list_all isTyped cc"
  shows "map folderText (List.map_filter (\<lambda>(j, v). folderAt (''#'' @ Itoa j) v) (enumerate i cc))
     = List.map_filter (\<lambda>v. map_option folderText (folderAt [] v)) (filter (\<lambda>v. \<not> isUrl v) cc)"
  using assms
proof (induction cc arbitrary: i)
  case Nil
  then show ?case
    by (simp add: map_filter_simps)
next
  case (Cons v cc)
  then have IH: "map folderText
        (List.map_filter (\<lambda>(j, v). folderAt (''#'' @ Itoa j) v) (enumerate (Suc i) cc))
      = List.map_filter (\<lambda>v. map_option folderText (folderAt [] v)) (filter (\<lambda>v. \<not> isUrl v) cc)"
    and v: "isTyped v"
    by simp_all
  show ?case
  proof (cases "isUrl v")
    case True
    then have "folderAt (''#'' @ Itoa i) v = None"
      by (rule folderAt_url)
    with True IH show ?thesis
      by (simp add: map_filter_simps)
  next
    case False
    from folderText_folderAt [OF v, of "''#'' @ Itoa i" "[]"] False IH show ?thesis
      by (cases "folderAt (''#'' @ Itoa i) v"; cases "folderAt [] v")
         (simp_all only: map_filter_simps enumerate_simps filter.simps list.map option.map
            option.case prod.case if_False if_True not_False_eq_True option.distinct
            option.inject refl)
  qed
qed

lemma folderText_cong:
  assumes "Name (folderNode f) = Name (folderNode g)"
    and "map linkText (Links f) = map linkText (Links g)"
    and "map folderText (Folders f) = map folderText (Folders g)"
  shows "folderText f = folderText g"
proof -
  have l: "Links f = [] \<longleftrightarrow> Links g = []"
    using assms(2) by (metis map_is_Nil_conv)
  have s: "Folders f = [] \<longleftrightarrow> Folders g = []"
    using assms(3) by (metis map_is_Nil_conv)
  have "concat (map (\<lambda>t. ''<li>'' @ t @ ''</li>'') (map folderText (Folders f)))
      = concat (map (\<lambda>t. ''<li>'' @ t @ ''</li>'') (map folderText (Folders g)))"
    by (simp only: assms(3))
  then have c: "concat (map (\<lambda>f. ''<li>'' @ folderText f @ ''</li>'') (Folders f))
      = concat (map (\<lambda>f. ''<li>'' @ folderText f @ ''</li>'') (Folders g))"
    by (simp add: comp_def)
  show ?thesis
    by (simp only: folderText_eq [of f] folderText_eq [of g] assms(1,2) l s c)
qed

lemma child_keys:
  assumes "makeChildFolder key node = Inr f" "map_of node ''children'' = Some (JArray cc)"
  shows "map Key (Links f) = map (\<lambda>(j, v). ''#'' @ Itoa j)
           (filter (\<lambda>(j, v). linkAt (''#'' @ Itoa j) v \<noteq> None) (enumerate 0 cc))"
    and "map (\<lambda>c. Key (folderNode c)) (Folders f) = map (\<lambda>(j, v). ''#'' @ Itoa j)
           (filter (\<lambda>(j, v). folderAt (''#'' @ Itoa j) v \<noteq> None) (enumerate 0 cc))"
proof -
  have "Key (the (linkAt (''#'' @ Itoa j) v)) = ''#'' @ Itoa j"
    if "linkAt (''#'' @ Itoa j) v \<noteq> None" for j v
    using that linkAt_Key by fastforce
  then show "map Key (Links f) = map (\<lambda>(j, v). ''#'' @ Itoa j)
      (filter (\<lambda>(j, v). linkAt (''#'' @ Itoa j) v \<noteq> None) (enumerate 0 cc))"
    unfolding makeChildFolder_children(1) [OF assms] map_filter_def
    by (auto simp: case_prod_unfold)
  have "Key (folderNode (the (folderAt (''#'' @ Itoa j) v))) = ''#'' @ Itoa j"
    if "folderAt (''#'' @ Itoa j) v \<noteq> None" for j v
    using that folderAt_Key by fastforce
  then show "map (\<lambda>c. Key (folderNode c)) (Folders f) = map (\<lambda>(j, v). ''#'' @ Itoa j)
      (filter (\<lambda>(j, v). folderAt (''#'' @ Itoa j) v \<noteq> None) (enumerate 0 cc))"
    unfolding makeChildFolder_children(2) [OF assms] map_filter_def
    by (auto simp: case_prod_unfold)
qed

lemma interleaving_text:
  assumes "makeChildFolder key n1 = Inr f1" "makeChildFolder key n2 = Inr f2"
    and "map_of n1 ''name'' = map_of n2 ''name''"
    and "map_of n1 ''children'' = Some (JArray cc1)" "map_of n2 ''children'' = Some (JArray cc2)"
    and "list_all isTyped cc1" "list_all isTyped cc2"
    and "filter isUrl cc1 = filter isUrl cc2"
    and "filter (\<lambda>v. \<not> isUrl v) cc1 = filter (\<lambda>v. \<not> isUrl v) cc2"
  shows "folderText f1 = folderText f2"
proof (rule folderText_cong)
  have "readString ''name'' n1 = readString ''name'' n2"
    using assms(3) by (simp add: readString_def)
  with Node_read_Name [OF makeChildFolder_node [OF assms(1)]]
    Node_read_Name [OF makeChildFolder_node [OF assms(2)]]
  show "Name (folderNode f1) = Name (folderNode f2)"
    by simp
  show "map linkText (Links f1) = map linkText (Links f2)"
    by (simp only: makeChildFolder_children(1) [OF assms(1,4)]
        makeChildFolder_children(1) [OF assms(2,5)] link_texts assms(8))
  show "map folderText (Folders f1) = map folderText (Folders f2)"
    by (simp only: makeChildFolder_children(2) [OF assms(1,4)]
        makeChildFolder_children(2) [OF assms(2,5)] folder_texts [OF assms(6)]
        folder_texts [OF assms(7)] assms(9))
qed

text \<open>Facts for running the builder and the texts on a concrete document.\<close>

lemmas tree_eval = makeChildFolder.simps add.simps makeLink_def Node_read_def addLink_def
  addFolder_def mapError_def Itoa.simps

lemmas text_eval = folderText.simps linkText_def EscapeString_def escapeChar_def

text \<open>
  C10, as the code has it. What is written for a folder is its heading, then the whole
  \<^verbatim>\<open><dl>\<close> of its links, then the \<^verbatim>\<open><ul>\<close> of its subfolders, whatever the order of
  links and folders in the \<^verbatim>\<open>children\<close> array was. Two typed folders with the same name
  whose \<^verbatim>\<open>children\<close>, all of them with a type tag, hold the same links in the same order
  and the same folders in the same order have the same text. The tree does keep the
  place of each child in the array: the key of a link or of a subfolder is \<^verbatim>\<open>#\<close> and its
  index.
\<close>

theorem links_before_folders:
  "writes (htmlListArgs [folderName f, folderLinks f, folderList (Folders f)])
     (''<h4>'' @ EscapeString (Name (folderNode f)) @ ''</h4>''
      @ (if Links f = [] then [] else ''<dl>'' @ concat (map linkText (Links f)) @ ''</dl>'')
      @ (if Folders f = [] then []
         else ''<ul>'' @ concat (map (\<lambda>f. ''<li>'' @ folderText f @ ''</li>'') (Folders f))
              @ ''</ul>''))
 \<and> (makeChildFolder key n1 = Inr f1 \<and> makeChildFolder key n2 = Inr f2
      \<and> map_of n1 ''name'' = map_of n2 ''name''
      \<and> map_of n1 ''children'' = Some (JArray cc1) \<and> map_of n2 ''children'' = Some (JArray cc2)
      \<and> list_all isTyped cc1 \<and> list_all isTyped cc2
      \<and> filter isUrl cc1 = filter isUrl cc2
      \<and> filter (\<lambda>v. \<not> isUrl v) cc1 = filter (\<lambda>v. \<not> isUrl v) cc2 \<longrightarrow>
      folderText f1 = folderText f2
      \<and> writes (htmlListArgs [folderName f2, folderLinks f2, folderList (Folders f2)])
          (folderText f1))
 \<and> (makeChildFolder key n1 = Inr f1 \<and> map_of n1 ''children'' = Some (JArray cc1) \<longrightarrow>
      map Key (Links f1) = map (\<lambda>(j, v). ''#'' @ Itoa j)
        (filter (\<lambda>(j, v). linkAt (''#'' @ Itoa j) v \<noteq> None) (enumerate 0 cc1))
      \<and> map (\<lambda>c. Key (folderNode c)) (Folders f1) = map (\<lambda>(j, v). ''#'' @ Itoa j)
        (filter (\<lambda>(j, v). folderAt (''#'' @ Itoa j) v \<noteq> None) (enumerate 0 cc1)))"
proof (intro conjI impI)
  show "writes (htmlListArgs [folderName f, folderLinks f, folderList (Folders f)])
     (''<h4>'' @ EscapeString (Name (folderNode f)) @ ''</h4>''
      @ (if Links f = [] then [] else ''<dl>'' @ concat (map linkText (Links f)) @ ''</dl>'')
      @ (if Folders f = [] then []
         else ''<ul>'' @ concat (map (\<lambda>f. ''<li>'' @ folderText f @ ''</li>'') (Folders f))
              @ ''</ul>''))"
    using writes_folder [of f] by (simp only: folderText_eq [of f])
next
  assume a: "makeChildFolder key n1 = Inr f1 \<and> makeChildFolder key n2 = Inr f2
      \<and> map_of n1 ''name'' = map_of n2 ''name''
      \<and> map_of n1 ''children'' = Some (JArray cc1) \<and> map_of n2 ''children'' = Some (JArray cc2)
      \<and> list_all isTyped cc1 \<and> list_all isTyped cc2
      \<and> filter isUrl cc1 = filter isUrl cc2
      \<and> filter (\<lambda>v. \<not> isUrl v) cc1 = filter (\<lambda>v. \<not> isUrl v) cc2"
  then show t: "folderText f1 = folderText f2"
    by (intro interleaving_text [of key n1 f1 n2 f2 cc1 cc2]) simp_all
  show "writes (htmlListArgs [folderName f2, folderLinks f2, folderList (Folders f2)])
      (folderText f1)"
    using writes_folder [of f2] by (simp only: t)
next
  assume "makeChildFolder key n1 = Inr f1 \<and> map_of n1 ''children'' = Some (JArray cc1)"
  then have a: "makeChildFolder key n1 = Inr f1" "map_of n1 ''children'' = Some (JArray cc1)"
    by simp_all
  show "map Key (Links f1) = map (\<lambda>(j, v). ''#'' @ Itoa j)
        (filter (\<lambda>(j, v). linkAt (''#'' @ Itoa j) v \<noteq> None) (enumerate 0 cc1))"
    by (rule child_keys(1) [OF a])
  show "map (\<lambda>c. Key (folderNode c)) (Folders f1) = map (\<lambda>(j, v). ''#'' @ Itoa j)
        (filter (\<lambda>(j, v). folderAt (''#'' @ Itoa j) v \<noteq> None) (enumerate 0 cc1))"
    by (rule child_keys(2) [OF a])
qed

theorem links_before_folders_witness:
  "makeChildFolder ''f'' [(''type'', JString ''folder''), (''name'', JString ''F''),
      (''date_added'', JString ''0''), (''children'', JArray [JObject [(''type'', JString ''url''),
      (''name'', JString ''A''), (''url'', JString ''a''), (''date_added'', JString ''0'')], JObject
      [(''type'', JString ''folder''), (''name'', JString ''B''), (''date_added'', JString
      ''0'')]])]
     = Inr (Folder \<lparr>Name = ''F'', Key = ''f'', Added = \<lparr>sec = 50491123200, nsec = 0\<rparr>, Modified =
         zeroTime\<rparr> [\<lparr>Name = ''A'', Key = ''#0'', Added = \<lparr>sec = 50491123200, nsec = 0\<rparr>, Modified =
         zeroTime, URL = ''a''\<rparr>] [Folder \<lparr>Name = ''B'', Key = ''#1'', Added = \<lparr>sec = 50491123200,
         nsec = 0\<rparr>, Modified = zeroTime\<rparr> [] []])
 \<and> makeChildFolder ''f'' [(''type'', JString ''folder''), (''name'', JString ''F''),
     (''date_added'', JString ''0''), (''children'', JArray [JObject [(''type'', JString
     ''folder''), (''name'', JString ''B''), (''date_added'', JString ''0'')], JObject [(''type'',
     JString ''url''), (''name'', JString ''A''), (''url'', JString ''a''), (''date_added'', JString
     ''0'')]])]
     = Inr (Folder \<lparr>Name = ''F'', Key = ''f'', Added = \<lparr>sec = 50491123200, nsec = 0\<rparr>, Modified =
         zeroTime\<rparr> [\<lparr>Name = ''A'', Key = ''#1'', Added = \<lparr>sec = 50491123200, nsec = 0\<rparr>, Modified =
         zeroTime, URL = ''a''\<rparr>] [Folder \<lparr>Name = ''B'', Key = ''#0'', Added = \<lparr>sec = 50491123200,
         nsec = 0\<rparr>, Modified = zeroTime\<rparr> [] []])
 \<and> folderText (Folder \<lparr>Name = ''F'', Key = ''f'', Added = \<lparr>sec = 50491123200, nsec = 0\<rparr>, Modified =
     zeroTime\<rparr> [\<lparr>Name = ''A'', Key = ''#0'', Added = \<lparr>sec = 50491123200, nsec = 0\<rparr>, Modified =
     zeroTime, URL = ''a''\<rparr>] [Folder \<lparr>Name = ''B'', Key = ''#1'', Added = \<lparr>sec = 50491123200, nsec =
     0\<rparr>, Modified = zeroTime\<rparr> [] []])
     = ''<h4>F</h4><dl><dt><a href='' @ [CHR 0x22] @ ''a'' @ [CHR 0x22] @
         ''>A</a></dt></dl><ul><li><h4>B</h4></li></ul>''
 \<and> writes (htmlListArgs [folderName (Folder \<lparr>Name = ''F'', Key = ''f'', Added = \<lparr>sec = 50491123200,
     nsec = 0\<rparr>, Modified = zeroTime\<rparr> [\<lparr>Name = ''A'', Key = ''#1'', Added = \<lparr>sec = 50491123200, nsec
     = 0\<rparr>, Modified = zeroTime, URL = ''a''\<rparr>] [Folder \<lparr>Name = ''B'', Key = ''#0'', Added = \<lparr>sec =
     50491123200, nsec = 0\<rparr>, Modified = zeroTime\<rparr> [] []]),
        folderLinks (Folder \<lparr>Name = ''F'', Key = ''f'', Added = \<lparr>sec = 50491123200, nsec = 0\<rparr>,
            Modified = zeroTime\<rparr> [\<lparr>Name = ''A'', Key = ''#1'', Added = \<lparr>sec = 50491123200, nsec =
            0\<rparr>, Modified = zeroTime, URL = ''a''\<rparr>] [Folder \<lparr>Name = ''B'', Key = ''#0'', Added = \<lparr>sec
            = 50491123200, nsec = 0\<rparr>, Modified = zeroTime\<rparr> [] []]),
        folderList (Folders (Folder \<lparr>Name = ''F'', Key = ''f'', Added = \<lparr>sec = 50491123200, nsec =
            0\<rparr>, Modified = zeroTime\<rparr> [\<lparr>Name = ''A'', Key = ''#1'', Added = \<lparr>sec = 50491123200, nsec
            = 0\<rparr>, Modified = zeroTime, URL = ''a''\<rparr>] [Folder \<lparr>Name = ''B'', Key = ''#0'', Added =
            \<lparr>sec = 50491123200, nsec = 0\<rparr>, Modified = zeroTime\<rparr> [] []]))])
     (''<h4>F</h4><dl><dt><a href='' @ [CHR 0x22] @ ''a'' @ [CHR 0x22] @
         ''>A</a></dt></dl><ul><li><h4>B</h4></li></ul>'')"
proof -
  let ?n1 = "[(''type'', JString ''folder''), (''name'', JString ''F''), (''date_added'', JString
      ''0''), (''children'', JArray [JObject [(''type'', JString ''url''), (''name'', JString
      ''A''), (''url'', JString ''a''), (''date_added'', JString ''0'')], JObject [(''type'',
      JString ''folder''), (''name'', JString ''B''), (''date_added'', JString ''0'')]])]"
  let ?n2 = "[(''type'', JString ''folder''), (''name'', JString ''F''), (''date_added'', JString
      ''0''), (''children'', JArray [JObject [(''type'', JString ''folder''), (''name'', JString
      ''B''), (''date_added'', JString ''0'')], JObject [(''type'', JString ''url''), (''name'',
      JString ''A''), (''url'', JString ''a''), (''date_added'', JString ''0'')]])]"
  let ?F1 = "Folder \<lparr>Name = ''F'', Key = ''f'', Added = \<lparr>sec = 50491123200, nsec = 0\<rparr>, Modified =
      zeroTime\<rparr> [\<lparr>Name = ''A'', Key = ''#0'', Added = \<lparr>sec = 50491123200, nsec = 0\<rparr>, Modified =
      zeroTime, URL = ''a''\<rparr>] [Folder \<lparr>Name = ''B'', Key = ''#1'', Added = \<lparr>sec = 50491123200, nsec
      = 0\<rparr>, Modified = zeroTime\<rparr> [] []]"
  let ?F2 = "Folder \<lparr>Name = ''F'', Key = ''f'', Added = \<lparr>sec = 50491123200, nsec = 0\<rparr>, Modified =
      zeroTime\<rparr> [\<lparr>Name = ''A'', Key = ''#1'', Added = \<lparr>sec = 50491123200, nsec = 0\<rparr>, Modified =
      zeroTime, URL = ''a''\<rparr>] [Folder \<lparr>Name = ''B'', Key = ''#0'', Added = \<lparr>sec = 50491123200, nsec
      = 0\<rparr>, Modified = zeroTime\<rparr> [] []]"
  let ?A = "JObject [(''type'', JString ''url''), (''name'', JString ''A''), (''url'', JString
      ''a''), (''date_added'', JString ''0'')]"
  let ?B = "JObject [(''type'', JString ''folder''), (''name'', JString ''B''), (''date_added'',
      JString ''0'')]"
  have p1: "makeChildFolder ''f'' ?n1 = Inr ?F1"
    by (simp add: tree_eval read_eval)
  have p2: "makeChildFolder ''f'' ?n2 = Inr ?F2"
    by (simp add: tree_eval read_eval)
  have t: "folderText ?F1 = ''<h4>F</h4><dl><dt><a href='' @ [CHR 0x22] @ ''a'' @ [CHR 0x22] @
      ''>A</a></dt></dl><ul><li><h4>B</h4></li></ul>''"
    by (simp add: text_eval)
  have h: "makeChildFolder ''f'' ?n1 = Inr ?F1 \<and> makeChildFolder ''f'' ?n2 = Inr ?F2
      \<and> map_of ?n1 ''name'' = map_of ?n2 ''name''
      \<and> map_of ?n1 ''children'' = Some (JArray [?A, ?B])
      \<and> map_of ?n2 ''children'' = Some (JArray [?B, ?A])
      \<and> list_all isTyped [?A, ?B] \<and> list_all isTyped [?B, ?A]
      \<and> filter isUrl [?A, ?B] = filter isUrl [?B, ?A]
      \<and> filter (\<lambda>v. \<not> isUrl v) [?A, ?B] = filter (\<lambda>v. \<not> isUrl v) [?B, ?A]"
    using p1 p2 by (simp add: isTyped_def isUrl_def)
  from links_before_folders [where key = "''f''" and ?n1.0 = ?n1 and ?n2.0 = ?n2
      and ?f1.0 = ?F1 and ?f2.0 = ?F2 and ?cc1.0 = "[?A, ?B]" and ?cc2.0 = "[?B, ?A]",
      THEN conjunct2, THEN conjunct1, THEN mp, OF h]
  have w: "writes (htmlListArgs [folderName ?F2, folderLinks ?F2, folderList (Folders ?F2)])
      (folderText ?F1)"
    by (rule conjunct2)
  from p1 p2 t w show ?thesis
    by (simp only: t simp_thms)
qed

text \<open>
  Where the claim as stated fails: a link before a folder and the folder before the link
  give two different trees, whose keys tell the two orders apart; and a child that is a
  mapping with no type is named by its key, so that its index shows in the text.
\<close>

theorem links_before_folders_counterexample:
  "makeChildFolder ''f'' [(''type'', JString ''folder''), (''name'', JString ''F''),
      (''date_added'', JString ''0''), (''children'', JArray [JObject [(''type'', JString ''url''),
      (''name'', JString ''A''), (''url'', JString ''a''), (''date_added'', JString ''0'')], JObject
      [(''type'', JString ''folder''), (''name'', JString ''B''), (''date_added'', JString
      ''0'')]])]
     = Inr (Folder \<lparr>Name = ''F'', Key = ''f'', Added = \<lparr>sec = 50491123200, nsec = 0\<rparr>, Modified =
         zeroTime\<rparr> [\<lparr>Name = ''A'', Key = ''#0'', Added = \<lparr>sec = 50491123200, nsec = 0\<rparr>, Modified =
         zeroTime, URL = ''a''\<rparr>] [Folder \<lparr>Name = ''B'', Key = ''#1'', Added = \<lparr>sec = 50491123200,
         nsec = 0\<rparr>, Modified = zeroTime\<rparr> [] []])
 \<and> makeChildFolder ''f'' [(''type'', JString ''folder''), (''name'', JString ''F''),
     (''date_added'', JString ''0''), (''children'', JArray [JObject [(''type'', JString
     ''folder''), (''name'', JString ''B''), (''date_added'', JString ''0'')], JObject [(''type'',
     JString ''url''), (''name'', JString ''A''), (''url'', JString ''a''), (''date_added'', JString
     ''0'')]])]
     = Inr (Folder \<lparr>Name = ''F'', Key = ''f'', Added = \<lparr>sec = 50491123200, nsec = 0\<rparr>, Modified =
         zeroTime\<rparr> [\<lparr>Name = ''A'', Key = ''#1'', Added = \<lparr>sec = 50491123200, nsec = 0\<rparr>, Modified =
         zeroTime, URL = ''a''\<rparr>] [Folder \<lparr>Name = ''B'', Key = ''#0'', Added = \<lparr>sec = 50491123200,
         nsec = 0\<rparr>, Modified = zeroTime\<rparr> [] []])
 \<and> Folder \<lparr>Name = ''F'', Key = ''f'', Added = \<lparr>sec = 50491123200, nsec = 0\<rparr>, Modified = zeroTime\<rparr>
     [\<lparr>Name = ''A'', Key = ''#0'', Added = \<lparr>sec = 50491123200, nsec = 0\<rparr>, Modified = zeroTime, URL =
     ''a''\<rparr>] [Folder \<lparr>Name = ''B'', Key = ''#1'', Added = \<lparr>sec = 50491123200, nsec = 0\<rparr>, Modified =
     zeroTime\<rparr> [] []]
   \<noteq> Folder \<lparr>Name = ''F'', Key = ''f'', Added = \<lparr>sec = 50491123200, nsec = 0\<rparr>, Modified = zeroTime\<rparr>
       [\<lparr>Name = ''A'', Key = ''#1'', Added = \<lparr>sec = 50491123200, nsec = 0\<rparr>, Modified = zeroTime, URL
       = ''a''\<rparr>] [Folder \<lparr>Name = ''B'', Key = ''#0'', Added = \<lparr>sec = 50491123200, nsec = 0\<rparr>,
       Modified = zeroTime\<rparr> [] []]
 \<and> map Key (Links (Folder \<lparr>Name = ''F'', Key = ''f'', Added = \<lparr>sec = 50491123200, nsec = 0\<rparr>,
     Modified = zeroTime\<rparr> [\<lparr>Name = ''A'', Key = ''#0'', Added = \<lparr>sec = 50491123200, nsec = 0\<rparr>,
     Modified = zeroTime, URL = ''a''\<rparr>] [Folder \<lparr>Name = ''B'', Key = ''#1'', Added = \<lparr>sec =
     50491123200, nsec = 0\<rparr>, Modified = zeroTime\<rparr> [] []])) = [''#0'']
 \<and> map (\<lambda>c. Key (folderNode c)) (Folders (Folder \<lparr>Name = ''F'', Key = ''f'', Added = \<lparr>sec =
     50491123200, nsec = 0\<rparr>, Modified = zeroTime\<rparr> [\<lparr>Name = ''A'', Key = ''#0'', Added = \<lparr>sec =
     50491123200, nsec = 0\<rparr>, Modified = zeroTime, URL = ''a''\<rparr>] [Folder \<lparr>Name = ''B'', Key = ''#1'',
     Added = \<lparr>sec = 50491123200, nsec = 0\<rparr>, Modified = zeroTime\<rparr> [] []])) = [''#1'']
 \<and> map Key (Links (Folder \<lparr>Name = ''F'', Key = ''f'', Added = \<lparr>sec = 50491123200, nsec = 0\<rparr>,
     Modified = zeroTime\<rparr> [\<lparr>Name = ''A'', Key = ''#1'', Added = \<lparr>sec = 50491123200, nsec = 0\<rparr>,
     Modified = zeroTime, URL = ''a''\<rparr>] [Folder \<lparr>Name = ''B'', Key = ''#0'', Added = \<lparr>sec =
     50491123200, nsec = 0\<rparr>, Modified = zeroTime\<rparr> [] []])) = [''#1'']
 \<and> map (\<lambda>c. Key (folderNode c)) (Folders (Folder \<lparr>Name = ''F'', Key = ''f'', Added = \<lparr>sec =
     50491123200, nsec = 0\<rparr>, Modified = zeroTime\<rparr> [\<lparr>Name = ''A'', Key = ''#1'', Added = \<lparr>sec =
     50491123200, nsec = 0\<rparr>, Modified = zeroTime, URL = ''a''\<rparr>] [Folder \<lparr>Name = ''B'', Key = ''#0'',
     Added = \<lparr>sec = 50491123200, nsec = 0\<rparr>, Modified = zeroTime\<rparr> [] []])) = [''#0'']
 \<and> makeChildFolder ''f'' [(''type'', JString ''folder''), (''name'', JString ''F''),
     (''date_added'', JString ''0''), (''children'', JArray [JObject [], JObject [(''type'', JString
     ''url''), (''name'', JString ''A''), (''url'', JString ''a''), (''date_added'', JString
     ''0'')]])]
     = Inr (Folder \<lparr>Name = ''F'', Key = ''f'', Added = \<lparr>sec = 50491123200, nsec = 0\<rparr>, Modified =
         zeroTime\<rparr> [\<lparr>Name = ''A'', Key = ''#1'', Added = \<lparr>sec = 50491123200, nsec = 0\<rparr>, Modified =
         zeroTime, URL = ''a''\<rparr>] [Folder \<lparr>Name = ''#0'', Key = ''#0'', Added = zeroTime, Modified =
         zeroTime\<rparr> [] []])
 \<and> makeChildFolder ''f'' [(''type'', JString ''folder''), (''name'', JString ''F''),
     (''date_added'', JString ''0''), (''children'', JArray [JObject [(''type'', JString ''url''),
     (''name'', JString ''A''), (''url'', JString ''a''), (''date_added'', JString ''0'')], JObject
     []])]
     = Inr (Folder \<lparr>Name = ''F'', Key = ''f'', Added = \<lparr>sec = 50491123200, nsec = 0\<rparr>, Modified =
         zeroTime\<rparr> [\<lparr>Name = ''A'', Key = ''#0'', Added = \<lparr>sec = 50491123200, nsec = 0\<rparr>, Modified =
         zeroTime, URL = ''a''\<rparr>] [Folder \<lparr>Name = ''#1'', Key = ''#1'', Added = zeroTime, Modified =
         zeroTime\<rparr> [] []])
 \<and> folderText (Folder \<lparr>Name = ''F'', Key = ''f'', Added = \<lparr>sec = 50491123200, nsec = 0\<rparr>, Modified =
     zeroTime\<rparr> [\<lparr>Name = ''A'', Key = ''#1'', Added = \<lparr>sec = 50491123200, nsec = 0\<rparr>, Modified =
     zeroTime, URL = ''a''\<rparr>] [Folder \<lparr>Name = ''#0'', Key = ''#0'', Added = zeroTime, Modified =
     zeroTime\<rparr> [] []])
   \<noteq> folderText (Folder \<lparr>Name = ''F'', Key = ''f'', Added = \<lparr>sec = 50491123200, nsec = 0\<rparr>, Modified
       = zeroTime\<rparr> [\<lparr>Name = ''A'', Key = ''#0'', Added = \<lparr>sec = 50491123200, nsec = 0\<rparr>, Modified =
       zeroTime, URL = ''a''\<rparr>] [Folder \<lparr>Name = ''#1'', Key = ''#1'', Added = zeroTime, Modified =
       zeroTime\<rparr> [] []])"
  by (simp add: tree_eval makeRootFolder.simps read_eval text_eval)

subsection \<open>The whole program on the minimal document\<close>

lemma Node_read_map_of:
  assumes "map_of node = map_of node'"
  shows "Node_read key node = Node_read key node'"
proof -
  have r: "readString k node = readString k node'" for k
    by (simp add: readString_def assms)
  have t: "readTimeStamp k node = readTimeStamp k node'" for k
    by (simp add: readTimeStamp_def readInt_def r)
  show ?thesis
    unfolding Node_read_def r t by (rule refl)
qed

lemma makeChildFolder_map_of:
  assumes "map_of node = map_of node'"
  shows "makeChildFolder key node = makeChildFolder key node'"
  unfolding makeChildFolder.simps [of key node] makeChildFolder.simps [of key node']
    Node_read_map_of [OF assms] assms
  by (rule refl)

lemma untyped_entry_fails:
  assumes "map_of node ''type'' = None" "node = (k, v) # rest" "\<forall>m. v \<noteq> JObject m" "k \<noteq> []"
  shows "add root key (JObject node) = Inl (ParserError (key @ ''/'' @ k) UnexpectedNodeType)"
proof -
  have "add folder k v = Inl (ParserError k UnexpectedNodeType)" for folder
    using assms(3) by (cases v) (simp_all add: add.simps)
  then have "makeRootFolder key node = Inl (ParserError (key @ ''/'' @ k) UnexpectedNodeType)"
    using assms(2,4) by (simp add: makeRootFolder.simps mapError_def)
  with assms(1) show ?thesis
    by (simp add: add.simps addFolder_def)
qed

text \<open>
  C1, as the code has it. A mapping with no type under \<^verbatim>\<open>bookmark_bar\<close> is taken for an
  unlabeled folder, named by its key, each entry of which has to be a node: when the
  entry visited first is no mapping, as is every entry of the minimal document, the
  program fails with the unexpected-node-type error on the path
  \<^verbatim>\<open>roots/bookmark_bar/\<close> and the key of that entry. When the mapping under
  \<^verbatim>\<open>bookmark_bar\<close> has the fields of the minimal document and the type \<^verbatim>\<open>"folder"\<close>, in
  whatever order, the program writes the header and a body that holds the heading
  \<^verbatim>\<open>Bookmarks Bar\<close>, a \<^verbatim>\<open><dl>\<close> with the one \<^verbatim>\<open><dt>\<close> of the link, and no \<^verbatim>\<open><ul>\<close> but
  the one of the document, whose one \<^verbatim>\<open><li>\<close> is the folder.
\<close>

theorem minimal_document:
  "(map_of node ''type'' = None \<and> node = (k, v) # rest \<and> (\<forall>m. v \<noteq> JObject m) \<and> k \<noteq> [] \<longrightarrow>
      main (JObject [(''bookmark_bar'', JObject node)]) dest
        = (Some (ParserError (''roots/bookmark_bar/'' @ k) UnexpectedNodeType), dest))
 \<and> (map_of node = map_of [(''type'', JString ''folder''), (''name'', JString ''Bookmarks Bar''),
     (''date_added'', JString ''13000000000000000''), (''children'', JArray [JObject [(''type'',
     JString ''url''), (''name'', JString ''Example''), (''url'', JString ''https://example.com''),
     (''date_added'', JString ''13000000000000000'')]])] \<longrightarrow>
      main (JObject [(''bookmark_bar'', JObject node)]) (unlimited buf)
        = (None, unlimited (buf @ htmlHeader @
            ''<body><ul><li><h4>Bookmarks Bar</h4><dl><dt><a href='' @ [CHR 0x22] @
            ''https://example.com'' @ [CHR 0x22] @
            ''>Example</a></dt></dl></li></ul></body></html>'' @ [CHR 0x0A])))"
proof (intro conjI impI)
  assume "map_of node ''type'' = None \<and> node = (k, v) # rest \<and> (\<forall>m. v \<noteq> JObject m) \<and> k \<noteq> []"
  then have h: "map_of node ''type'' = None" "node = (k, v) # rest" "\<forall>m. v \<noteq> JObject m"
    "k \<noteq> []"
    by blast+
  have "add root ''bookmark_bar'' (JObject node)
      = Inl (ParserError (''bookmark_bar'' @ ''/'' @ k) UnexpectedNodeType)" for root
    by (rule untyped_entry_fails [OF h])
  then show "main (JObject [(''bookmark_bar'', JObject node)]) dest
      = (Some (ParserError (''roots/bookmark_bar/'' @ k) UnexpectedNodeType), dest)"
    by (simp add: main_def buildTree_def makeRootFolder.simps mapError_def)
next
  let ?entries = "[(''type'', JString ''folder''), (''name'', JString ''Bookmarks Bar''),
      (''date_added'', JString ''13000000000000000''), (''children'', JArray [JObject [(''type'',
      JString ''url''), (''name'', JString ''Example''), (''url'', JString ''https://example.com''),
      (''date_added'', JString ''13000000000000000'')]])]"
  let ?F = "Folder \<lparr>Name = ''Bookmarks Bar'', Key = ''bookmark_bar'',
        Added = \<lparr>sec = 63491123200, nsec = 0\<rparr>, Modified = zeroTime\<rparr>
      [\<lparr>Name = ''Example'', Key = ''#0'', Added = \<lparr>sec = 63491123200, nsec = 0\<rparr>,
         Modified = zeroTime, URL = ''https://example.com''\<rparr>] []"
  assume m: "map_of node = map_of ?entries"
  have "makeChildFolder ''bookmark_bar'' ?entries = Inr ?F"
    by (simp add: tree_eval read_eval)
  with makeChildFolder_map_of [OF m, of "''bookmark_bar''"]
  have c: "makeChildFolder ''bookmark_bar'' node = Inr ?F"
    by simp
  have t: "map_of node ''type'' = Some (JString ''folder'')"
    by (simp add: m)
  have b: "buildTree ''roots'' (JObject [(''bookmark_bar'', JObject node)])
      = Inr (Folder \<lparr>Name = ''roots'', Key = ''roots'', Added = zeroTime, Modified = zeroTime\<rparr>
               [] [?F])"
    by (simp add: buildTree_def makeRootFolder.simps add.simps t c addFolder_def)
  have "writes (foldersToHTML [?F]) (htmlHeader @
      ''<body><ul><li><h4>Bookmarks Bar</h4><dl><dt><a href='' @ [CHR 0x22] @
      ''https://example.com'' @ [CHR 0x22] @ ''>Example</a></dt></dl></li></ul></body></html>'' @
      [CHR 0x0A])"
    using writes_foldersToHTML [of "[?F]"] by (simp add: text_eval)
  then show "main (JObject [(''bookmark_bar'', JObject node)]) (unlimited buf)
      = (None, unlimited (buf @ htmlHeader @
          ''<body><ul><li><h4>Bookmarks Bar</h4><dl><dt><a href='' @ [CHR 0x22] @
          ''https://example.com'' @ [CHR 0x22] @ ''>Example</a></dt></dl></li></ul></body></html>''
          @ [CHR 0x0A]))"
    by (simp add: main_def b writes_def)
qed

theorem minimal_document_witness:
  "main (JObject [(''bookmark_bar'', JObject [(''name'', JString ''Bookmarks Bar''),
      (''date_added'', JString ''13000000000000000''), (''children'', JArray [JObject [(''type'',
      JString ''url''), (''name'', JString ''Example''), (''url'', JString ''https://example.com''),
      (''date_added'', JString ''13000000000000000'')]])])]) (unlimited [])
     = (Some (ParserError ''roots/bookmark_bar/name'' UnexpectedNodeType), unlimited [])
 \<and> main (JObject [(''bookmark_bar'', JObject [(''type'', JString ''folder''), (''name'', JString
     ''Bookmarks Bar''), (''date_added'', JString ''13000000000000000''), (''children'', JArray
     [JObject [(''type'', JString ''url''), (''name'', JString ''Example''), (''url'', JString
     ''https://example.com''), (''date_added'', JString ''13000000000000000'')]])])]) (unlimited [])
     = (None, unlimited (htmlHeader @ ''<body><ul><li><h4>Bookmarks Bar</h4><dl><dt><a href='' @
         [CHR 0x22] @ ''https://example.com'' @ [CHR 0x22] @
         ''>Example</a></dt></dl></li></ul></body></html>'' @ [CHR 0x0A]))"
proof -
  have a: "main (JObject [(''bookmark_bar'', JObject [(''name'', JString ''Bookmarks Bar''),
      (''date_added'', JString ''13000000000000000''), (''children'', JArray [JObject [(''type'',
      JString ''url''), (''name'', JString ''Example''), (''url'', JString ''https://example.com''),
      (''date_added'', JString ''13000000000000000'')]])])]) (unlimited [])
     = (Some (ParserError (''roots/bookmark_bar/'' @ ''name'') UnexpectedNodeType), unlimited [])"
    by (rule minimal_document [where k = "''name''" and v = "JString ''Bookmarks Bar''"
          and rest = "[(''date_added'', JString ''13000000000000000''), (''children'', JArray
              [JObject [(''type'', JString ''url''), (''name'', JString ''Example''), (''url'',
              JString ''https://example.com''), (''date_added'', JString
              ''13000000000000000'')]])]",
          THEN conjunct1, THEN mp]) simp
  have b: "main (JObject [(''bookmark_bar'', JObject [(''type'', JString ''folder''), (''name'',
      JString ''Bookmarks Bar''), (''date_added'', JString ''13000000000000000''), (''children'',
      JArray [JObject [(''type'', JString ''url''), (''name'', JString ''Example''), (''url'',
      JString ''https://example.com''), (''date_added'', JString ''13000000000000000'')]])])])
      (unlimited [])
     = (None, unlimited ([] @ htmlHeader @ ''<body><ul><li><h4>Bookmarks Bar</h4><dl><dt><a href=''
         @ [CHR 0x22] @ ''https://example.com'' @ [CHR 0x22] @
         ''>Example</a></dt></dl></li></ul></body></html>'' @ [CHR 0x0A]))"
    by (rule minimal_document [THEN conjunct2, THEN mp]) (rule refl)
  from a b show ?thesis
    by simp
qed

text \<open>
  The minimal document as the claim gives it, in each of the orders in which its three
  fields can be visited: the program fails and writes nothing.
\<close>

theorem minimal_document_counterexample:
  "main (JObject [(''bookmark_bar'', JObject [(''name'', JString ''Bookmarks Bar''),
      (''date_added'', JString ''13000000000000000''), (''children'', JArray [JObject [(''type'',
      JString ''url''), (''name'', JString ''Example''), (''url'', JString ''https://example.com''),
      (''date_added'', JString ''13000000000000000'')]])])]) (unlimited [])
     = (Some (ParserError ''roots/bookmark_bar/name'' UnexpectedNodeType), unlimited [])
 \<and> main (JObject [(''bookmark_bar'', JObject [(''name'', JString ''Bookmarks Bar''), (''children'',
     JArray [JObject [(''type'', JString ''url''), (''name'', JString ''Example''), (''url'',
     JString ''https://example.com''), (''date_added'', JString ''13000000000000000'')]]),
     (''date_added'', JString ''13000000000000000'')])]) (unlimited [])
     = (Some (ParserError ''roots/bookmark_bar/name'' UnexpectedNodeType), unlimited [])
 \<and> main (JObject [(''bookmark_bar'', JObject [(''date_added'', JString ''13000000000000000''),
     (''name'', JString ''Bookmarks Bar''), (''children'', JArray [JObject [(''type'', JString
     ''url''), (''name'', JString ''Example''), (''url'', JString ''https://example.com''),
     (''date_added'', JString ''13000000000000000'')]])])]) (unlimited [])
     = (Some (ParserError ''roots/bookmark_bar/date_added'' UnexpectedNodeType), unlimited [])
 \<and> main (JObject [(''bookmark_bar'', JObject [(''date_added'', JString ''13000000000000000''),
     (''children'', JArray [JObject [(''type'', JString ''url''), (''name'', JString ''Example''),
     (''url'', JString ''https://example.com''), (''date_added'', JString ''13000000000000000'')]]),
     (''name'', JString ''Bookmarks Bar'')])]) (unlimited [])
     = (Some (ParserError ''roots/bookmark_bar/date_added'' UnexpectedNodeType), unlimited [])
 \<and> main (JObject [(''bookmark_bar'', JObject [(''children'', JArray [JObject [(''type'', JString
     ''url''), (''name'', JString ''Example''), (''url'', JString ''https://example.com''),
     (''date_added'', JString ''13000000000000000'')]]), (''name'', JString ''Bookmarks Bar''),
     (''date_added'', JString ''13000000000000000'')])]) (unlimited [])
     = (Some (ParserError ''roots/bookmark_bar/children'' UnexpectedNodeType), unlimited [])
 \<and> main (JObject [(''bookmark_bar'', JObject [(''children'', JArray [JObject [(''type'', JString
     ''url''), (''name'', JString ''Example''), (''url'', JString ''https://example.com''),
     (''date_added'', JString ''13000000000000000'')]]), (''date_added'', JString
     ''13000000000000000''), (''name'', JString ''Bookmarks Bar'')])]) (unlimited [])
     = (Some (ParserError ''roots/bookmark_bar/children'' UnexpectedNodeType), unlimited [])"
  by (simp add: main_def buildTree_def makeRootFolder.simps add.simps mapError_def addFolder_def)

end
